(* ===== verification/Prelude.thy ===== *)
theory Prelude
  imports Main "HOL-Library.List_Lexorder" "HOL-Library.Char_ord" "HOL-Library.Signed_Division"
begin

text \<open>
  What every component shares: the theorem collections of the development, Go's 64 bit
  integers (\<open>int\<close>, \<open>int64\<close>: arithmetic on \<^typ>\<open>int\<close> followed by the wrap-around \<open>int64\<close>),
  and Go maps. A Go map with string keys is an association list kept strictly sorted by its
  keys (\<open>gomap_ok\<close>), so that two maps with the same entries are the same value and
  \<open>encoding/json\<close>'s key order is the order of the list.
\<close>

named_theorems proc_simps \<open>unfolding rules of the sequencing of fallible, stateful steps\<close>
named_theorems gomap_simps \<open>rewriting rules of Go maps as sorted association lists\<close>
named_theorems code_defs \<open>definitions of the model that a proof may unfold together\<close>

section \<open>Strings\<close>

text \<open>A Go string is a sequence of bytes: \<^typ>\<open>string\<close> has one \<^typ>\<open>char\<close> per byte.\<close>

abbreviation byte :: "char \<Rightarrow> nat" where
  "byte c \<equiv> of_char c"

lemma byte_lt_256 [simp]: "byte c < 256"
  by (cases c) (simp add: of_char_Char less_Suc_eq_le)

lemma byte_inj [simp]: "byte c = byte d \<longleftrightarrow> c = d"
  by (rule of_char_eq_iff)

lemma char_of_byte [simp]: "char_of (byte c) = c"
  by simp

lemma byte_char_of [simp]: "n < 256 \<Longrightarrow> byte (char_of n) = n"
  by simp

section \<open>Sixty four bit integers\<close>

definition int64 :: "int \<Rightarrow> int" where
  "int64 x = (x + 2 ^ 63) mod 2 ^ 64 - 2 ^ 63"

lemma int64_id [simp]: "- (2 ^ 63) \<le> x \<Longrightarrow> x < 2 ^ 63 \<Longrightarrow> int64 x = x"
  by (simp add: int64_def)

lemma int64_range: "- (2 ^ 63) \<le> int64 x \<and> int64 x < 2 ^ 63"
proof -
  have "0 \<le> (x + 2 ^ 63) mod 2 ^ 64" "(x + 2 ^ 63) mod 2 ^ 64 < (2 ^ 64 :: int)"
    by simp_all
  then show ?thesis by (simp add: int64_def)
qed

section \<open>Go maps as sorted association lists\<close>

definition gomap_ok :: "('k::linorder \<times> 'v) list \<Rightarrow> bool" where
  "gomap_ok m \<longleftrightarrow> sorted_wrt (<) (map fst m)"

fun mput :: "'k::linorder \<Rightarrow> 'v \<Rightarrow> ('k \<times> 'v) list \<Rightarrow> ('k \<times> 'v) list" where
  "mput k v [] = [(k, v)]"
| "mput k v (e # m) =
     (if k < fst e then (k, v) # e # m
      else if fst e = k then (k, v) # m
      else e # mput k v m)"

definition mput_all :: "('k::linorder \<times> 'v) list \<Rightarrow> ('k \<times> 'v) list \<Rightarrow> ('k \<times> 'v) list" where
  "mput_all es m = fold (\<lambda>e. mput (fst e) (snd e)) es m"

lemma gomap_ok_Nil [simp, intro]: "gomap_ok []"
  by (simp add: gomap_ok_def)

lemma gomap_ok_Cons: "gomap_ok (e # m) \<longleftrightarrow> (\<forall>x \<in> set m. fst e < fst x) \<and> gomap_ok m"
  by (auto simp: gomap_ok_def)

lemma gomap_ok_distinct: "gomap_ok m \<Longrightarrow> distinct (map fst m)"
  by (simp add: gomap_ok_def strict_sorted_iff)

lemma map_of_mput [simp, gomap_simps]: "map_of (mput k v m) = (map_of m)(k \<mapsto> v)"
  by (induction m) (auto simp: fun_eq_iff)

lemma keys_mput [simp, gomap_simps]: "fst ` set (mput k v m) = insert k (fst ` set m)"
  by (induction m) auto

lemma gomap_ok_mput [simp, intro, gomap_simps]: "gomap_ok m \<Longrightarrow> gomap_ok (mput k v m)"
proof (induction m)
  case Nil
  then show ?case by (simp add: gomap_ok_Cons)
next
  case (Cons e m)
  have keys: "x \<in> set (mput k v m) \<Longrightarrow> fst x = k \<or> fst x \<in> fst ` set m" for x
    using keys_mput [of k v m] by (metis image_eqI insertE)
  from Cons show ?case
    by (auto simp: gomap_ok_Cons dest!: keys)
qed

lemma mput_nonempty [simp]: "mput k v m \<noteq> []"
  by (cases m) auto

lemma set_mput: "set (mput k v m) \<subseteq> insert (k, v) (set m)"
  by (induction m) auto

lemma mput_below: "(\<And>x. x \<in> set m \<Longrightarrow> k < fst x) \<Longrightarrow> mput k v m = (k, v) # m"
  by (cases m) auto

lemma mput_above: "(\<And>x. x \<in> set m \<Longrightarrow> fst x < k) \<Longrightarrow> mput k v m = m @ [(k, v)]"
  by (induction m) (fastforce dest: less_asym)+

lemma gomap_eqI:
  assumes "gomap_ok m" and "gomap_ok n" and "map_of m = map_of n"
  shows "m = n"
proof (rule map_sorted_distinct_set_unique [where f = fst])
  have eq: "set m = set n"
    using assms by (simp add: gomap_ok_distinct map_of_inject_set)
  show "set m = set n" by (rule eq)
  have "distinct (map fst m)" using assms(1) by (rule gomap_ok_distinct)
  then show "inj_on fst (set m \<union> set n)"
    by (simp add: eq [symmetric] distinct_map)
qed (use assms(1,2) in \<open>simp_all add: gomap_ok_def strict_sorted_iff\<close>)

lemma mput_all_Nil [simp]: "mput_all [] m = m"
  by (simp add: mput_all_def)

lemma mput_all_Cons [simp]: "mput_all (e # es) m = mput_all es (mput (fst e) (snd e) m)"
  by (simp add: mput_all_def)

lemma gomap_ok_mput_all [simp, intro, gomap_simps]: "gomap_ok m \<Longrightarrow> gomap_ok (mput_all es m)"
  by (induction es arbitrary: m) auto

lemma map_of_mput_all [gomap_simps]: "map_of (mput_all es m) = map_of m ++ map_of (rev es)"
  by (induction es arbitrary: m) (auto simp: fun_eq_iff map_add_def split: option.splits)

lemma set_mput_all: "set (mput_all es m) \<subseteq> set es \<union> set m"
proof (induction es arbitrary: m)
  case Nil
  then show ?case by simp
next
  case (Cons e es)
  show ?case using Cons [of "mput (fst e) (snd e) m"] set_mput [of "fst e" "snd e" m] by auto
qed

text \<open>Reading back the entries of a map in their order rebuilds the map.\<close>

lemma mput_all_sorted:
  "gomap_ok (m @ es) \<Longrightarrow> mput_all es m = m @ es"
proof (induction es arbitrary: m)
  case Nil
  then show ?case by simp
next
  case (Cons e es)
  have "mput (fst e) (snd e) m = m @ [e]"
    using Cons.prems by (subst mput_above) (auto simp: gomap_ok_def sorted_wrt_append)
  then show ?case using Cons.IH [of "m @ [e]"] Cons.prems by simp
qed

lemma mput_all_id [simp, gomap_simps]: "gomap_ok es \<Longrightarrow> mput_all es [] = es"
  using mput_all_sorted [of "[]" es] by simp

end
