(* ===== verification/GoErrors.thy ===== *)
theory GoErrors
  imports Prelude
begin

text \<open>
  The errors of the program and the results of its functions.

  A Go \<open>error\<close> is a tree (\<open>goerr\<close>): a sentinel compared by identity, an error of a library
  the code only inspects by kind (a MariaDB error number, a Fiber status, a plain message), a
  \<open>fmt.Errorf\<close> with its \<open>%w\<close> operands, or the application error of
  \<^verbatim>\<open>internal/shared/apperror/apperror.go\<close> with its optional cause. \<open>errors.Is\<close> and
  \<open>errors.As\<close> walk that tree in pre-order (\<open>error_chain\<close>).

  A function returns \<open>Ok\<close>, an error (\<open>Err\<close>), or unwinds with a run time \<open>Panic\<close>. A use
  case with effects is a \<open>proc\<close>: it takes the state of the world and returns its result with
  the new world.
\<close>

section \<open>Errors\<close>

datatype sentinel =
    ErrUserNotFound | ErrEmailAlreadyExists | ErrInvalidCredentials | ErrInvalidVerificationCode
  | ErrEmailAlreadyVerified | ErrInvalidResetToken | ErrEmailNotVerified | ErrVerificationNotFound
  | ErrResetNotFound
  | ErrProgressNotFound | ErrUnknownOwner | ErrUnreadableDocument | ErrUnsupportedSchema
  | ErrInvalidAnswer | ErrInvalidLesson | ErrProtectedField | ErrEmptyPatch | ErrUnreadablePatch
  | ErrInvalidToken | ErrTokenExpired | ErrPasswordMismatch | ErrMissing
  | SqlErrNoRows | JwtErrTokenExpired | BcryptErrMismatchedHashAndPassword | HttpErrServerClosed

text \<open>\<open>apperror.Kind\<close>, in the order of its \<open>iota\<close> constants.\<close>

datatype Kind =
    KindInternal | KindValidation | KindUnauthorized | KindForbidden | KindNotFound
  | KindConflict | KindTooManyRequests | KindUnavailable

record FieldError =
  Field :: string
  Rule :: string
  Message :: string

datatype goerr =
    Sentinel sentinel
  | LibError string
  | MySQLError nat
  | FiberError int string
  | Errorf string "goerr list"
  | AppError Kind string string "FieldError list" "goerr option"

fun error_chain :: "goerr \<Rightarrow> goerr list" where
  "error_chain (Errorf m es) = Errorf m es # concat (map error_chain es)"
| "error_chain (AppError k c m fs None) = [AppError k c m fs None]"
| "error_chain (AppError k c m fs (Some e)) = AppError k c m fs (Some e) # error_chain e"
| "error_chain e = [e]"

definition errors_Is :: "goerr \<Rightarrow> sentinel \<Rightarrow> bool" where
  "errors_Is e s \<longleftrightarrow> Sentinel s \<in> set (error_chain e)"

fun is_AppError :: "goerr \<Rightarrow> bool" where
  "is_AppError (AppError k c m fs ca) = True"
| "is_AppError e = False"

fun is_FiberError :: "goerr \<Rightarrow> bool" where
  "is_FiberError (FiberError n m) = True"
| "is_FiberError e = False"

fun is_MySQLError :: "goerr \<Rightarrow> bool" where
  "is_MySQLError (MySQLError n) = True"
| "is_MySQLError e = False"

text \<open>\<open>errors.As\<close> with a target of the given class: the first error of the chain in it.\<close>

definition errors_As :: "(goerr \<Rightarrow> bool) \<Rightarrow> goerr \<Rightarrow> goerr option" where
  "errors_As p e = List.find p (error_chain e)"

lemma errors_Is_simps [simp]:
  "errors_Is (Sentinel t) s \<longleftrightarrow> t = s"
  "\<not> errors_Is (LibError m) s"
  "\<not> errors_Is (MySQLError n) s"
  "\<not> errors_Is (FiberError st m) s"
  "errors_Is (Errorf m es) s \<longleftrightarrow> (\<exists>e \<in> set es. errors_Is e s)"
  "errors_Is (AppError k c m fs ca) s \<longleftrightarrow> (case ca of None \<Rightarrow> False | Some e \<Rightarrow> errors_Is e s)"
  by (auto simp: errors_Is_def split: option.splits)

lemma find_append: "List.find p (xs @ ys) = (case List.find p xs of None \<Rightarrow> List.find p ys | Some x \<Rightarrow> Some x)"
  by (induction xs) auto

lemma errors_As_simps [simp]:
  "errors_As p (Sentinel t) = (if p (Sentinel t) then Some (Sentinel t) else None)"
  "errors_As p (LibError m) = (if p (LibError m) then Some (LibError m) else None)"
  "errors_As p (MySQLError n) = (if p (MySQLError n) then Some (MySQLError n) else None)"
  "errors_As p (FiberError st m) = (if p (FiberError st m) then Some (FiberError st m) else None)"
  "errors_As is_AppError (AppError k c m fs ca) = Some (AppError k c m fs ca)"
  by (simp_all add: errors_As_def split: option.splits) (cases ca; simp)

lemma errors_As_Errorf1 [simp]:
  "errors_As p (Errorf m [e]) = (if p (Errorf m [e]) then Some (Errorf m [e]) else errors_As p e)"
  by (simp add: errors_As_def)

lemma errors_As_Some: "errors_As p e = Some x \<Longrightarrow> p x"
  by (auto simp: errors_As_def find_Some_iff)

lemma is_AppErrorE:
  assumes "is_AppError e"
  obtains k c m fs ca where "e = AppError k c m fs ca"
  using assms by (cases e) auto

section \<open>Results and effectful steps\<close>

datatype 'a result = Ok 'a | Err goerr | Panic string

text \<open>\<open>if err != nil { return err }\<close> on pure results.\<close>

fun result_bind :: "'a result \<Rightarrow> ('a \<Rightarrow> 'b result) \<Rightarrow> 'b result" where
  "result_bind (Ok x) k = k x"
| "result_bind (Err e) k = Err e"
| "result_bind (Panic p) k = Panic p"

fun result_map_err :: "(goerr \<Rightarrow> goerr) \<Rightarrow> 'a result \<Rightarrow> 'a result" where
  "result_map_err f (Ok x) = Ok x"
| "result_map_err f (Err e) = Err (f e)"
| "result_map_err f (Panic p) = Panic p"

fun is_Ok :: "'a result \<Rightarrow> bool" where
  "is_Ok (Ok x) = True"
| "is_Ok r = False"

lemma is_OkE: "is_Ok r \<Longrightarrow> (\<And>x. r = Ok x \<Longrightarrow> P) \<Longrightarrow> P"
  by (cases r) auto

lemma result_bind_Ok_iff [simp]:
  "result_bind r k = Ok y \<longleftrightarrow> (\<exists>x. r = Ok x \<and> k x = Ok y)"
  by (cases r) auto

lemma result_map_err_Ok_iff [simp]: "result_map_err f r = Ok y \<longleftrightarrow> r = Ok y"
  by (cases r) auto

lemma result_map_err_other_iff [simp]:
  "result_map_err f r = Panic p \<longleftrightarrow> r = Panic p" "Panic p = result_map_err f r \<longleftrightarrow> r = Panic p"
  "Ok x = result_map_err f r \<longleftrightarrow> r = Ok x"
  by (cases r; auto)+

type_synonym ('w, 'a) proc = "'w \<Rightarrow> 'a result \<times> 'w"

definition lift :: "'a result \<Rightarrow> ('w, 'a) proc" where
  "lift r w = (r, w)"

abbreviation ret :: "'a \<Rightarrow> ('w, 'a) proc" where
  "ret x \<equiv> lift (Ok x)"

abbreviation fail :: "goerr \<Rightarrow> ('w, 'a) proc" where
  "fail e \<equiv> lift (Err e)"

definition andThen :: "('w, 'a) proc \<Rightarrow> ('a \<Rightarrow> ('w, 'b) proc) \<Rightarrow> ('w, 'b) proc" where
  "andThen m k w = (case m w of
       (Ok x, w1) \<Rightarrow> k x w1
     | (Err e, w1) \<Rightarrow> (Err e, w1)
     | (Panic p, w1) \<Rightarrow> (Panic p, w1))"

text \<open>The error of a step is replaced, as in \<open>return fmt.Errorf("...: %w", err)\<close>.\<close>

definition onErr :: "(goerr \<Rightarrow> goerr) \<Rightarrow> ('w, 'a) proc \<Rightarrow> ('w, 'a) proc" where
  "onErr f m w = (case m w of (r, w1) \<Rightarrow> (result_map_err f r, w1))"

text \<open>The error of a step is inspected and the use case goes on.\<close>

definition handling :: "('w, 'a) proc \<Rightarrow> (goerr + 'a \<Rightarrow> ('w, 'b) proc) \<Rightarrow> ('w, 'b) proc" where
  "handling m k w = (case m w of
       (Ok x, w1) \<Rightarrow> k (Inr x) w1
     | (Err e, w1) \<Rightarrow> k (Inl e) w1
     | (Panic p, w1) \<Rightarrow> (Panic p, w1))"

lemma lift_apply [simp, proc_simps]: "lift r w = (r, w)"
  by (simp add: lift_def)

lemma andThen_cases [proc_simps]:
  "m w = (Ok x, w1) \<Longrightarrow> andThen m k w = k x w1"
  "m w = (Err e, w1) \<Longrightarrow> andThen m k w = (Err e, w1)"
  "m w = (Panic p, w1) \<Longrightarrow> andThen m k w = (Panic p, w1)"
  by (simp_all add: andThen_def)

lemma andThen_lift [simp, proc_simps]:
  "andThen (lift (Ok x)) k w = k x w"
  "andThen (lift (Err e)) k w = (Err e, w)"
  "andThen (lift (Panic p)) k w = (Panic p, w)"
  by (simp_all add: andThen_def)

lemma andThen_Ok_iff:
  "andThen m k w = (Ok y, w2) \<longleftrightarrow> (\<exists>x w1. m w = (Ok x, w1) \<and> k x w1 = (Ok y, w2))"
  by (auto simp: andThen_def split: prod.splits result.splits)

lemma onErr_Ok_iff [simp]: "onErr f m w = (Ok y, w2) \<longleftrightarrow> m w = (Ok y, w2)"
  by (auto simp: onErr_def split: prod.splits)

lemma onErr_cases [proc_simps]:
  "m w = (Ok x, w1) \<Longrightarrow> onErr f m w = (Ok x, w1)"
  "m w = (Err e, w1) \<Longrightarrow> onErr f m w = (Err (f e), w1)"
  "m w = (Panic p, w1) \<Longrightarrow> onErr f m w = (Panic p, w1)"
  by (simp_all add: onErr_def)

lemma handling_cases [proc_simps]:
  "m w = (Ok x, w1) \<Longrightarrow> handling m k w = k (Inr x) w1"
  "m w = (Err e, w1) \<Longrightarrow> handling m k w = k (Inl e) w1"
  "m w = (Panic p, w1) \<Longrightarrow> handling m k w = (Panic p, w1)"
  by (simp_all add: handling_def)

lemma handling_Ok_iff:
  "handling m k w = (Ok y, w2) \<longleftrightarrow>
     (\<exists>x w1. m w = (Ok x, w1) \<and> k (Inr x) w1 = (Ok y, w2)) \<or>
     (\<exists>e w1. m w = (Err e, w1) \<and> k (Inl e) w1 = (Ok y, w2))"
  by (auto simp: handling_def split: prod.splits result.splits)

lemma handling_fail [simp]: "handling m (\<lambda>_. fail e) w \<noteq> (Ok y, w1)"
  by (simp add: handling_Ok_iff)

lemma andThenE:
  assumes "andThen m k w = (r, w2)"
  obtains (ok) x w1 where "m w = (Ok x, w1)" "k x w1 = (r, w2)"
    | (err) e where "m w = (Err e, w2)" "r = Err e"
    | (panic) p where "m w = (Panic p, w2)" "r = Panic p"
  using assms by (auto simp: andThen_def split: prod.splits result.splits)

lemma onErrE:
  assumes "onErr f m w = (r, w1)"
  obtains s where "m w = (s, w1)" "r = result_map_err f s"
  using assms by (auto simp: onErr_def split: prod.splits)

lemma snd_onErr [simp]: "snd (onErr f m w) = snd (m w)"
  by (simp add: onErr_def split: prod.splits)

subsection \<open>What a step keeps\<close>

text \<open>A step keeps \<open>I\<close> when every run of it from a world in \<open>I\<close> ends in one, whatever it returns.\<close>

definition keeps :: "('w \<Rightarrow> bool) \<Rightarrow> ('w, 'a) proc \<Rightarrow> bool" where
  "keeps I m \<longleftrightarrow> (\<forall>w. I w \<longrightarrow> I (snd (m w)))"

named_theorems keeps_intros \<open>introduction rules of what a step keeps\<close>

lemma keepsI: "(\<And>w. I w \<Longrightarrow> I (snd (m w))) \<Longrightarrow> keeps I m"
  by (simp add: keeps_def)

lemma keepsD: "keeps I m \<Longrightarrow> I w \<Longrightarrow> I (snd (m w))"
  by (simp add: keeps_def)

text \<open>A step that keeps every value of an observation leaves it as it is.\<close>

lemma keeps_eq: "(\<And>x. keeps (\<lambda>w. f w = x) m) \<Longrightarrow> m w = (r, w1) \<Longrightarrow> f w1 = f w"
  unfolding keeps_def by (metis snd_conv)

lemma keeps_lift [simp, keeps_intros]: "keeps I (lift r)"
  by (simp add: keeps_def)

lemma keeps_andThen [keeps_intros]:
  "keeps I m \<Longrightarrow> (\<And>x. keeps I (k x)) \<Longrightarrow> keeps I (andThen m k)"
  by (fastforce simp: keeps_def andThen_def split: prod.splits result.splits)

lemma keeps_onErr [keeps_intros]: "keeps I m \<Longrightarrow> keeps I (onErr f m)"
  by (auto simp: keeps_def onErr_def split: prod.splits)

lemma keeps_handling [keeps_intros]:
  "keeps I m \<Longrightarrow> (\<And>x. keeps I (k x)) \<Longrightarrow> keeps I (handling m k)"
  by (fastforce simp: keeps_def handling_def split: prod.splits result.splits)

lemma keeps_If [keeps_intros]: "keeps I a \<Longrightarrow> keeps I b \<Longrightarrow> keeps I (if c then a else b)"
  by simp

lemma keeps_case_option [keeps_intros]:
  "keeps I a \<Longrightarrow> (\<And>x. keeps I (b x)) \<Longrightarrow> keeps I (case c of None \<Rightarrow> a | Some x \<Rightarrow> b x)"
  by (cases c) auto

lemma keeps_case_sum [keeps_intros]:
  "(\<And>x. keeps I (a x)) \<Longrightarrow> (\<And>x. keeps I (b x)) \<Longrightarrow> keeps I (case c of Inl x \<Rightarrow> a x | Inr x \<Rightarrow> b x)"
  by (cases c) auto

end
