(* ===== verification/GoText.thy ===== *)
theory GoText
  imports Prelude
begin

text \<open>
  What the program uses of Go's \<open>unicode/utf8\<close>, \<open>strings\<close> and \<open>strconv\<close>: decoding a byte
  string into runes (an invalid byte is one U+FFFD, as in \<open>[]rune(s)\<close> and \<open>range s\<close>),
  encoding a rune, \<open>TrimSpace\<close>, \<open>EqualFold\<close> against an ASCII word, \<open>Itoa\<close> and \<open>ParseInt\<close>
  in base ten. Lemmas: decoding inverts encoding, trimming is idempotent, \<open>ParseInt\<close> inverts
  \<open>Itoa\<close>.
\<close>

section \<open>UTF-8\<close>

definition rune_error :: nat where
  "rune_error = 0xFFFD"

definition valid_rune :: "nat \<Rightarrow> bool" where
  "valid_rune r \<longleftrightarrow> r < 0xD800 \<or> 0xE000 \<le> r \<and> r \<le> 0x10FFFF"

definition cont_byte :: "nat \<Rightarrow> bool" where
  "cont_byte b \<longleftrightarrow> 0x80 \<le> b \<and> b \<le> 0xBF"

text \<open>The range the second byte must lie in, by the first (no overlong forms, no surrogates).\<close>

definition second_byte :: "nat \<Rightarrow> nat \<Rightarrow> bool" where
  "second_byte b0 b1 \<longleftrightarrow>
     (if b0 = 0xE0 then 0xA0 \<le> b1 \<and> b1 \<le> 0xBF
      else if b0 = 0xED then 0x80 \<le> b1 \<and> b1 \<le> 0x9F
      else if b0 = 0xF0 then 0x90 \<le> b1 \<and> b1 \<le> 0xBF
      else if b0 = 0xF4 then 0x80 \<le> b1 \<and> b1 \<le> 0x8F
      else cont_byte b1)"

text \<open>\<open>utf8.DecodeRuneInString\<close>: the first rune and the number of bytes it takes.\<close>

fun decode_rune :: "string \<Rightarrow> nat \<times> nat" where
  "decode_rune [] = (rune_error, 0)"
| "decode_rune (c0 # cs) =
     (let b0 = byte c0 in
      if b0 < 0x80 then (b0, 1)
      else if 0xC2 \<le> b0 \<and> b0 \<le> 0xDF then
        (case cs of
           c1 # _ \<Rightarrow> (if cont_byte (byte c1)
                     then ((b0 - 0xC0) * 64 + (byte c1 - 0x80), 2)
                     else (rune_error, 1))
         | _ \<Rightarrow> (rune_error, 1))
      else if 0xE0 \<le> b0 \<and> b0 \<le> 0xEF then
        (case cs of
           c1 # c2 # _ \<Rightarrow>
             (if second_byte b0 (byte c1) \<and> cont_byte (byte c2)
              then ((b0 - 0xE0) * 4096 + (byte c1 - 0x80) * 64 + (byte c2 - 0x80), 3)
              else (rune_error, 1))
         | _ \<Rightarrow> (rune_error, 1))
      else if 0xF0 \<le> b0 \<and> b0 \<le> 0xF4 then
        (case cs of
           c1 # c2 # c3 # _ \<Rightarrow>
             (if second_byte b0 (byte c1) \<and> cont_byte (byte c2) \<and> cont_byte (byte c3)
              then ((b0 - 0xF0) * 262144 + (byte c1 - 0x80) * 4096 + (byte c2 - 0x80) * 64
                    + (byte c3 - 0x80), 4)
              else (rune_error, 1))
         | _ \<Rightarrow> (rune_error, 1))
      else (rune_error, 1))"

text \<open>\<open>utf8.EncodeRune\<close>: an invalid rune is encoded as U+FFFD.\<close>

definition encode_rune :: "nat \<Rightarrow> string" where
  "encode_rune r =
     (if r < 0x80 then [char_of r]
      else if r < 0x800 then [char_of (0xC0 + r div 64), char_of (0x80 + r mod 64)]
      else if \<not> valid_rune r then [char_of (0xEF::nat), char_of (0xBF::nat), char_of (0xBD::nat)]
      else if r < 0x10000 then
        [char_of (0xE0 + r div 4096), char_of (0x80 + r div 64 mod 64), char_of (0x80 + r mod 64)]
      else
        [char_of (0xF0 + r div 262144), char_of (0x80 + r div 4096 mod 64),
         char_of (0x80 + r div 64 mod 64), char_of (0x80 + r mod 64)])"

lemma decode_rune_size_pos: "s \<noteq> [] \<Longrightarrow> 0 < snd (decode_rune s)"
  by (cases s) (auto simp: Let_def split: list.splits)

text \<open>The runes of a string, each with the bytes it was decoded from.\<close>

function split_runes :: "string \<Rightarrow> (nat \<times> string) list" where
  "split_runes [] = []"
| "split_runes (c # cs) =
     (let rn = decode_rune (c # cs)
      in (fst rn, take (snd rn) (c # cs)) # split_runes (drop (snd rn) (c # cs)))"
  by pat_completeness auto
termination
proof (relation "measure length")
  fix c cs x
  assume "x = decode_rune (c # cs)"
  then show "(drop (snd x) (c # cs), c # cs) \<in> measure length"
    using decode_rune_size_pos [of "c # cs"] by simp
qed simp

definition to_runes :: "string \<Rightarrow> nat list" where
  "to_runes s = map fst (split_runes s)"

definition of_runes :: "nat list \<Rightarrow> string" where
  "of_runes rs = concat (map encode_rune rs)"

definition valid_utf8 :: "string \<Rightarrow> bool" where
  "valid_utf8 s \<longleftrightarrow> list_all (\<lambda>p. snd p = encode_rune (fst p)) (split_runes s)"

lemma concat_split_runes [simp]: "concat (map snd (split_runes s)) = s"
  by (induction s rule: split_runes.induct) (auto simp: Let_def)

lemma split_runes_eq_Nil [simp]: "split_runes s = [] \<longleftrightarrow> s = []"
  by (cases s) (auto simp: Let_def)

lemma split_runes_unfold:
  "s \<noteq> [] \<Longrightarrow> split_runes s =
     (fst (decode_rune s), take (snd (decode_rune s)) s) # split_runes (drop (snd (decode_rune s)) s)"
  by (cases s) (simp_all add: Let_def)

lemma encode_rune_nonempty [simp]: "encode_rune r \<noteq> []"
  by (simp add: encode_rune_def)

lemma encode_rune_invalid: "\<not> valid_rune r \<Longrightarrow> encode_rune r = encode_rune rune_error"
  by (simp add: encode_rune_def valid_rune_def rune_error_def)

lemma valid_rune_error [simp]: "valid_rune rune_error"
  by (simp add: valid_rune_def rune_error_def)

lemma div_4096: "r div 4096 = r div 64 div (64::nat)"
  by (simp flip: div_mult2_eq)

lemma div_262144: "r div 262144 = r div 64 div 64 div (64::nat)"
  by (simp flip: div_mult2_eq)

lemma div_mod_64_3: "(r div 4096) * 4096 + (r div 64 mod 64) * 64 + r mod 64 = (r::nat)"
  using div_mult_mod_eq [of "r div 64" 64] div_mult_mod_eq [of r 64]
  unfolding div_4096 by linarith

lemma div_mod_64_4:
  "(r div 262144) * 262144 + (r div 4096 mod 64) * 4096 + (r div 64 mod 64) * 64 + r mod 64 = (r::nat)"
  using div_mult_mod_eq [of "r div 64 div 64" 64] div_mult_mod_eq [of "r div 64" 64]
    div_mult_mod_eq [of r 64]
  unfolding div_262144 div_4096 by linarith

lemma mod_64_le: "n mod 64 \<le> (63::nat)"
  using mod_less_divisor [of 64 n] by linarith

lemma decode_encode_rune:
  assumes "valid_rune r"
  shows "decode_rune (encode_rune r @ s) = (r, length (encode_rune r))"
proof -
  consider "r < 0x80" | "0x80 \<le> r" "r < 0x800"
    | "0x800 \<le> r" "r < 0x10000" | "0x10000 \<le> r" "r \<le> 0x10FFFF"
    using assms unfolding valid_rune_def by linarith
  then show ?thesis
  proof cases
    case 1
    then show ?thesis by (simp add: encode_rune_def)
  next
    case 2
    then have "r div 64 < 32" "2 \<le> r div 64" by auto
    with 2 show ?thesis by (simp add: encode_rune_def cont_byte_def Let_def)
  next
    case 3
    have "r div 4096 < 16" using 3 by auto
    moreover have "second_byte (0xE0 + r div 4096) (0x80 + r div 64 mod 64)"
    proof -
      have "32 \<le> r div 64 mod 64" if "r div 4096 = 0"
        using 3 that div_mod_64_3 [of r] mod_less_divisor [of 64 r] by linarith
      moreover have "r div 64 mod 64 < 32" if "r div 4096 = 13"
        using 3 that assms div_mod_64_3 [of r] mod_less_divisor [of 64 "r div 64"]
        unfolding valid_rune_def by linarith
      moreover have "r div 64 mod 64 < 64" by simp
      ultimately show ?thesis using \<open>r div 4096 < 16\<close> by (auto simp: second_byte_def cont_byte_def)
    qed
    ultimately show ?thesis
      using 3 assms div_mod_64_3 [of r]
      by (simp add: encode_rune_def cont_byte_def Let_def)
  next
    case 4
    have "r div 262144 \<le> 4" using 4 by auto
    moreover have "second_byte (0xF0 + r div 262144) (0x80 + r div 4096 mod 64)"
    proof -
      have "16 \<le> r div 4096 mod 64" if "r div 262144 = 0"
        using 4 that div_mod_64_4 [of r] mod_less_divisor [of 64 "r div 64"]
          mod_less_divisor [of 64 r] by linarith
      moreover have "r div 4096 mod 64 < 16" if "r div 262144 = 4"
        using 4 that div_mod_64_4 [of r] by linarith
      moreover have "r div 4096 mod 64 < 64" by simp
      ultimately show ?thesis using \<open>r div 262144 \<le> 4\<close> by (auto simp: second_byte_def cont_byte_def)
    qed
    ultimately show ?thesis
      using 4 assms div_mod_64_4 [of r]
      by (simp add: mod_64_le encode_rune_def cont_byte_def Let_def)
  qed
qed

lemma split_runes_encode:
  "split_runes (encode_rune r @ s) =
     (if valid_rune r then r else rune_error, encode_rune r) # split_runes s"
proof -
  have *: "split_runes (encode_rune r @ s) = (r, encode_rune r) # split_runes s"
    if "valid_rune r" for r
    using that by (subst split_runes_unfold) (simp_all add: decode_encode_rune)
  show ?thesis
  proof (cases "valid_rune r")
    case True
    then show ?thesis by (simp add: *)
  next
    case False
    then show ?thesis using * [of rune_error] encode_rune_invalid [of r] by simp
  qed
qed

lemma split_runes_of_runes:
  "split_runes (of_runes rs) = map (\<lambda>r. (if valid_rune r then r else rune_error, encode_rune r)) rs"
  by (induction rs) (simp_all add: of_runes_def split_runes_encode)

lemma to_runes_of_runes: "list_all valid_rune rs \<Longrightarrow> to_runes (of_runes rs) = rs"
  unfolding to_runes_def split_runes_of_runes by (induction rs) auto

lemma valid_utf8_of_runes [simp, intro]: "valid_utf8 (of_runes rs)"
  by (auto simp: valid_utf8_def split_runes_of_runes list_all_iff encode_rune_invalid)

lemma of_runes_to_runes: "valid_utf8 s \<Longrightarrow> of_runes (to_runes s) = s"
proof -
  assume "valid_utf8 s"
  then have "map (encode_rune \<circ> fst) (split_runes s) = map snd (split_runes s)"
    by (auto simp: valid_utf8_def list_all_iff)
  then have "concat (map (encode_rune \<circ> fst) (split_runes s)) = s"
    by (simp only: concat_split_runes)
  then show ?thesis by (simp add: of_runes_def to_runes_def)
qed

lemma to_runes_eq_Nil [simp]: "to_runes s = [] \<longleftrightarrow> s = []"
  by (simp add: to_runes_def)

lemma to_runes_Nil [simp]: "to_runes [] = []"
  by simp

section \<open>Trimming\<close>

text \<open>
  \<open>strings.TrimSpace\<close> removes the code points of Unicode's White_Space property at both ends.
  UTF-8 is self-synchronising, so the first (last) rune is such a space exactly when the string
  starts (ends) with its encoding.
\<close>

definition space_runes :: "nat list" where
  "space_runes = [0x20, 0x09, 0x0A, 0x0B, 0x0C, 0x0D, 0x85, 0xA0, 0x1680, 0x2000, 0x2001, 0x2002,
     0x2003, 0x2004, 0x2005, 0x2006, 0x2007, 0x2008, 0x2009, 0x200A, 0x2028, 0x2029, 0x202F,
     0x205F, 0x3000]"

definition starts_with :: "string \<Rightarrow> string \<Rightarrow> bool" where
  "starts_with p s \<longleftrightarrow> take (length p) s = p"

function trim_with :: "string list \<Rightarrow> string \<Rightarrow> string" where
  "trim_with ps s =
     (case List.find (\<lambda>p. p \<noteq> [] \<and> starts_with p s) ps of
        None \<Rightarrow> s
      | Some p \<Rightarrow> trim_with ps (drop (length p) s))"
  by pat_completeness auto
termination
proof (relation "measure (\<lambda>(ps, s). length s)")
  fix ps s p
  assume "List.find (\<lambda>p. p \<noteq> [] \<and> starts_with p s) ps = Some p"
  then have "p \<noteq> []" "take (length p) s = p" by (auto simp: find_Some_iff starts_with_def)
  then have "0 < length p" "s \<noteq> []" by auto
  then show "((ps, drop (length p) s), (ps, s)) \<in> measure (\<lambda>(ps, s). length s)" by simp
qed simp

declare trim_with.simps [simp del]

definition trim_left :: "string \<Rightarrow> string" where
  "trim_left s = trim_with (map encode_rune space_runes) s"

definition trim_right :: "string \<Rightarrow> string" where
  "trim_right s = rev (trim_with (map (rev \<circ> encode_rune) space_runes) (rev s))"

definition TrimSpace :: "string \<Rightarrow> string" where
  "TrimSpace s = trim_right (trim_left s)"

lemma trim_with_stop:
  "p \<in> set ps \<Longrightarrow> p \<noteq> [] \<Longrightarrow> \<not> starts_with p (trim_with ps s)"
proof (induction ps s rule: trim_with.induct)
  case (1 ps s)
  show ?case
  proof (cases "List.find (\<lambda>p. p \<noteq> [] \<and> starts_with p s) ps")
    case None
    then have "trim_with ps s = s" by (subst trim_with.simps) simp
    with None "1.prems" show ?thesis by (auto simp: find_None_iff)
  next
    case (Some q)
    then show ?thesis using "1.IH" [OF Some] "1.prems" by (subst trim_with.simps) simp
  qed
qed

lemma trim_with_suffix: "\<exists>u. s = u @ trim_with ps s"
proof (induction ps s rule: trim_with.induct)
  case (1 ps s)
  show ?case
  proof (cases "List.find (\<lambda>p. p \<noteq> [] \<and> starts_with p s) ps")
    case None
    then show ?thesis by (subst trim_with.simps) simp
  next
    case (Some q)
    with "1.IH" [OF Some] obtain u where "drop (length q) s = u @ trim_with ps (drop (length q) s)"
      by blast
    with Some show ?thesis
      by (subst trim_with.simps) (metis append.assoc append_take_drop_id option.simps(5))
  qed
qed

lemma trim_with_id:
  assumes "\<forall>p \<in> set ps. p = [] \<or> \<not> starts_with p s"
  shows "trim_with ps s = s"
proof -
  from assms have "List.find (\<lambda>p. p \<noteq> [] \<and> starts_with p s) ps = None"
    by (auto simp: find_None_iff)
  then show ?thesis by (subst trim_with.simps) simp
qed

lemma length_trim_with: "length (trim_with ps s) \<le> length s"
  using trim_with_suffix [of s ps] by (metis le_add2 length_append)

lemma length_TrimSpace: "length (TrimSpace s) \<le> length s"
  unfolding TrimSpace_def trim_right_def trim_left_def
  by (metis length_rev length_trim_with order_trans)

lemma starts_with_append: "starts_with p s \<Longrightarrow> starts_with p (s @ t)"
  by (metis append_take_drop_id append_eq_conv_conj append.assoc starts_with_def)

text \<open>A string that starts and ends with graphic ASCII characters is trimmed already.\<close>

definition graphic :: "char \<Rightarrow> bool" where
  "graphic c \<longleftrightarrow> 0x21 \<le> byte c \<and> byte c \<le> 0x7E"

lemma space_edges:
  "list_all (\<lambda>r. \<not> graphic (hd (encode_rune r)) \<and> \<not> graphic (last (encode_rune r)) \<and> encode_rune r \<noteq> []) space_runes"
  by (simp add: space_runes_def encode_rune_def valid_rune_def graphic_def)

lemma starts_with_hd: "starts_with p s \<Longrightarrow> p \<noteq> [] \<Longrightarrow> hd p = hd s"
  by (cases p; cases s) (auto simp: starts_with_def)

lemma TrimSpace_graphic:
  assumes "s \<noteq> []" "graphic (hd s)" "graphic (last s)"
  shows "TrimSpace s = s"
proof -
  have e: "\<not> graphic (hd (encode_rune r)) \<and> \<not> graphic (last (encode_rune r)) \<and> encode_rune r \<noteq> []"
    if "r \<in> set space_runes" for r
    using space_edges that by (simp add: list_all_iff)
  have "trim_left s = s" unfolding trim_left_def
    by (rule trim_with_id) (use e assms(2) starts_with_hd in fastforce)
  moreover have "trim_right s = s" unfolding trim_right_def
    by (subst trim_with_id) (use e assms(3) starts_with_hd in \<open>fastforce simp: hd_rev\<close>, simp)
  ultimately show ?thesis by (simp add: TrimSpace_def)
qed
lemma TrimSpace_idem [simp]: "TrimSpace (TrimSpace s) = TrimSpace s"
proof -
  let ?l = "map encode_rune space_runes" and ?r = "map (rev \<circ> encode_rune) space_runes"
  obtain u where u: "rev (trim_left s) = u @ trim_with ?r (rev (trim_left s))"
    using trim_with_suffix by blast
  then have pre: "trim_left s = TrimSpace s @ rev u"
    by (metis TrimSpace_def rev_append rev_rev_ident trim_right_def)
  have "\<not> starts_with p (trim_left s)" if "p \<in> set ?l" for p
    using that trim_with_stop [of p ?l s] by (auto simp: trim_left_def)
  then have "\<forall>p \<in> set ?l. p = [] \<or> \<not> starts_with p (TrimSpace s)"
    using pre starts_with_append by metis
  then have left: "trim_left (TrimSpace s) = TrimSpace s"
    by (simp add: trim_left_def trim_with_id)
  have "\<forall>p \<in> set ?r. p = [] \<or> \<not> starts_with p (rev (TrimSpace s))"
    using trim_with_stop [of _ ?r "rev (trim_left s)"] by (auto simp: TrimSpace_def trim_right_def)
  then have "trim_right (TrimSpace s) = TrimSpace s"
    by (simp add: trim_right_def trim_with_id)
  with left show ?thesis by (simp add: TrimSpace_def [of "TrimSpace s"])
qed

section \<open>ASCII case\<close>

definition lower_byte :: "char \<Rightarrow> char" where
  "lower_byte c = (if 0x41 \<le> byte c \<and> byte c \<le> 0x5A then char_of (byte c + 0x20) else c)"

text \<open>\<open>strings.EqualFold\<close> against an ASCII word without the letters k and s (the two letters
  with a fold outside ASCII).\<close>

definition EqualFold_ascii :: "string \<Rightarrow> string \<Rightarrow> bool" where
  "EqualFold_ascii s t \<longleftrightarrow> map lower_byte s = map lower_byte t"

section \<open>Decimal numbers\<close>

definition is_digit :: "char \<Rightarrow> bool" where
  "is_digit c \<longleftrightarrow> 0x30 \<le> byte c \<and> byte c \<le> 0x39"

definition digit_char :: "nat \<Rightarrow> char" where
  "digit_char d = char_of (0x30 + d)"

fun nat_digits :: "nat \<Rightarrow> string" where
  "nat_digits n = (if n < 10 then [digit_char n] else nat_digits (n div 10) @ [digit_char (n mod 10)])"

declare nat_digits.simps [simp del]

definition Itoa :: "int \<Rightarrow> string" where
  "Itoa i = (if i < 0 then CHR ''-'' # nat_digits (nat (- i)) else nat_digits (nat i))"

definition digits_value :: "string \<Rightarrow> nat" where
  "digits_value s = foldl (\<lambda>a c. a * 10 + (byte c - 0x30)) 0 s"

text \<open>\<open>strconv.ParseInt(s, 10, 64)\<close>; \<open>Atoi\<close> is the same on a 64 bit platform.\<close>

definition ParseInt :: "string \<Rightarrow> int option" where
  "ParseInt s =
     (let neg = (s \<noteq> [] \<and> hd s = CHR ''-'');
          ds = (if s \<noteq> [] \<and> (hd s = CHR ''-'' \<or> hd s = CHR ''+'') then tl s else s);
          v = (if neg then - int (digits_value ds) else int (digits_value ds))
      in if ds \<noteq> [] \<and> list_all is_digit ds \<and> - (2 ^ 63) \<le> v \<and> v < 2 ^ 63 then Some v else None)"

lemma byte_digit_char [simp]: "d < 10 \<Longrightarrow> byte (digit_char d) = 0x30 + d"
  by (simp add: digit_char_def)

lemma is_digit_digit_char [simp]: "d < 10 \<Longrightarrow> is_digit (digit_char d)"
  by (simp add: is_digit_def)

lemma nat_digits_nonempty [simp]: "nat_digits n \<noteq> []"
  by (subst nat_digits.simps) simp

lemma nat_digits_digits [simp]: "list_all is_digit (nat_digits n)"
proof (induction n rule: nat_digits.induct)
  case (1 n)
  then show ?case by (subst nat_digits.simps) simp
qed

lemma digits_value_snoc: "digits_value (s @ [c]) = digits_value s * 10 + (byte c - 0x30)"
  by (simp add: digits_value_def)

lemma digits_value_nat_digits [simp]: "digits_value (nat_digits n) = n"
proof (induction n rule: nat_digits.induct)
  case (1 n)
  show ?case
  proof (cases "n < 10")
    case True
    then show ?thesis by (subst nat_digits.simps) (simp add: digits_value_def)
  next
    case False
    with 1 show ?thesis by (subst nat_digits.simps) (simp add: digits_value_snoc)
  qed
qed

lemma hd_nat_digits: "is_digit (hd (nat_digits n))"
  using nat_digits_digits [of n] nat_digits_nonempty [of n] by (cases "nat_digits n") simp_all

lemma digit_not_sign: "is_digit c \<Longrightarrow> c \<noteq> CHR ''-'' \<and> c \<noteq> CHR ''+''"
  by (auto simp: is_digit_def)

lemma ParseInt_Itoa:
  assumes "- (2 ^ 63) \<le> i" and "i < 2 ^ 63"
  shows "ParseInt (Itoa i) = Some i"
  using assms digit_not_sign [OF hd_nat_digits, of "nat i"]
  by (cases "i < 0") (auto simp: ParseInt_def Itoa_def Let_def)

end
