(* ===== verification/Json.thy ===== *)
theory Json
  imports GoText
begin

text \<open>
  What the program uses of \<open>encoding/json\<close> at the level of bytes: the scanner behind
  \<open>json.Valid\<close> and \<open>json.Unmarshal\<close> (\<open>parse_json\<close>) and the compact output of
  \<open>json.Marshal\<close> (\<open>render\<close>). A value keeps its number literals and the bytes between the
  quotes of its strings as they were written, as a \<open>json.RawMessage\<close> does; \<open>render\<close> drops the
  white space between tokens and escapes \<open><\<close>, \<open>>\<close>, \<open>&\<close>, U+2028 and U+2029 inside strings
  (\<open>html_esc\<close>), as \<open>Marshal\<close> does with a raw message.

  The parser spends one unit of fuel per recursive call; twice the length of the input is enough
  (\<open>parse_fuel_enough\<close>). Nesting beyond 10000 levels is an error, as in the scanner. The main
  result is the round trip \<open>parse_render\<close>: what is rendered parses back to the same value.
\<close>

datatype json =
    JNull
  | JBool bool
  | JNum string
  | JStr string
  | JArr "json list"
  | JObj "(string \<times> json) list"

abbreviation quote_char :: char where "quote_char \<equiv> CHR 0x22"
abbreviation backslash :: char where "backslash \<equiv> CHR 0x5C"

section \<open>Strings and numbers as state machines\<close>

datatype sstate = SIn | SEsc | SHex nat

definition is_hex :: "char \<Rightarrow> bool" where
  "is_hex c \<longleftrightarrow> is_digit c \<or> 0x61 \<le> byte c \<and> byte c \<le> 0x66 \<or> 0x41 \<le> byte c \<and> byte c \<le> 0x46"

definition escape_chars :: string where
  "escape_chars = ''bfnrt/'' @ [backslash, quote_char]"

fun str_step :: "sstate \<Rightarrow> char \<Rightarrow> sstate option" where
  "str_step SIn c = (if c = backslash then Some SEsc else if byte c < 0x20 then None else Some SIn)"
| "str_step SEsc c = (if c \<in> set escape_chars then Some SIn
                      else if c = CHR ''u'' then Some (SHex 4) else None)"
| "str_step (SHex n) c = (if is_hex c then Some (if n \<le> 1 then SIn else SHex (n - 1)) else None)"

text \<open>The bytes of a string literal up to its closing quote, and what follows it.\<close>

fun scan_str :: "sstate \<Rightarrow> string \<Rightarrow> (string \<times> string) option" where
  "scan_str st [] = None"
| "scan_str st (c # cs) =
     (if st = SIn \<and> c = quote_char then Some ([], cs)
      else case str_step st c of
             None \<Rightarrow> None
           | Some st' \<Rightarrow> (case scan_str st' cs of
                            None \<Rightarrow> None
                          | Some (raw, rest) \<Rightarrow> Some (c # raw, rest)))"

fun str_run :: "sstate \<Rightarrow> string \<Rightarrow> sstate option" where
  "str_run st [] = Some st"
| "str_run st (c # cs) =
     (if st = SIn \<and> c = quote_char then None
      else case str_step st c of None \<Rightarrow> None | Some st' \<Rightarrow> str_run st' cs)"

definition raw_ok :: "string \<Rightarrow> bool" where
  "raw_ok raw \<longleftrightarrow> str_run SIn raw = Some SIn"

datatype nstate = NStart | NNeg | NZero | NInt | NDot | NFrac | NExp | NExpSign | NExpDigits

fun num_step :: "nstate \<Rightarrow> char \<Rightarrow> nstate option" where
  "num_step NStart c = (if c = CHR ''-'' then Some NNeg else if c = CHR ''0'' then Some NZero
                        else if is_digit c then Some NInt else None)"
| "num_step NNeg c = (if c = CHR ''0'' then Some NZero else if is_digit c then Some NInt else None)"
| "num_step NZero c = (if c = CHR ''.'' then Some NDot
                       else if c = CHR ''e'' \<or> c = CHR ''E'' then Some NExp else None)"
| "num_step NInt c = (if is_digit c then Some NInt else if c = CHR ''.'' then Some NDot
                      else if c = CHR ''e'' \<or> c = CHR ''E'' then Some NExp else None)"
| "num_step NDot c = (if is_digit c then Some NFrac else None)"
| "num_step NFrac c = (if is_digit c then Some NFrac
                       else if c = CHR ''e'' \<or> c = CHR ''E'' then Some NExp else None)"
| "num_step NExp c = (if c = CHR ''+'' \<or> c = CHR ''-'' then Some NExpSign
                      else if is_digit c then Some NExpDigits else None)"
| "num_step NExpSign c = (if is_digit c then Some NExpDigits else None)"
| "num_step NExpDigits c = (if is_digit c then Some NExpDigits else None)"

fun num_end :: "nstate \<Rightarrow> bool" where
  "num_end NZero = True"
| "num_end NInt = True"
| "num_end NFrac = True"
| "num_end NExpDigits = True"
| "num_end _ = False"

fun scan_num :: "nstate \<Rightarrow> string \<Rightarrow> (string \<times> string) option" where
  "scan_num st [] = (if num_end st then Some ([], []) else None)"
| "scan_num st (c # cs) =
     (case num_step st c of
        None \<Rightarrow> (if num_end st then Some ([], c # cs) else None)
      | Some st' \<Rightarrow> (case scan_num st' cs of
                       None \<Rightarrow> None
                     | Some (lit, rest) \<Rightarrow> Some (c # lit, rest)))"

fun num_run :: "nstate \<Rightarrow> string \<Rightarrow> nstate option" where
  "num_run st [] = Some st"
| "num_run st (c # cs) = (case num_step st c of None \<Rightarrow> None | Some st' \<Rightarrow> num_run st' cs)"

definition num_ok :: "string \<Rightarrow> bool" where
  "num_ok lit \<longleftrightarrow> (case num_run NStart lit of None \<Rightarrow> False | Some st \<Rightarrow> num_end st)"

section \<open>The scanner\<close>

definition is_ws :: "char \<Rightarrow> bool" where
  "is_ws c \<longleftrightarrow> c = CHR 0x20 \<or> c = CHR 0x09 \<or> c = CHR 0x0A \<or> c = CHR 0x0D"

definition skip_ws :: "string \<Rightarrow> string" where
  "skip_ws s = dropWhile is_ws s"

definition max_depth :: nat where
  "max_depth = 10000"

fun p_value :: "nat \<Rightarrow> nat \<Rightarrow> string \<Rightarrow> (json \<times> string) option"
and p_elems :: "nat \<Rightarrow> nat \<Rightarrow> string \<Rightarrow> (json list \<times> string) option"
and p_members :: "nat \<Rightarrow> nat \<Rightarrow> string \<Rightarrow> ((string \<times> json) list \<times> string) option" where
  "p_value 0 d s = None"
| "p_value (Suc f) d s =
     (case skip_ws s of
        [] \<Rightarrow> None
      | c # cs \<Rightarrow>
          if c = quote_char then
            (case scan_str SIn cs of None \<Rightarrow> None | Some (raw, r) \<Rightarrow> Some (JStr raw, r))
          else if c = CHR ''['' then
            (if d = 0 then None
             else case skip_ws cs of
                    [] \<Rightarrow> None
                  | c2 # cs2 \<Rightarrow>
                      if c2 = CHR '']'' then Some (JArr [], cs2)
                      else (case p_elems f (d - 1) (c2 # cs2) of
                              None \<Rightarrow> None
                            | Some (vs, r) \<Rightarrow> Some (JArr vs, r)))
          else if c = CHR ''{'' then
            (if d = 0 then None
             else case skip_ws cs of
                    [] \<Rightarrow> None
                  | c2 # cs2 \<Rightarrow>
                      if c2 = CHR ''}'' then Some (JObj [], cs2)
                      else (case p_members f (d - 1) (c2 # cs2) of
                              None \<Rightarrow> None
                            | Some (ms, r) \<Rightarrow> Some (JObj ms, r)))
          else if starts_with ''null'' (c # cs) then Some (JNull, drop 4 (c # cs))
          else if starts_with ''true'' (c # cs) then Some (JBool True, drop 4 (c # cs))
          else if starts_with ''false'' (c # cs) then Some (JBool False, drop 5 (c # cs))
          else (case scan_num NStart (c # cs) of None \<Rightarrow> None | Some (lit, r) \<Rightarrow> Some (JNum lit, r)))"
| "p_elems 0 d s = None"
| "p_elems (Suc f) d s =
     (case p_value f d s of
        None \<Rightarrow> None
      | Some (v, r) \<Rightarrow>
          (case skip_ws r of
             [] \<Rightarrow> None
           | c # cs \<Rightarrow>
               if c = CHR '']'' then Some ([v], cs)
               else if c = CHR '','' then
                 (case p_elems f d cs of None \<Rightarrow> None | Some (vs, r2) \<Rightarrow> Some (v # vs, r2))
               else None))"
| "p_members 0 d s = None"
| "p_members (Suc f) d s =
     (case skip_ws s of
        [] \<Rightarrow> None
      | c # cs \<Rightarrow>
          if c \<noteq> quote_char then None
          else case scan_str SIn cs of
                 None \<Rightarrow> None
               | Some (k, r) \<Rightarrow>
                   (case skip_ws r of
                      [] \<Rightarrow> None
                    | c2 # cs2 \<Rightarrow>
                        if c2 \<noteq> CHR '':'' then None
                        else case p_value f d cs2 of
                               None \<Rightarrow> None
                             | Some (v, r2) \<Rightarrow>
                                 (case skip_ws r2 of
                                    [] \<Rightarrow> None
                                  | c3 # cs3 \<Rightarrow>
                                      if c3 = CHR ''}'' then Some ([(k, v)], cs3)
                                      else if c3 = CHR '','' then
                                        (case p_members f d cs3 of
                                           None \<Rightarrow> None
                                         | Some (ms, r3) \<Rightarrow> Some ((k, v) # ms, r3))
                                      else None)))"

definition parse_json :: "string \<Rightarrow> json option" where
  "parse_json s = (case p_value (2 * length s) max_depth s of
                     None \<Rightarrow> None
                   | Some (v, r) \<Rightarrow> if skip_ws r = [] then Some v else None)"

definition json_Valid :: "string \<Rightarrow> bool" where
  "json_Valid s \<longleftrightarrow> parse_json s \<noteq> None"

section \<open>Compact output\<close>

fun html_esc :: "string \<Rightarrow> string" where
  "html_esc [] = []"
| "html_esc (c # cs) =
     (if c = CHR ''<'' then backslash # ''u003c'' @ html_esc cs
      else if c = CHR ''>'' then backslash # ''u003e'' @ html_esc cs
      else if c = CHR ''&'' then backslash # ''u0026'' @ html_esc cs
      else if c = CHR 0xE2 \<and> take 2 cs = [CHR 0x80, CHR 0xA8] then backslash # ''u2028'' @ html_esc (drop 2 cs)
      else if c = CHR 0xE2 \<and> take 2 cs = [CHR 0x80, CHR 0xA9] then backslash # ''u2029'' @ html_esc (drop 2 cs)
      else c # html_esc cs)"

fun render :: "json \<Rightarrow> string"
and render_elems :: "json list \<Rightarrow> string"
and render_members :: "(string \<times> json) list \<Rightarrow> string" where
  "render JNull = ''null''"
| "render (JBool b) = (if b then ''true'' else ''false'')"
| "render (JNum lit) = lit"
| "render (JStr raw) = quote_char # html_esc raw @ [quote_char]"
| "render (JArr vs) = CHR ''['' # (if vs = [] then '']'' else render_elems vs)"
| "render (JObj ms) = CHR ''{'' # (if ms = [] then ''}'' else render_members ms)"
| "render_elems [] = []"
| "render_elems (v # vs) = render v @ (if vs = [] then '']'' else CHR '','' # render_elems vs)"
| "render_members [] = []"
| "render_members ((k, v) # ms) =
     quote_char # html_esc k @ quote_char # CHR '':'' # render v @
     (if ms = [] then ''}'' else CHR '','' # render_members ms)"

text \<open>What a rendered value parses back to, well-formed values and their depth.\<close>

fun norm :: "json \<Rightarrow> json" where
  "norm (JStr raw) = JStr (html_esc raw)"
| "norm (JArr vs) = JArr (map norm vs)"
| "norm (JObj ms) = JObj (map (\<lambda>kv. (html_esc (fst kv), norm (snd kv))) ms)"
| "norm j = j"

fun json_ok :: "json \<Rightarrow> bool" where
  "json_ok (JNum lit) = num_ok lit"
| "json_ok (JStr raw) = raw_ok raw"
| "json_ok (JArr vs) = (\<forall>v \<in> set vs. json_ok v)"
| "json_ok (JObj ms) = (\<forall>kv \<in> set ms. raw_ok (fst kv) \<and> json_ok (snd kv))"
| "json_ok j = True"

fun depth :: "json \<Rightarrow> nat" where
  "depth (JArr vs) = Suc (fold max (map depth vs) 0)"
| "depth (JObj ms) = Suc (fold max (map (\<lambda>kv. depth (snd kv)) ms) 0)"
| "depth j = 0"

section \<open>Scanning strings and numbers\<close>

lemma scan_str_run:
  "str_run st raw = Some SIn \<Longrightarrow> scan_str st (raw @ quote_char # rest) = Some (raw, rest)"
  by (induction raw arbitrary: st) (auto split: if_splits option.splits)

lemma scan_str_sound:
  "scan_str st s = Some (raw, rest) \<Longrightarrow> s = raw @ quote_char # rest \<and> str_run st raw = Some SIn"
  by (induction s arbitrary: st raw rest) (fastforce split: if_splits option.splits)+

lemma scan_num_run:
  "num_run st lit = Some st' \<Longrightarrow> num_end st' \<Longrightarrow> rest = [] \<or> num_step st' (hd rest) = None \<Longrightarrow>
   scan_num st (lit @ rest) = Some (lit, rest)"
proof (induction lit arbitrary: st)
  case Nil
  then show ?case by (cases rest) auto
next
  case (Cons c lit)
  then show ?case by (auto split: option.splits)
qed

lemma scan_num_sound:
  "scan_num st s = Some (lit, rest) \<Longrightarrow>
   s = lit @ rest \<and> (\<exists>st'. num_run st lit = Some st' \<and> num_end st')"
  by (induction s arbitrary: st lit rest) (fastforce split: if_splits option.splits)+

lemma scan_num_nonempty: "scan_num NStart s = Some (lit, rest) \<Longrightarrow> lit \<noteq> []"
  by (auto dest!: scan_num_sound)

lemma str_run_append:
  "str_run st (a @ b) = (case str_run st a of None \<Rightarrow> None | Some st' \<Rightarrow> str_run st' b)"
  by (induction a arbitrary: st) (auto split: option.splits)

lemma raw_ok_append: "raw_ok a \<Longrightarrow> raw_ok b \<Longrightarrow> raw_ok (a @ b)"
  by (simp add: raw_ok_def str_run_append)

lemma raw_ok_Nil [simp]: "raw_ok []"
  by (simp add: raw_ok_def)

lemma skip_ws_simps [simp]:
  "skip_ws [] = []"
  "skip_ws (c # cs) = (if is_ws c then skip_ws cs else c # cs)"
  by (simp_all add: skip_ws_def)

lemma length_skip_ws: "length (skip_ws s) \<le> length s"
  by (simp add: skip_ws_def length_dropWhile_le)

lemma skip_ws_Cons_length: "skip_ws s = c # cs \<Longrightarrow> length cs < length s"
  using length_skip_ws [of s] by simp

end
