(* ===== verification/JsonRoundtrip.thy ===== *)
theory JsonRoundtrip
  imports Json
begin

text \<open>
  The scanner of \<^verbatim>\<open>encoding/json\<close> against its printer: the fuel of the parser is enough for every
  input (\<open>parse_fuel_enough\<close>), escaping for HTML keeps string literals well formed, and a
  rendered value parses back to itself with its strings escaped (\<open>parse_render\<close>).
\<close>

section \<open>The fuel is enough\<close>

lemma starts_with_length: "starts_with p s \<Longrightarrow> length p \<le> length s"
  by (metis length_take min.cobounded1 starts_with_def)

lemma Suc_le_ex: "Suc n \<le> m \<Longrightarrow> \<exists>k. m = Suc k \<and> n \<le> k"
  by (metis Suc_le_D Suc_le_mono)

lemma p_fuel:
  shows "p_value f d s = Some (v, r) \<Longrightarrow>
      length r < length s \<and> (\<forall>f'. 2 * (length s - length r) \<le> f' \<longrightarrow> p_value f' d s = Some (v, r))"
    and "p_elems f d s = Some (vs, r2) \<Longrightarrow>
      length r2 < length s \<and> (\<forall>f'. 2 * (length s - length r2) \<le> f' \<longrightarrow> p_elems f' d s = Some (vs, r2))"
    and "p_members f d s = Some (ms, r3) \<Longrightarrow>
      length r3 < length s \<and> (\<forall>f'. 2 * (length s - length r3) \<le> f' \<longrightarrow> p_members f' d s = Some (ms, r3))"
proof (induction f d s and f d s and f d s arbitrary: v r and vs r2 and ms r3
    rule: p_value_p_elems_p_members.induct)
  case (2 f d s)
  obtain c cs where s: "skip_ws s = c # cs"
    using "2.prems" by (cases "skip_ws s") auto
  note len = skip_ws_Cons_length [OF s]
  have fuel: "\<exists>k. f' = Suc k \<and> 2 * (length s - length r) \<le> Suc k"
    if "2 * (length s - length r) \<le> f'" "length r < length s" for f'
    using that by (cases f') auto
  consider (str) "c = quote_char" | (arr) "c = CHR ''[''" | (obj) "c = CHR ''{''"
    | (lit) "c \<noteq> quote_char" "c \<noteq> CHR ''[''" "c \<noteq> CHR ''{''"
    by blast
  then show ?case
  proof cases
    case str
    with "2.prems" s obtain raw where raw: "scan_str SIn cs = Some (raw, r)" "v = JStr raw"
      by (auto split: option.splits)
    then have "length r < length s" using len scan_str_sound [OF raw(1)] by simp
    moreover from raw s str have "p_value (Suc k) d s = Some (v, r)" for k by simp
    ultimately show ?thesis using fuel by metis
  next
    case arr
    with "2.prems" s obtain c2 cs2 where d: "d \<noteq> 0" "skip_ws cs = c2 # cs2"
      by (cases "skip_ws cs") (auto split: if_splits)
    note len2 = skip_ws_Cons_length [OF d(2)]
    show ?thesis
    proof (cases "c2 = CHR '']''")
      case True
      with "2.prems" s d arr have vr: "v = JArr []" "r = cs2" by auto
      with True s d arr have "p_value (Suc k) d s = Some (v, r)" for k by simp
      moreover have "length r < length s" using vr(2) len len2 by simp
      ultimately show ?thesis using fuel by metis
    next
      case False
      with "2.prems" s d arr obtain vs where vs: "p_elems f (d - 1) (c2 # cs2) = Some (vs, r)"
          "v = JArr vs"
        by (auto split: option.splits)
      have IH: "length r < length (c2 # cs2)"
          "\<forall>f'. 2 * (length (c2 # cs2) - length r) \<le> f' \<longrightarrow> p_elems f' (d - 1) (c2 # cs2) = Some (vs, r)"
        using "2.IH"(1) [OF s _ arr d False vs(1)] arr by simp_all
      have "length r < length s" using IH(1) len len2 by simp
      moreover have "p_value f' d s = Some (v, r)" if f: "2 * (length s - length r) \<le> f'" for f'
      proof -
        obtain k where k: "f' = Suc k" "2 * (length s - length r) \<le> Suc k"
          using fuel [OF f] \<open>length r < length s\<close> by blast
        then have "2 * (length (c2 # cs2) - length r) \<le> k" using len len2 IH(1) by simp
        with IH(2) k(1) s d arr False vs(2) show ?thesis by simp
      qed
      ultimately show ?thesis by blast
    qed
  next
    case obj
    with "2.prems" s obtain c2 cs2 where d: "d \<noteq> 0" "skip_ws cs = c2 # cs2"
      by (cases "skip_ws cs") (auto split: if_splits)
    note len2 = skip_ws_Cons_length [OF d(2)]
    show ?thesis
    proof (cases "c2 = CHR ''}''")
      case True
      with "2.prems" s d obj have vr: "v = JObj []" "r = cs2" by auto
      with True s d obj have "p_value (Suc k) d s = Some (v, r)" for k by simp
      moreover have "length r < length s" using vr(2) len len2 by simp
      ultimately show ?thesis using fuel by metis
    next
      case False
      with "2.prems" s d obj obtain ms where ms: "p_members f (d - 1) (c2 # cs2) = Some (ms, r)"
          "v = JObj ms"
        by (auto split: option.splits)
      have IH: "length r < length (c2 # cs2)"
          "\<forall>f'. 2 * (length (c2 # cs2) - length r) \<le> f' \<longrightarrow> p_members f' (d - 1) (c2 # cs2) = Some (ms, r)"
        using "2.IH"(2) [OF s _ _ obj d False ms(1)] obj by simp_all
      have "length r < length s" using IH(1) len len2 by simp
      moreover have "p_value f' d s = Some (v, r)" if f: "2 * (length s - length r) \<le> f'" for f'
      proof -
        obtain k where k: "f' = Suc k" "2 * (length s - length r) \<le> Suc k"
          using fuel [OF f] \<open>length r < length s\<close> by blast
        then have "2 * (length (c2 # cs2) - length r) \<le> k" using len len2 IH(1) by simp
        with IH(2) k(1) s d obj False ms(2) show ?thesis by simp
      qed
      ultimately show ?thesis by blast
    qed
  next
    case lit
    have "p_value (Suc k) d s = p_value (Suc f) d s" for k
      using lit s by simp
    moreover have "length r < length s"
    proof -
      have "length r < length (c # cs)"
        using "2.prems" lit s
        by (auto split: if_splits option.splits dest: starts_with_length scan_num_sound scan_num_nonempty)
      then show ?thesis using length_skip_ws [of s] s by simp
    qed
    ultimately show ?thesis using "2.prems" fuel by metis
  qed
next
  case (4 f d s)
  obtain v r where v: "p_value f d s = Some (v, r)"
    using "4.prems" by (auto split: option.splits)
  note IHv = "4.IH"(1) [OF v]
  obtain c cs where r: "skip_ws r = c # cs"
    using "4.prems" v by (cases "skip_ws r") auto
  note len = skip_ws_Cons_length [OF r]
  show ?case
  proof (cases "c = CHR '']''")
    case True
    with "4.prems" v r have vs: "vs = [v]" "r2 = cs" by auto
    have "p_elems f' d s = Some (vs, r2)" if f: "2 * (length s - length r2) \<le> f'" for f'
    proof -
      obtain k where k: "f' = Suc k" using f vs(2) len IHv by (cases f') auto
      have "2 * (length s - length r) \<le> k" using f k vs(2) len IHv by simp
      with IHv k r True vs show ?thesis by simp
    qed
    with vs(2) len IHv show ?thesis by simp
  next
    case False
    with "4.prems" v r obtain vs' where c: "c = CHR '',''" and vs: "p_elems f d cs = Some (vs', r2)" "vs = v # vs'"
      by (auto split: if_splits option.splits)
    have IH: "length r2 < length cs" "\<forall>f'. 2 * (length cs - length r2) \<le> f' \<longrightarrow> p_elems f' d cs = Some (vs', r2)"
      using "4.IH"(2) [OF v refl r False c vs(1)] by simp_all
    have "p_elems f' d s = Some (vs, r2)" if f: "2 * (length s - length r2) \<le> f'" for f'
    proof -
      obtain k where k: "f' = Suc k" using f len IHv IH by (cases f') auto
      have "2 * (length s - length r) \<le> k" "2 * (length cs - length r2) \<le> k"
        using f k(1) len conjunct1 [OF IHv] IH(1) by linarith+
      with IHv IH k r c vs show ?thesis by simp
    qed
    with len IHv IH show ?thesis by simp
  qed
next
  case (6 f d s)
  obtain c cs where s: "skip_ws s = c # cs"
    using "6.prems" by (cases "skip_ws s") auto
  with "6.prems" have c: "c = quote_char" by (auto split: if_splits)
  with "6.prems" s obtain k r where k: "scan_str SIn cs = Some (k, r)"
    by (auto split: option.splits)
  obtain c2 cs2 where r: "skip_ws r = c2 # cs2"
    using "6.prems" s c k by (cases "skip_ws r") auto
  with "6.prems" s c k have c2: "c2 = CHR '':''" by (auto split: if_splits)
  with "6.prems" s c k r obtain v r' where v: "p_value f d cs2 = Some (v, r')"
    by (auto split: option.splits)
  obtain c3 cs3 where r': "skip_ws r' = c3 # cs3"
    using "6.prems" s c k r c2 v by (cases "skip_ws r'") auto
  have IHv: "length r' < length cs2" "\<forall>f'. 2 * (length cs2 - length r') \<le> f' \<longrightarrow> p_value f' d cs2 = Some (v, r')"
    using "6.IH"(1) [OF s _ k refl r _ v] c c2 by simp_all
  have len: "length cs2 + 3 \<le> length s" "length cs3 < length r'"
    using skip_ws_Cons_length [OF s] skip_ws_Cons_length [OF r] skip_ws_Cons_length [OF r']
      scan_str_sound [OF k] by auto
  show ?case
  proof (cases "c3 = CHR ''}''")
    case True
    with "6.prems" s c k r c2 v r' have ms: "ms = [(k, v)]" "r3 = cs3" by auto
    have "p_members f' d s = Some (ms, r3)" if f: "2 * (length s - length r3) \<le> f'" for f'
    proof -
      obtain n where n: "f' = Suc n" using f ms(2) len IHv by (cases f') auto
      have "2 * (length cs2 - length r') \<le> n" using f n ms(2) len IHv by simp
      with IHv s c k r c2 v r' True ms n show ?thesis by simp
    qed
    with ms len IHv show ?thesis by simp
  next
    case False
    with "6.prems" s c k r c2 v r' obtain ms' where
        c3: "c3 = CHR '',''" and ms: "p_members f d cs3 = Some (ms', r3)" "ms = (k, v) # ms'"
      by (auto split: if_splits option.splits)
    have IH: "length r3 < length cs3" "\<forall>f'. 2 * (length cs3 - length r3) \<le> f' \<longrightarrow> p_members f' d cs3 = Some (ms', r3)"
      using "6.IH"(2) [OF s _ k refl r _ v refl r' False c3 ms(1)] c c2 by simp_all
    have "p_members f' d s = Some (ms, r3)" if f: "2 * (length s - length r3) \<le> f'" for f'
    proof -
      obtain n where n: "f' = Suc n" using f len IHv IH by (cases f') auto
      have "2 * (length cs2 - length r') \<le> n" "2 * (length cs3 - length r3) \<le> n"
        using f n len IHv(1) IH(1) by linarith+
      with IHv IH s c k r c2 v r' c3 ms n show ?thesis by simp
    qed
    with len IHv IH show ?thesis by simp
  qed
qed simp_all

lemma parse_fuel_enough:
  assumes "p_value f max_depth s = Some (v, r)"
  shows "p_value (2 * length s) max_depth s = Some (v, r)"
  using p_fuel(1) [OF assms] by auto

section \<open>Escaping keeps string literals\<close>

lemma take2_split: "take 2 cs = [a, b] \<Longrightarrow> cs = a # b # drop 2 cs"
  by (cases cs; cases "tl cs") auto

lemma str_run_html_esc: "str_run st raw = Some st' \<Longrightarrow> str_run st (html_esc raw) = Some st'"
proof (induction raw arbitrary: st rule: html_esc.induct)
  case 1
  then show ?case by simp
next
  case (2 c cs)
  consider (special) "c = CHR ''<'' \<or> c = CHR ''>'' \<or> c = CHR ''&''"
    | (sep) x where "c = CHR 0xE2" "x = CHR 0xA8 \<or> x = CHR 0xA9" "cs = CHR 0x80 # x # drop 2 cs"
    | (plain) "html_esc (c # cs) = c # html_esc cs" "c \<noteq> CHR ''<''" "c \<noteq> CHR ''>''" "c \<noteq> CHR ''&''"
        "\<not> (c = CHR 0xE2 \<and> take 2 cs = [CHR 0x80, CHR 0xA8])"
        "\<not> (c = CHR 0xE2 \<and> take 2 cs = [CHR 0x80, CHR 0xA9])"
    using take2_split [of cs] by (cases "c = CHR 0xE2") auto
  then show ?case
  proof cases
    case special
    then have st: "st = SIn" "str_run SIn cs = Some st'"
      using "2.prems" by (cases st; auto simp: escape_chars_def is_hex_def is_digit_def split: if_splits)+
    with special "2.IH"(1-3) show ?thesis by (auto simp: escape_chars_def is_hex_def is_digit_def)
  next
    case sep
    have "str_run st (c # CHR 0x80 # x # drop 2 cs) = Some st'" using "2.prems" sep(3) by simp
    then have st: "st = SIn" "str_run SIn (drop 2 cs) = Some st'"
      using sep(1,2) by (cases st; auto simp: escape_chars_def is_hex_def is_digit_def split: if_splits)+
    have tk: "take 2 cs = [CHR 0x80, x]" using sep(3) by (metis take_Suc_Cons take_0 numeral_2_eq_2)
    show ?thesis
      using sep(1,2) tk st "2.IH"(4,5) by (auto simp: escape_chars_def is_hex_def is_digit_def)
  next
    case plain
    with "2.prems" "2.IH"(6) show ?thesis by (auto split: if_splits option.splits)
  qed
qed

lemma raw_ok_html_esc [simp]: "raw_ok raw \<Longrightarrow> raw_ok (html_esc raw)"
  by (simp add: raw_ok_def str_run_html_esc)

section \<open>Rendered values parse back\<close>

definition ends_value :: "string \<Rightarrow> bool" where
  "ends_value rest \<longleftrightarrow> rest = [] \<or> hd rest \<in> set '',]}''"

lemma ends_value_simps [simp]:
  "ends_value []" "ends_value (CHR '','' # r)" "ends_value (CHR '']'' # r)" "ends_value (CHR ''}'' # r)"
  by (simp_all add: ends_value_def)

lemma num_step_end [simp]:
  "num_step st CHR '','' = None" "num_step st CHR '']'' = None" "num_step st CHR ''}'' = None"
  by (cases st; simp add: is_digit_def)+

lemma scan_num_render:
  "num_ok lit \<Longrightarrow> ends_value rest \<Longrightarrow> scan_num NStart (lit @ rest) = Some (lit, rest)"
proof -
  assume "num_ok lit" and rest: "ends_value rest"
  then obtain st where "num_run NStart lit = Some st" "num_end st"
    by (auto simp: num_ok_def split: option.splits)
  then show ?thesis by (rule scan_num_run) (use rest in \<open>auto simp: ends_value_def\<close>)
qed

lemma num_ok_hd:
  assumes "num_ok lit"
  obtains c cs where "lit = c # cs" "c = CHR ''-'' \<or> is_digit c"
  using assms by (cases lit) (auto simp: num_ok_def is_digit_def split: option.splits if_splits)

lemma num_hd_facts:
  "c = CHR ''-'' \<or> is_digit c \<Longrightarrow>
   \<not> is_ws c \<and> c \<noteq> quote_char \<and> c \<noteq> CHR ''['' \<and> c \<noteq> CHR ''{'' \<and> c \<noteq> CHR '']'' \<and> c \<noteq> CHR ''}'' \<and>
   CHR ''n'' \<noteq> c \<and> CHR ''t'' \<noteq> c \<and> CHR ''f'' \<noteq> c"
  by (auto simp: is_digit_def is_ws_def)

lemma render_hd:
  assumes "json_ok j"
  obtains c cs where "render j = c # cs" "\<not> is_ws c" "c \<noteq> CHR '']''" "c \<noteq> CHR ''}''"
proof (cases j)
  case (JNum lit)
  with assms num_ok_hd obtain c cs where "lit = c # cs" "c = CHR ''-'' \<or> is_digit c" by auto
  with JNum that num_hd_facts show thesis by simp
next
  case (JBool b)
  with that show thesis by (cases b) (auto simp: is_ws_def)
qed (use that in \<open>auto simp: is_ws_def\<close>)

lemma fold_max_ge: "(a::nat) \<le> fold max xs a"
  by (induction xs arbitrary: a) (auto intro: order_trans [OF max.cobounded2])

lemma le_fold_max: "x \<in> set xs \<Longrightarrow> (x::nat) \<le> fold max xs a"
proof (induction xs arbitrary: a)
  case (Cons y xs)
  then show ?case using fold_max_ge [of "max y a" xs] by auto
qed simp

lemma depth_elem: "v \<in> set vs \<Longrightarrow> depth (JArr vs) \<le> d \<Longrightarrow> depth v \<le> d - 1"
  using le_fold_max [of "depth v" "map depth vs" 0] by auto

lemma depth_member: "kv \<in> set ms \<Longrightarrow> depth (JObj ms) \<le> d \<Longrightarrow> depth (snd kv) \<le> d - 1"
  using le_fold_max [of "depth (snd kv)" "map (\<lambda>kv. depth (snd kv)) ms" 0] by auto

lemma starts_with_Cons [simp]: "starts_with (a # p) (c # s) \<longleftrightarrow> a = c \<and> starts_with p s"
  by (auto simp: starts_with_def)

lemma starts_with_Nil [simp]: "starts_with [] s"
  by (simp add: starts_with_def)

lemma render_nonempty: "json_ok j \<Longrightarrow> 0 < length (render j)"
  by (metis render_hd length_greater_0_conv list.distinct(1))

lemma Suc_fuel: "2 * n \<le> f \<Longrightarrow> 0 < n \<Longrightarrow> \<exists>k. f = Suc k \<and> 2 * n \<le> Suc k"
  by (cases f) auto

lemma p_render:
  shows "json_ok j \<Longrightarrow> depth j \<le> d \<Longrightarrow> 2 * length (render j) \<le> f \<Longrightarrow> ends_value rest \<Longrightarrow>
      p_value f d (render j @ rest) = Some (norm j, rest)"
    and "vs \<noteq> [] \<Longrightarrow> (\<forall>v \<in> set vs. json_ok v \<and> depth v \<le> d) \<Longrightarrow> 2 * length (render_elems vs) \<le> f \<Longrightarrow>
      p_elems f d (render_elems vs @ rest) = Some (map norm vs, rest)"
    and "ms \<noteq> [] \<Longrightarrow> (\<forall>kv \<in> set ms. raw_ok (fst kv) \<and> json_ok (snd kv) \<and> depth (snd kv) \<le> d) \<Longrightarrow>
      2 * length (render_members ms) \<le> f \<Longrightarrow>
      p_members f d (render_members ms @ rest) =
        Some (map (\<lambda>kv. (html_esc (fst kv), norm (snd kv))) ms, rest)"
proof (induction j and vs and ms arbitrary: d f rest and d f rest and d f rest
    rule: render_render_elems_render_members.induct)
  case 1
  then show ?case by (cases f) (auto simp: is_ws_def)
next
  case (2 b)
  then show ?case by (cases f; cases b) (auto simp: is_ws_def)
next
  case (3 lit)
  from 3 obtain c cs where lit: "lit = c # cs" "c = CHR ''-'' \<or> is_digit c"
    using num_ok_hd by auto
  from 3 lit obtain k where "f = Suc k" by (cases f) auto
  with 3 lit scan_num_render [of lit rest] num_hd_facts [OF lit(2)] show ?case by simp
next
  case (4 raw)
  then obtain k where "f = Suc k" by (cases f) auto
  with 4 scan_str_run [of SIn "html_esc raw" rest] show ?case
    by (simp add: is_ws_def raw_ok_def str_run_html_esc)
next
  case (5 vs)
  then obtain k d' where fd: "f = Suc k" "d = Suc d'" by (cases f; cases d) auto
  show ?case
  proof (cases "vs = []")
    case True
    with fd show ?thesis by (simp add: is_ws_def)
  next
    case False
    have el: "\<forall>v \<in> set vs. json_ok v \<and> depth v \<le> d'"
      using 5 fd depth_elem by fastforce
    obtain c cs where c: "render (hd vs) = c # cs" "\<not> is_ws c" "c \<noteq> CHR '']''"
      using False el render_hd by (metis hd_in_set)
    then obtain cs' where "render_elems vs = c # cs'"
      using False by (cases vs) auto
    with c False fd 5 el "5.IH" [OF False False el, of k rest] show ?thesis by (simp add: is_ws_def)
  qed
next
  case (6 ms)
  then obtain k d' where fd: "f = Suc k" "d = Suc d'" by (cases f; cases d) auto
  show ?case
  proof (cases "ms = []")
    case True
    with fd show ?thesis by (simp add: is_ws_def)
  next
    case False
    have el: "\<forall>kv \<in> set ms. raw_ok (fst kv) \<and> json_ok (snd kv) \<and> depth (snd kv) \<le> d'"
      using 6 fd depth_member by fastforce
    obtain cs where "render_members ms = quote_char # cs"
      using False by (cases ms) auto
    with False fd 6 el "6.IH" [OF False False el, of k rest] show ?thesis by (simp add: is_ws_def)
  qed
next
  case (8 v vs)
  have v: "json_ok v" "depth v \<le> d" using 8 by auto
  obtain k where k: "f = Suc k" using "8.prems"(3) by (cases f) (auto split: if_splits)
  show ?case
  proof (cases "vs = []")
    case True
    with 8 v k "8.IH"(1) [OF v, of k "CHR '']'' # rest"] show ?thesis by (simp add: is_ws_def)
  next
    case False
    have "2 * length (render v) \<le> k" "2 * length (render_elems vs) \<le> k" using 8(5) k False by simp_all
    with False v k "8.IH"(1) [OF v, of k "CHR '','' # render_elems vs @ rest"]
      "8.IH"(2) [of d k rest] "8.prems"(2) show ?thesis by (simp add: is_ws_def)
  qed
next
  case (10 kx v ms)
  have v: "raw_ok kx" "json_ok v" "depth v \<le> d" using 10 by auto
  obtain k where k: "f = Suc k" using "10.prems"(3) by (cases f) auto
  have key: "scan_str SIn (html_esc kx @ quote_char # t) = Some (html_esc kx, t)" for t
    using v(1) by (intro scan_str_run) (simp add: raw_ok_html_esc [unfolded raw_ok_def] raw_ok_def)
  show ?case
  proof (cases "ms = []")
    case True
    with 10 v k key "10.IH"(1) [OF v(2,3), of k "CHR ''}'' # rest"] show ?thesis by (simp add: is_ws_def)
  next
    case False
    have "2 * length (render v) \<le> k" "2 * length (render_members ms) \<le> k" using 10(5) k False by simp_all
    with False v k key "10.IH"(1) [OF v(2,3), of k "CHR '','' # render_members ms @ rest"]
      "10.IH"(2) [of d k rest] "10.prems"(2) show ?thesis by (simp add: is_ws_def)
  qed
qed simp_all

theorem parse_render:
  "json_ok j \<Longrightarrow> depth j \<le> max_depth \<Longrightarrow> parse_json (render j) = Some (norm j)"
  using p_render(1) [of j max_depth "2 * length (render j)" "[]"] by (simp add: parse_json_def)

section \<open>Parsed values are well formed\<close>

lemma fold_max_le: "fold max xs a \<le> (n::nat) \<longleftrightarrow> a \<le> n \<and> (\<forall>x \<in> set xs. x \<le> n)"
  by (induction xs arbitrary: a) auto

lemma scan_num_ok: "scan_num NStart s = Some (lit, r) \<Longrightarrow> num_ok lit"
  by (auto simp: num_ok_def dest!: scan_num_sound)

lemma scan_str_ok: "scan_str SIn s = Some (raw, r) \<Longrightarrow> raw_ok raw"
  by (auto simp: raw_ok_def dest!: scan_str_sound)

lemma p_sound:
  shows "p_value f d s = Some (v, r) \<Longrightarrow> json_ok v \<and> depth v \<le> d"
    and "p_elems f d s = Some (vs, r) \<Longrightarrow> \<forall>v \<in> set vs. json_ok v \<and> depth v \<le> d"
    and "p_members f d s = Some (ms, r) \<Longrightarrow>
      \<forall>kv \<in> set ms. raw_ok (fst kv) \<and> json_ok (snd kv) \<and> depth (snd kv) \<le> d"
proof (induction f d s and f d s and f d s arbitrary: v r and vs r and ms r
    rule: p_value_p_elems_p_members.induct)
  case (2 f d s)
  obtain c cs where s: "skip_ws s = c # cs"
    using "2.prems" by (cases "skip_ws s") auto
  consider (arr) c2 cs2 vs where "c = CHR ''[''" "d \<noteq> 0" "skip_ws cs = c2 # cs2" "c2 \<noteq> CHR '']''"
        "p_elems f (d - 1) (c2 # cs2) = Some (vs, r)" "v = JArr vs"
    | (obj) c2 cs2 ms where "c = CHR ''{''" "d \<noteq> 0" "skip_ws cs = c2 # cs2" "c2 \<noteq> CHR ''}''"
        "p_members f (d - 1) (c2 # cs2) = Some (ms, r)" "v = JObj ms"
    | (flat) "(\<exists>raw. v = JStr raw \<and> raw_ok raw) \<or> (\<exists>lit. v = JNum lit \<and> num_ok lit) \<or> v = JNull
        \<or> v = JBool True \<or> v = JBool False \<or> d \<noteq> 0 \<and> (v = JArr [] \<or> v = JObj [])"
    using "2.prems" s
    by (auto simp del: scan_num.simps split: if_splits option.splits list.splits
        dest: scan_str_ok scan_num_ok)
  then show ?case
  proof cases
    case arr
    then have "\<forall>v \<in> set vs. json_ok v \<and> depth v \<le> d - 1" using "2.IH"(1) [OF s _ arr(1-5)] by simp
    then have "fold max (map depth vs) 0 \<le> d - 1" "\<forall>v \<in> set vs. json_ok v"
      by (simp_all add: fold_max_le)
    then show ?thesis using arr(2,6) by simp
  next
    case obj
    then have "\<forall>kv \<in> set ms. raw_ok (fst kv) \<and> json_ok (snd kv) \<and> depth (snd kv) \<le> d - 1"
      using "2.IH"(2) [OF s _ _ obj(1-5)] by simp
    then have "fold max (map (\<lambda>kv. depth (snd kv)) ms) 0 \<le> d - 1"
        "\<forall>kv \<in> set ms. raw_ok (fst kv) \<and> json_ok (snd kv)"
      by (simp_all add: fold_max_le)
    then show ?thesis using obj(2,6) by simp
  next
    case flat
    then show ?thesis by auto
  qed
next
  case (4 f d s)
  obtain v r1 where v: "p_value f d s = Some (v, r1)"
    using "4.prems" by (auto split: option.splits)
  with "4.prems" consider "vs = [v]"
    | c cs vs' where "skip_ws r1 = c # cs" "c \<noteq> CHR '']''" "c = CHR '',''" "p_elems f d cs = Some (vs', r)" "vs = v # vs'"
    by (auto split: option.splits list.splits if_splits)
  then show ?case
  proof cases
    case 1
    then show ?thesis using "4.IH"(1) [OF v] by simp
  next
    case 2
    then show ?thesis using "4.IH"(1) [OF v] "4.IH"(2) [OF v refl 2(1-4)] by simp
  qed
next
  case (6 f d s)
  obtain c cs k r1 c2 cs2 v r2 where
      s: "skip_ws s = c # cs" "c = quote_char" "scan_str SIn cs = Some (k, r1)" "skip_ws r1 = c2 # cs2"
        "c2 = CHR '':''" and v: "p_value f d cs2 = Some (v, r2)"
    using "6.prems" by (auto split: option.splits list.splits if_splits)
  have IHv: "json_ok v \<and> depth v \<le> d"
    using "6.IH"(1) [OF s(1) _ s(3) refl s(4) _ v] s(2,5) by simp
  from "6.prems" s v consider "ms = [(k, v)]"
    | c3 cs3 ms' where "skip_ws r2 = c3 # cs3" "c3 \<noteq> CHR ''}''" "c3 = CHR '',''"
        "p_members f d cs3 = Some (ms', r)" "ms = (k, v) # ms'"
    by (auto split: option.splits list.splits if_splits)
  then show ?case
  proof cases
    case 1
    then show ?thesis using IHv scan_str_ok [OF s(3)] by simp
  next
    case 2
    then show ?thesis
      using IHv scan_str_ok [OF s(3)] "6.IH"(2) [OF s(1) _ s(3) refl s(4) _ v refl 2(1-4)] s(2,5)
      by simp
  qed
qed simp_all

lemma parse_json_ok: "parse_json s = Some v \<Longrightarrow> json_ok v \<and> depth v \<le> max_depth"
  by (auto simp: parse_json_def dest: p_sound(1) split: option.splits if_splits)

end
