(* ===== verification/JsonText.thy ===== *)
theory JsonText
  imports JsonRoundtrip
begin

text \<open>
  String literals and typed values of \<^verbatim>\<open>encoding/json\<close>: quoting a Go string (\<open>quote\<close>), reading a
  literal back (\<open>unquote\<close>, with \<open>\uXXXX\<close> escapes, surrogate pairs and U+FFFD for what is
  invalid), and decoding into a Go \<open>string\<close>, \<open>bool\<close>, \<open>int\<close>, slice, map and struct, where a JSON
  null leaves the variable as it is, except that it sets a map or a slice to nil.

  Lemmas: quoting gives a well-formed literal, unquoting inverts quoting on valid UTF-8, and the
  escaping done by \<open>render\<close> does not change what a literal means.
\<close>

section \<open>Quoting\<close>

definition hex_digit :: "nat \<Rightarrow> char" where
  "hex_digit n = char_of (if n < 10 then 0x30 + n else 0x61 + (n - 10))"

definition hex_val :: "char \<Rightarrow> nat" where
  "hex_val c = (if byte c \<le> 0x39 then byte c - 0x30
                else if byte c \<le> 0x46 then byte c - 0x41 + 10 else byte c - 0x61 + 10)"

definition quote_piece :: "nat \<Rightarrow> string \<Rightarrow> string" where
  "quote_piece r b =
     (if r < 0x80 then
        (if r = 0x22 \<or> r = 0x5C then [backslash, char_of r]
         else if r = 0x08 then [backslash, CHR ''b'']
         else if r = 0x0C then [backslash, CHR ''f'']
         else if r = 0x0A then [backslash, CHR ''n'']
         else if r = 0x0D then [backslash, CHR ''r'']
         else if r = 0x09 then [backslash, CHR ''t'']
         else if r < 0x20 \<or> r = 0x3C \<or> r = 0x3E \<or> r = 0x26
         then [backslash, CHR ''u'', CHR ''0'', CHR ''0'', hex_digit (r div 16), hex_digit (r mod 16)]
         else [char_of r])
      else if r = rune_error \<and> length b = 1 then backslash # ''ufffd''
      else if r = 0x2028 then backslash # ''u2028''
      else if r = 0x2029 then backslash # ''u2029''
      else b)"

definition quote :: "string \<Rightarrow> string" where
  "quote s = concat (map (\<lambda>p. quote_piece (fst p) (snd p)) (split_runes s))"

section \<open>Unquoting\<close>

definition simple_escape :: "char \<Rightarrow> nat" where
  "simple_escape e =
     (if e = CHR ''b'' then 0x08 else if e = CHR ''f'' then 0x0C else if e = CHR ''n'' then 0x0A
      else if e = CHR ''r'' then 0x0D else if e = CHR ''t'' then 0x09 else byte e)"

text \<open>\<open>getu4\<close>: the value of a \<open>\uXXXX\<close> escape at the start of the string.\<close>

definition getu4 :: "string \<Rightarrow> nat option" where
  "getu4 s = (case s of
      b # u # h1 # h2 # h3 # h4 # _ \<Rightarrow>
        (if b = backslash \<and> u = CHR ''u'' \<and> is_hex h1 \<and> is_hex h2 \<and> is_hex h3 \<and> is_hex h4
         then Some (((hex_val h1 * 16 + hex_val h2) * 16 + hex_val h3) * 16 + hex_val h4)
         else None)
    | _ \<Rightarrow> None)"

definition is_surrogate :: "nat \<Rightarrow> bool" where
  "is_surrogate r \<longleftrightarrow> 0xD800 \<le> r \<and> r < 0xE000"

definition decode_surrogates :: "nat \<Rightarrow> nat \<Rightarrow> nat option" where
  "decode_surrogates r1 r2 =
     (if r1 < 0xDC00 \<and> 0xDC00 \<le> r2 \<and> r2 < 0xE000
      then Some ((r1 - 0xD800) * 1024 + (r2 - 0xDC00) + 0x10000) else None)"

function unquote_runes :: "string \<Rightarrow> nat list" where
  "unquote_runes [] = []"
| "unquote_runes (c # cs) =
     (if c = backslash then
        (case getu4 (c # cs) of
           Some r \<Rightarrow>
             (if is_surrogate r then
                (case getu4 (drop 5 cs) of
                   Some r2 \<Rightarrow>
                     (case decode_surrogates r r2 of
                        Some d \<Rightarrow> d # unquote_runes (drop 11 cs)
                      | None \<Rightarrow> rune_error # unquote_runes (drop 5 cs))
                 | None \<Rightarrow> rune_error # unquote_runes (drop 5 cs))
              else r # unquote_runes (drop 5 cs))
         | None \<Rightarrow> (case cs of [] \<Rightarrow> [] | e # es \<Rightarrow> simple_escape e # unquote_runes es))
      else (let rn = decode_rune (c # cs) in fst rn # unquote_runes (drop (snd rn - 1) cs)))"
  by pat_completeness auto
termination
  by (relation "measure length") auto

definition unquote :: "string \<Rightarrow> string" where
  "unquote raw = of_runes (unquote_runes raw)"

lemma valid_utf8_unquote [simp]: "valid_utf8 (unquote raw)"
  by (simp add: unquote_def)

section \<open>The pieces of a string\<close>

lemma encode_rune_2:
  "2 \<le> x \<Longrightarrow> x < 32 \<Longrightarrow> y < 64 \<Longrightarrow>
   encode_rune (x * 64 + y) = [char_of (0xC0 + x), char_of (0x80 + y)] \<and> valid_rune (x * 64 + y)"
  by (simp add: encode_rune_def valid_rune_def)

lemma low_digit: "z < 64 \<Longrightarrow> r = a * 64 + z \<Longrightarrow> r mod 64 = (z::nat)"
  by simp

lemma encode_rune_3:
  assumes "x < 16" "y < 64" "z < 64" "x = 0 \<Longrightarrow> 32 \<le> y" "x = 13 \<Longrightarrow> y < 32"
  shows "encode_rune (x * 4096 + y * 64 + z) = [char_of (0xE0 + x), char_of (0x80 + y), char_of (0x80 + z)]
     \<and> valid_rune (x * 4096 + y * 64 + z)"
proof -
  let ?r = "x * 4096 + y * 64 + z"
  have r: "0x800 \<le> ?r" "?r < 0x10000"
    using assms(1-4) by (cases "x = 0"; linarith)+
  have v: "valid_rune ?r"
  proof (cases "x < 13")
    case True
    then have "?r < 0xD800" using assms(2,3) by linarith
    then show ?thesis by (simp add: valid_rune_def)
  next
    case False
    then have "x = 13 \<or> 14 \<le> x" by linarith
    then show ?thesis using assms r by (auto simp: valid_rune_def)
  qed
  have "?r div 64 = x * 64 + y" using assms(3) by simp
  moreover from this have "?r div 4096 = x" using assms(2) by (simp add: div_4096)
  moreover have "?r mod 64 = z" by (rule low_digit [where a = "x * 64 + y"]) (use assms in simp_all)
  ultimately show ?thesis using r v assms by (simp add: encode_rune_def)
qed

lemma encode_rune_4:
  assumes "x < 5" "y < 64" "z < 64" "w < 64" "x = 0 \<Longrightarrow> 16 \<le> y" "x = 4 \<Longrightarrow> y < 16"
  shows "encode_rune (x * 262144 + y * 4096 + z * 64 + w) =
           [char_of (0xF0 + x), char_of (0x80 + y), char_of (0x80 + z), char_of (0x80 + w)]
     \<and> valid_rune (x * 262144 + y * 4096 + z * 64 + w)"
proof -
  let ?r = "x * 262144 + y * 4096 + z * 64 + w"
  have r: "0x10000 \<le> ?r" "?r \<le> 0x10FFFF"
    using assms by (cases "x = 0"; cases "x = 4"; linarith)+
  then have v: "valid_rune ?r" by (simp add: valid_rune_def)
  have "?r div 64 = x * 4096 + y * 64 + z" using assms(4) by simp
  moreover from this have "?r div 4096 = x * 64 + y" using assms(3) by (simp add: div_4096)
  moreover from this have "?r div 262144 = x"
    using assms(2) div_4096 [of ?r] div_262144 [of ?r] by simp
  moreover have "?r mod 64 = w"
    by (rule low_digit [where a = "x * 4096 + y * 64 + z"]) (use assms in simp_all)
  moreover have "(x * 4096 + y * 64 + z) mod 64 = z"
    by (rule low_digit [where a = "x * 64 + y"]) (use assms in simp_all)
  ultimately show ?thesis using r v assms by (simp add: encode_rune_def)
qed

lemma decode_rune_piece:
  assumes "s \<noteq> []"
  shows "(valid_rune (fst (decode_rune s)) \<and>
            take (snd (decode_rune s)) s = encode_rune (fst (decode_rune s))) \<or>
         (fst (decode_rune s) = rune_error \<and> snd (decode_rune s) = 1 \<and> 0x80 \<le> byte (hd s))"
proof -
  obtain c0 cs where s: "s = c0 # cs" using assms by (cases s) auto
  let ?b0 = "byte c0"
  show ?thesis
  proof (cases "?b0 < 0x80 \<or> decode_rune s = (rune_error, 1)")
    case True
    then show ?thesis
      using s by (cases "?b0 < 0x80") (auto simp: valid_rune_def encode_rune_def)
  next
    case False
    then consider
      c1 t where "cs = c1 # t" "0xC2 \<le> ?b0" "?b0 \<le> 0xDF" "cont_byte (byte c1)"
    | c1 c2 t where "cs = c1 # c2 # t" "0xE0 \<le> ?b0" "?b0 \<le> 0xEF" "second_byte ?b0 (byte c1)"
        "cont_byte (byte c2)"
    | c1 c2 c3 t where "cs = c1 # c2 # c3 # t" "0xF0 \<le> ?b0" "?b0 \<le> 0xF4" "second_byte ?b0 (byte c1)"
        "cont_byte (byte c2)" "cont_byte (byte c3)"
      by (auto simp: s Let_def split: list.splits if_splits)
    then show ?thesis
    proof cases
      case 1
      then obtain x y where xy: "?b0 = 0xC0 + x" "byte c1 = 0x80 + y" "2 \<le> x" "x < 32" "y < 64"
        by (auto simp: cont_byte_def le_iff_add)
      then have "c0 = char_of (0xC0 + x)" "c1 = char_of (0x80 + y)" by (metis char_of_byte)+
      with 1 xy encode_rune_2 [of x y] s show ?thesis by simp
    next
      case 2
      then have "byte c1 \<ge> 0x80" "byte c1 < 0xC0" by (auto simp: second_byte_def cont_byte_def split: if_splits)
      with 2 obtain x y z where xy: "?b0 = 0xE0 + x" "byte c1 = 0x80 + y" "byte c2 = 0x80 + z"
          "x < 16" "y < 64" "z < 64"
        by (auto simp: cont_byte_def le_iff_add)
      then have "c0 = char_of (0xE0 + x)" "c1 = char_of (0x80 + y)" "c2 = char_of (0x80 + z)"
        by (metis char_of_byte)+
      moreover have "x = 0 \<Longrightarrow> 32 \<le> y" "x = 13 \<Longrightarrow> y < 32"
        using 2 xy by (auto simp: second_byte_def)
      ultimately show ?thesis using 2 xy encode_rune_3 [of x y z] s by simp
    next
      case 3
      then have "byte c1 \<ge> 0x80" "byte c1 < 0xC0" by (auto simp: second_byte_def cont_byte_def split: if_splits)
      with 3 obtain x y z w where xy: "?b0 = 0xF0 + x" "byte c1 = 0x80 + y" "byte c2 = 0x80 + z"
          "byte c3 = 0x80 + w" "x < 5" "y < 64" "z < 64" "w < 64"
        by (auto simp: cont_byte_def le_iff_add)
      then have "c0 = char_of (0xF0 + x)" "c1 = char_of (0x80 + y)" "c2 = char_of (0x80 + z)"
          "c3 = char_of (0x80 + w)"
        by (metis char_of_byte)+
      moreover have "x = 0 \<Longrightarrow> 16 \<le> y" "x = 4 \<Longrightarrow> y < 16"
        using 3 xy by (auto simp: second_byte_def)
      ultimately show ?thesis using 3 xy encode_rune_4 [of x y z w] s by simp
    qed
  qed
qed

section \<open>Unquoting inverts quoting\<close>

definition piece_ok :: "nat \<times> string \<Rightarrow> bool" where
  "piece_ok p \<longleftrightarrow> (valid_rune (fst p) \<and> snd p = encode_rune (fst p)) \<or>
     (fst p = rune_error \<and> length (snd p) = 1 \<and> 0x80 \<le> byte (hd (snd p)))"

lemma split_runes_piece_ok: "p \<in> set (split_runes s) \<Longrightarrow> piece_ok p"
proof (induction s rule: split_runes.induct)
  case 1
  then show ?case by simp
next
  case (2 c cs)
  have "piece_ok (fst (decode_rune (c # cs)), take (snd (decode_rune (c # cs))) (c # cs))"
    using decode_rune_piece [of "c # cs"] by (auto simp: piece_ok_def)
  with 2 show ?case by (auto simp: Let_def)
qed

lemma hex_digit_is_hex [simp]: "n < 16 \<Longrightarrow> is_hex (hex_digit n)"
  by (auto simp: is_hex_def is_digit_def hex_digit_def)

lemma hex_val_hex_digit [simp]: "n < 16 \<Longrightarrow> hex_val (hex_digit n) = n"
  by (auto simp: hex_val_def hex_digit_def)

lemma hex_consts [simp]:
  "is_hex CHR ''0''" "is_hex CHR ''2''" "is_hex CHR ''8''" "is_hex CHR ''9''" "is_hex CHR ''3''" "is_hex CHR ''6''"
  "is_hex CHR ''c''" "is_hex CHR ''e''" "is_hex CHR ''f''" "is_hex CHR ''d''"
  "hex_val CHR ''0'' = 0" "hex_val CHR ''2'' = 2" "hex_val CHR ''8'' = 8" "hex_val CHR ''9'' = 9"
  "hex_val CHR ''3'' = 3" "hex_val CHR ''6'' = 6"
  "hex_val CHR ''c'' = 12" "hex_val CHR ''e'' = 14" "hex_val CHR ''f'' = 15" "hex_val CHR ''d'' = 13"
  by (simp_all add: is_hex_def is_digit_def hex_val_def)

lemma hd_encode_rune_high: "0x80 \<le> r \<Longrightarrow> 0x80 \<le> byte (hd (encode_rune r))"
proof -
  assume r: "0x80 \<le> r"
  have "r div 4096 < 16" if "r < 0x10000" using that by auto
  moreover have "r div 64 < 32" if "r < 0x800" using that by auto
  moreover have "r div 262144 < 16" if "valid_rune r" using that by (auto simp: valid_rune_def)
  ultimately show ?thesis using r by (auto simp: encode_rune_def)
qed

lemma length_encode_rune_high: "0x80 \<le> r \<Longrightarrow> 1 < length (encode_rune r)"
  by (simp add: encode_rune_def)

lemma unquote_runes_high:
  "0x80 \<le> byte c \<Longrightarrow>
   unquote_runes (c # cs) = fst (decode_rune (c # cs)) # unquote_runes (drop (snd (decode_rune (c # cs))) (c # cs))"
  using decode_rune_size_pos [of "c # cs"]
  by (cases "snd (decode_rune (c # cs))") (auto simp: Let_def simp del: decode_rune.simps)

lemma unquote_runes_encode:
  assumes "valid_rune r" and "0x80 \<le> r"
  shows "unquote_runes (encode_rune r @ t) = r # unquote_runes t"
proof -
  obtain c cs where c: "encode_rune r = c # cs" by (cases "encode_rune r") auto
  then have "0x80 \<le> byte c" using hd_encode_rune_high [OF assms(2)] by simp
  with c decode_encode_rune [OF assms(1), of t] show ?thesis
    using unquote_runes_high [of c "cs @ t"] by simp
qed

lemma char_of_quotes [simp]: "char_of (34::nat) = quote_char" "char_of (92::nat) = backslash"
  by code_simp+

text \<open>The three forms of a quoted ASCII character.\<close>

lemma quote_piece_ascii:
  assumes "r < 0x80"
  obtains e where "quote_piece r b = [backslash, e]" "e \<in> set escape_chars" "e \<noteq> CHR ''u''" "simple_escape e = r"
    | "quote_piece r b = [backslash, CHR ''u'', CHR ''0'', CHR ''0'', hex_digit (r div 16), hex_digit (r mod 16)]"
    | "quote_piece r b = [char_of r]" "0x20 \<le> r" "char_of r \<noteq> backslash" "char_of r \<noteq> quote_char"
proof -
  note esc = quote_piece_def escape_chars_def simple_escape_def
  consider "r = 0x22" | "r = 0x5C" | "r = 0x08" | "r = 0x0C" | "r = 0x0A" | "r = 0x0D" | "r = 0x09"
    | "r \<noteq> 0x22" "r \<noteq> 0x5C" "r \<noteq> 0x08" "r \<noteq> 0x0C" "r \<noteq> 0x0A" "r \<noteq> 0x0D" "r \<noteq> 0x09"
    by blast
  then show thesis
  proof cases
    case 8
    have r: "byte (char_of r) = r" using assms by simp
    have "byte backslash = 0x5C" "byte quote_char = 0x22" by simp_all
    with 8 r have c: "char_of r \<noteq> backslash" "char_of r \<noteq> quote_char" by metis+
    show thesis
    proof (cases "r < 0x20 \<or> r = 0x3C \<or> r = 0x3E \<or> r = 0x26")
      case True
      then show thesis using that(2) 8 assms by (simp add: quote_piece_def)
    next
      case False
      then show thesis using that(3) 8 c assms by (simp add: quote_piece_def)
    qed
  next
    case 1
    then show thesis by (intro that(1) [of quote_char]) (simp_all add: esc)
  next
    case 2
    then show thesis by (intro that(1) [of backslash]) (simp_all add: esc)
  next
    case 3
    then show thesis by (intro that(1) [of "CHR ''b''"]) (simp_all add: esc)
  next
    case 4
    then show thesis by (intro that(1) [of "CHR ''f''"]) (simp_all add: esc)
  next
    case 5
    then show thesis by (intro that(1) [of "CHR ''n''"]) (simp_all add: esc)
  next
    case 6
    then show thesis by (intro that(1) [of "CHR ''r''"]) (simp_all add: esc)
  next
    case 7
    then show thesis by (intro that(1) [of "CHR ''t''"]) (simp_all add: esc)
  qed
qed

lemma getu4_short: "c \<noteq> CHR ''u'' \<Longrightarrow> getu4 (b # c # t) = None"
  by (simp add: getu4_def split: list.splits)

lemma quote_piece_escape:
  assumes "piece_ok (r, b)"
  shows "unquote_runes (quote_piece r b @ t) = r # unquote_runes t"
proof (cases "r < 0x80")
  case True
  then show ?thesis
  proof (cases rule: quote_piece_ascii [of r b])
    case (1 e)
    then show ?thesis by (simp add: getu4_short)
  next
    case 2
    have "r div 16 * 16 + r mod 16 = r" by simp
    with 2 True show ?thesis by (simp add: getu4_def is_surrogate_def)
  next
    case 3
    with True show ?thesis by (simp add: Let_def)
  qed
next
  case False
  consider "r = rune_error" "length b = 1" | "r = 0x2028" "length b \<noteq> 1" | "r = 0x2029" "length b \<noteq> 1"
    | "quote_piece r b = b" "valid_rune r" "b = encode_rune r"
    using assms False length_encode_rune_high [of r]
    by (cases "r = 0x2028"; cases "r = 0x2029") (auto simp: piece_ok_def quote_piece_def)
  then show ?thesis
  proof cases
    case 4
    then show ?thesis using False unquote_runes_encode by simp
  qed (use False in \<open>simp_all add: quote_piece_def getu4_def is_surrogate_def rune_error_def\<close>)
qed

lemma unquote_runes_quote: "unquote_runes (quote s) = to_runes s"
proof -
  have "unquote_runes (concat (map (\<lambda>p. quote_piece (fst p) (snd p)) ps)) = map fst ps"
    if "\<forall>p \<in> set ps. piece_ok p" for ps
    using that
  proof (induction ps)
    case (Cons p ps)
    then show ?case using quote_piece_escape [of "fst p" "snd p"] by simp
  qed simp
  then show ?thesis
    using split_runes_piece_ok by (simp add: quote_def to_runes_def)
qed

lemma unquote_quote [simp]: "valid_utf8 s \<Longrightarrow> unquote (quote s) = s"
  by (simp add: unquote_def unquote_runes_quote of_runes_to_runes)

section \<open>Quoted strings are well-formed literals\<close>

lemma str_run_plain: "\<forall>c \<in> set b. 0x80 \<le> byte c \<Longrightarrow> str_run SIn b = Some SIn"
  by (induction b) auto

lemma encode_rune_high: "0x80 \<le> r \<Longrightarrow> \<forall>c \<in> set (encode_rune r). 0x80 \<le> byte c"
  using hd_encode_rune_high [of r] mod_64_le
  by (auto simp: encode_rune_def split: if_splits)

lemma raw_ok_quote_piece: "piece_ok (r, b) \<Longrightarrow> raw_ok (quote_piece r b)"
proof -
  assume p: "piece_ok (r, b)"
  show ?thesis
  proof (cases "r < 0x80")
    case True
    then show ?thesis
    proof (cases rule: quote_piece_ascii [of r b])
      case 3
      with True show ?thesis by (simp add: raw_ok_def)
    qed (use True in \<open>simp_all add: raw_ok_def escape_chars_def\<close>)
  next
    case False
    then have "\<forall>c \<in> set b. 0x80 \<le> byte c"
      using p encode_rune_high [of r] by (auto simp: piece_ok_def length_Suc_conv)
    then have "raw_ok b" by (simp add: raw_ok_def str_run_plain)
    with False show ?thesis
      by (simp add: quote_piece_def) (simp add: raw_ok_def escape_chars_def)
  qed
qed

lemma raw_ok_quote [simp]: "raw_ok (quote s)"
proof -
  have "raw_ok (concat (map (\<lambda>p. quote_piece (fst p) (snd p)) ps))" if "\<forall>p \<in> set ps. piece_ok p" for ps
    using that by (induction ps) (auto intro!: raw_ok_append raw_ok_quote_piece)
  then show ?thesis using split_runes_piece_ok by (simp add: quote_def)
qed

section \<open>HTML escaping does not change the meaning of a literal\<close>

lemma decode_rune_cont:
  "decode_rune (c # cs) = decode_rune (c # takeWhile (\<lambda>x. cont_byte (byte x)) cs)"
proof -
  have second: "second_byte b0 b1 \<Longrightarrow> cont_byte b1" for b0 b1
    by (auto simp: second_byte_def cont_byte_def split: if_splits)
  show ?thesis
    by (cases cs; cases "tl cs"; cases "tl (tl cs)")
      (auto simp: Let_def dest: second split: list.splits)
qed

lemma takeWhile_html_esc:
  "takeWhile (\<lambda>x. cont_byte (byte x)) (html_esc cs) = takeWhile (\<lambda>x. cont_byte (byte x)) cs"
  by (induction cs rule: html_esc.induct) (auto simp: cont_byte_def)

lemma decode_rune_html_esc: "decode_rune (c # html_esc cs) = decode_rune (c # cs)"
  by (metis decode_rune_cont takeWhile_html_esc)

lemma html_esc_plain:
  "\<forall>c \<in> set b. c \<notin> set ''<>&'' \<and> c \<noteq> CHR 0xE2 \<Longrightarrow> html_esc (b @ t) = b @ html_esc t"
  by (induction b) auto

lemma cont_plain: "cont_byte (byte c) \<Longrightarrow> c \<notin> set ''<>&'' \<and> c \<noteq> CHR 0xE2"
  by (auto simp: cont_byte_def)

lemma encode_rune_E2:
  assumes "valid_rune r" "0x80 \<le> r" "CHR 0xE2 \<in> set (encode_rune r)"
  obtains y z where "encode_rune r = [CHR 0xE2, char_of (0x80 + y), char_of (0x80 + z)]"
    "y < 64" "z < 64" "r = 0x2000 + y * 64 + z"
proof -
  have ne: "CHR 0xE2 \<noteq> char_of (0x80 + n mod 64)" for n :: nat
  proof
    assume "CHR 0xE2 = char_of (0x80 + n mod 64)"
    then have "byte CHR 0xE2 = byte (char_of (0x80 + n mod 64))" by (rule arg_cong)
    then show False using mod_64_le [of n] by simp
  qed
  have ne2: "CHR 0xE2 \<noteq> char_of (0xC0 + r div 64)" if "r < 0x800"
  proof
    have "r div 64 < 32" using that by auto
    moreover assume "CHR 0xE2 = char_of (0xC0 + r div 64)"
    then have "byte CHR 0xE2 = byte (char_of (0xC0 + r div 64))" by (rule arg_cong)
    ultimately show False by simp
  qed
  have ne4: "CHR 0xE2 \<noteq> char_of (0xF0 + r div 262144)"
  proof
    have "r div 262144 < 5" using assms(1) by (auto simp: valid_rune_def)
    moreover assume "CHR 0xE2 = char_of (0xF0 + r div 262144)"
    then have "byte CHR 0xE2 = byte (char_of (0xF0 + r div 262144))" by (rule arg_cong)
    ultimately show False by simp
  qed
  have r: "0x800 \<le> r" "r < 0x10000" and E2: "CHR 0xE2 = char_of (0xE0 + r div 4096)"
    using assms ne ne2 ne4 by (auto simp: encode_rune_def split: if_splits)
  have "r div 4096 < 16" using r by auto
  then have "byte (char_of (0xE0 + r div 4096)) = 0xE0 + r div 4096" by simp
  then have 2: "r div 4096 = 2" using E2 [symmetric] by simp
  show thesis
  proof (rule that [of "r div 64 mod 64" "r mod 64"])
    show "encode_rune r = [CHR 0xE2, char_of (0x80 + r div 64 mod 64), char_of (0x80 + r mod 64)]"
      using assms(1) r E2 by (simp add: encode_rune_def)
    show "r = 0x2000 + r div 64 mod 64 * 64 + r mod 64" using div_mod_64_3 [of r] 2 by simp
  qed simp_all
qed

lemma html_esc_encode:
  assumes "valid_rune r" "0x80 \<le> r" "r \<noteq> 0x2028" "r \<noteq> 0x2029"
  shows "html_esc (encode_rune r @ t) = encode_rune r @ html_esc t"
proof (cases "CHR 0xE2 \<in> set (encode_rune r)")
  case False
  have "\<forall>c \<in> set (encode_rune r). c \<notin> set ''<>&''"
    using encode_rune_high [OF assms(2)] by fastforce
  with False have "\<forall>c \<in> set (encode_rune r). c \<notin> set ''<>&'' \<and> c \<noteq> CHR 0xE2" by blast
  then show ?thesis by (rule html_esc_plain)
next
  case True
  then obtain y z where r: "encode_rune r = [CHR 0xE2, char_of (0x80 + y), char_of (0x80 + z)]"
      "y < 64" "z < 64" "r = 0x2000 + y * 64 + z"
    using encode_rune_E2 assms(1,2) by blast
  have y: "byte (char_of (0x80 + y)) = 0x80 + y" and z: "byte (char_of (0x80 + z)) = 0x80 + z"
    using r by simp_all
  have "\<not> (char_of (0x80 + y) = CHR 0x80 \<and> (char_of (0x80 + z) = CHR 0xA8 \<or> char_of (0x80 + z) = CHR 0xA9))"
  proof
    assume A: "char_of (0x80 + y) = CHR 0x80 \<and> (char_of (0x80 + z) = CHR 0xA8 \<or> char_of (0x80 + z) = CHR 0xA9)"
    have "0x80 + y = 0x80" using A y by simp
    moreover have "0x80 + z = 0xA8 \<or> 0x80 + z = 0xA9"
    proof -
      have "byte (char_of (0x80 + z)) = byte CHR 0xA8 \<or> byte (char_of (0x80 + z)) = byte CHR 0xA9"
        using A by metis
      then show ?thesis unfolding z by simp
    qed
    ultimately show False using r(4) assms(3,4) by auto
  qed
  then have "html_esc (encode_rune r @ t) = CHR 0xE2 # html_esc ([char_of (0x80 + y), char_of (0x80 + z)] @ t)"
    using r(1) by auto
  moreover have "\<forall>c \<in> set [char_of (0x80 + y), char_of (0x80 + z)]. c \<notin> set ''<>&'' \<and> c \<noteq> CHR 0xE2"
    using cont_plain y z r(2,3) by (simp add: cont_byte_def)
  ultimately show ?thesis using r(1) html_esc_plain by simp
qed

lemma hex_plain: "is_hex h \<Longrightarrow> h \<notin> set ''<>&'' \<and> h \<noteq> CHR 0xE2 \<and> h \<noteq> backslash"
  by (auto simp: is_hex_def is_digit_def)

lemma html_esc_hex4:
  "is_hex h1 \<Longrightarrow> is_hex h2 \<Longrightarrow> is_hex h3 \<Longrightarrow> is_hex h4 \<Longrightarrow>
   html_esc (CHR ''u'' # h1 # h2 # h3 # h4 # t) = CHR ''u'' # h1 # h2 # h3 # h4 # html_esc t"
  using hex_plain [of h1] hex_plain [of h2] hex_plain [of h3] hex_plain [of h4] by simp

lemma str_run_SHex: "str_run (SHex n) s = Some SIn \<Longrightarrow> \<exists>h t. s = h # t \<and> is_hex h"
  by (cases s) (auto split: if_splits option.splits)

text \<open>The three shapes of a well-formed literal that does not start with a plain character.\<close>

lemma raw_ok_backslash:
  assumes "raw_ok (backslash # cs)"
  obtains (esc) e t where "cs = e # t" "e \<in> set escape_chars" "raw_ok t"
    | (hex) h1 h2 h3 h4 t where "cs = CHR ''u'' # h1 # h2 # h3 # h4 # t" "raw_ok t"
        "is_hex h1" "is_hex h2" "is_hex h3" "is_hex h4"
proof -
  from assms have 1: "str_run SEsc cs = Some SIn" by (simp add: raw_ok_def)
  then obtain e t where cs: "cs = e # t" by (cases cs) auto
  show thesis
  proof (cases "e \<in> set escape_chars")
    case True
    then show thesis using 1 cs esc [of e t] by (simp add: raw_ok_def)
  next
    case False
    show thesis using 1 cs False hex
      by (cases t; cases "tl t"; cases "tl (tl t)"; cases "tl (tl (tl t))")
        (auto simp: raw_ok_def split: if_splits)
  qed
qed

lemma getu4_hex:
  "is_hex h1 \<Longrightarrow> is_hex h2 \<Longrightarrow> is_hex h3 \<Longrightarrow> is_hex h4 \<Longrightarrow>
   getu4 (backslash # CHR ''u'' # h1 # h2 # h3 # h4 # t) =
     Some (((hex_val h1 * 16 + hex_val h2) * 16 + hex_val h3) * 16 + hex_val h4)"
  by (simp add: getu4_def)

lemma html_esc_bs_hex:
  "is_hex h1 \<Longrightarrow> is_hex h2 \<Longrightarrow> is_hex h3 \<Longrightarrow> is_hex h4 \<Longrightarrow>
   html_esc (backslash # CHR ''u'' # h1 # h2 # h3 # h4 # t) = backslash # CHR ''u'' # h1 # h2 # h3 # h4 # html_esc t"
  using html_esc_hex4 [of h1 h2 h3 h4 t] by simp

lemma getu4_not_backslash: "c \<noteq> backslash \<Longrightarrow> getu4 (c # t) = None"
  by (simp add: getu4_def split: list.splits)

lemma escape_not_u: "e \<in> set escape_chars \<Longrightarrow> e \<noteq> CHR ''u'' \<and> e \<notin> set ''<>&'' \<and> e \<noteq> CHR 0xE2"
  by (auto simp: escape_chars_def)

text \<open>The look-ahead for the second half of a surrogate pair is not disturbed.\<close>

lemma getu4_html_esc:
  assumes "raw_ok t"
  shows "Option.bind (getu4 (html_esc t)) (decode_surrogates r) = Option.bind (getu4 t) (decode_surrogates r)"
    and "getu4 t \<noteq> None \<Longrightarrow> html_esc t = take 6 t @ html_esc (drop 6 t) \<and> raw_ok (drop 6 t)"
proof -
  have "Option.bind (getu4 (html_esc t)) (decode_surrogates r) = Option.bind (getu4 t) (decode_surrogates r) \<and>
    (getu4 t \<noteq> None \<longrightarrow> html_esc t = take 6 t @ html_esc (drop 6 t) \<and> raw_ok (drop 6 t))"
  proof (cases t)
    case (Cons c cs)
    show ?thesis
    proof (cases "c = backslash")
      case True
      with assms Cons have "raw_ok (backslash # cs)" by simp
      then show ?thesis
      proof (cases rule: raw_ok_backslash)
        case (esc e t')
        with escape_not_u [of e] Cons True show ?thesis by (simp add: getu4_short)
      next
        case (hex h1 h2 h3 h4 t')
        with Cons True show ?thesis by (simp add: getu4_hex html_esc_bs_hex del: html_esc.simps(2))
      qed
    next
      case False
      then have "getu4 t = None" by (simp add: Cons getu4_not_backslash)
      moreover have "Option.bind (getu4 (html_esc t)) (decode_surrogates r) = None"
        using False by (simp add: Cons getu4_not_backslash getu4_hex decode_surrogates_def)
      ultimately show ?thesis by simp
    qed
  qed (simp add: getu4_def)
  then show "Option.bind (getu4 (html_esc t)) (decode_surrogates r) = Option.bind (getu4 t) (decode_surrogates r)"
    and "getu4 t \<noteq> None \<Longrightarrow> html_esc t = take 6 t @ html_esc (drop 6 t) \<and> raw_ok (drop 6 t)" by blast+
qed

lemma unquote_runes_hex:
  assumes "getu4 (backslash # u @ t) = Some r" "length u = 5"
  shows "unquote_runes (backslash # u @ t) =
    (if is_surrogate r then
       (case Option.bind (getu4 t) (decode_surrogates r) of
          Some d \<Rightarrow> d # unquote_runes (drop 6 t) | None \<Rightarrow> rune_error # unquote_runes t)
     else r # unquote_runes t)"
  using assms by (simp add: numeral_eq_Suc split: option.splits)

lemma encode_separators:
  "encode_rune 0x2028 = [CHR 0xE2, CHR 0x80, CHR 0xA8]" "encode_rune 0x2029 = [CHR 0xE2, CHR 0x80, CHR 0xA9]"
  by (simp_all add: encode_rune_def valid_rune_def char_of_eq_iff take_bit_eq_mod)

text \<open>A literal that starts with a character left as it is: its first rune is read the same way.\<close>

lemma plain_head:
  assumes "raw_ok (c # cs)" "c \<noteq> backslash" "c \<notin> set ''<>&''"
    and sep: "\<not> (c = CHR 0xE2 \<and> (take 2 cs = [CHR 0x80, CHR 0xA8] \<or> take 2 cs = [CHR 0x80, CHR 0xA9]))"
  shows "\<exists>r u t. c # cs = u @ t \<and> u \<noteq> [] \<and> raw_ok t \<and> unquote_runes (c # cs) = r # unquote_runes t \<and>
    unquote_runes (html_esc (c # cs)) = r # unquote_runes (html_esc t)"
proof -
  obtain r n where rn: "decode_rune (c # cs) = (r, n)" by (cases "decode_rune (c # cs)") auto
  define raw t where "raw = c # cs" and "t = drop n raw"
  note defs = raw_def [symmetric]
  consider (one) "n = 1" | (enc) "valid_rune r" "raw = encode_rune r @ t" "n \<noteq> 1"
    using decode_rune_piece [of raw] rn unfolding raw_def t_def
    by (metis append_take_drop_id list.distinct(1) fst_conv snd_conv)
  then show ?thesis
  proof cases
    case one
    have "raw_ok cs" using assms(1,2) by (auto simp: raw_ok_def split: if_splits)
    moreover have "html_esc (c # cs) = c # html_esc cs" using assms(3) sep by auto
    ultimately show ?thesis
      using one rn assms(2) decode_rune_html_esc [of c cs]
      by (intro exI [of _ r] exI [of _ "[c]"] exI [of _ cs])
        (simp add: Let_def del: decode_rune.simps html_esc.simps)
  next
    case enc
    have "snd (decode_rune raw) = length (encode_rune r)"
      by (simp only: enc(2) decode_encode_rune [OF enc(1)] snd_conv)
    with enc(3) rn have "1 \<noteq> length (encode_rune r)" unfolding raw_def by simp
    then have high: "0x80 \<le> r" by (cases "r < 0x80") (simp_all add: encode_rune_def)
    then have plain: "\<forall>x \<in> set (encode_rune r). 0x80 \<le> byte x" by (rule encode_rune_high)
    have "r \<noteq> 0x2028" "r \<noteq> 0x2029"
      using enc(2) sep unfolding raw_def by (auto simp: encode_separators)
    then have "html_esc raw = encode_rune r @ html_esc t"
      using html_esc_encode [OF enc(1) high] enc(2) by simp
    moreover have "raw_ok t" using assms(1) enc(2) str_run_plain [OF plain]
      unfolding defs by (simp add: raw_ok_def str_run_append)
    ultimately show ?thesis
      unfolding defs using unquote_runes_encode [OF enc(1) high] enc(2)
      by (intro exI [of _ r] exI [of _ "encode_rune r"] exI [of _ t]) simp
  qed
qed

lemma unquote_runes_html_esc: "raw_ok raw \<Longrightarrow> unquote_runes (html_esc raw) = unquote_runes raw"
proof (induction "length raw" arbitrary: raw rule: less_induct)
  case less
  show ?case
  proof (cases raw)
    case (Cons c cs)
    consider (bs) "c = backslash"
      | (html) "c \<in> set ''<>&''"
      | (sep) "c = CHR 0xE2" "take 2 cs = [CHR 0x80, CHR 0xA8] \<or> take 2 cs = [CHR 0x80, CHR 0xA9]"
      | (plain) "c \<noteq> backslash" "c \<notin> set ''<>&''"
         "\<not> (c = CHR 0xE2 \<and> (take 2 cs = [CHR 0x80, CHR 0xA8] \<or> take 2 cs = [CHR 0x80, CHR 0xA9]))"
      by blast
    then show ?thesis
    proof cases
      case bs
      with less.prems Cons have "raw_ok (backslash # cs)" by simp
      then show ?thesis
      proof (cases rule: raw_ok_backslash)
        case (esc e t)
        have "unquote_runes (html_esc t) = unquote_runes t"
          by (rule less.hyps) (use esc Cons in simp_all)
        with esc escape_not_u [of e] Cons bs show ?thesis by (simp add: getu4_short)
      next
        case (hex h1 h2 h3 h4 t)
        let ?u = "[CHR ''u'', h1, h2, h3, h4]"
        have t: "unquote_runes (html_esc t) = unquote_runes t"
          by (rule less.hyps) (use hex Cons in simp_all)
        have t6: "unquote_runes (html_esc (drop 6 t)) = unquote_runes (drop 6 t)" if "getu4 t \<noteq> None"
          by (rule less.hyps) (use hex Cons getu4_html_esc(2) [OF hex(2) that] in simp_all)
        obtain r where r: "getu4 (backslash # ?u @ s) = Some r" for s
          using hex by (simp add: getu4_hex)
        have "html_esc raw = backslash # ?u @ html_esc t" and raw: "raw = backslash # ?u @ t"
          using hex Cons bs html_esc_hex4 [of h1 h2 h3 h4 t] by simp_all
        then have "unquote_runes (html_esc raw) = unquote_runes (backslash # ?u @ html_esc t)" by simp
        also have "\<dots> = (if is_surrogate r then
             (case Option.bind (getu4 t) (decode_surrogates r) of
                Some d \<Rightarrow> d # unquote_runes (drop 6 (html_esc t)) | None \<Rightarrow> rune_error # unquote_runes t)
           else r # unquote_runes t)"
          using unquote_runes_hex [OF r, of "html_esc t"] getu4_html_esc(1) [OF hex(2)] t
          by (simp cong: option.case_cong del: unquote_runes.simps)
        also have "\<dots> = (if is_surrogate r then
             (case Option.bind (getu4 t) (decode_surrogates r) of
                Some d \<Rightarrow> d # unquote_runes (drop 6 t) | None \<Rightarrow> rune_error # unquote_runes t)
           else r # unquote_runes t)"
        proof (cases "getu4 t")
          case (Some v)
          then have "5 < length t" by (auto simp: getu4_def split: list.splits)
          with Some t6 getu4_html_esc(2) [OF hex(2)] show ?thesis
            by (simp cong: option.case_cong del: unquote_runes.simps)
        qed simp
        also have "\<dots> = unquote_runes raw"
          using unquote_runes_hex [OF r, of t] raw by (simp del: unquote_runes.simps)
        finally show ?thesis .
      qed
    next
      case html
      then have "raw_ok cs" using less.prems Cons by (auto simp: raw_ok_def)
      then have "unquote_runes (html_esc cs) = unquote_runes cs" using less.hyps Cons by simp
      with html Cons show ?thesis by (auto simp: Let_def getu4_hex is_surrogate_def)
    next
      case sep
      then obtain t x where t: "cs = CHR 0x80 # x # t" "x = CHR 0xA8 \<or> x = CHR 0xA9"
        using take2_split by metis
      then have "raw_ok t" using less.prems Cons sep(1) by (auto simp: raw_ok_def)
      then have "unquote_runes (html_esc t) = unquote_runes t" using less.hyps Cons t by simp
      with t Cons sep(1) show ?thesis
        by (auto simp: Let_def getu4_hex is_surrogate_def second_byte_def cont_byte_def)
    next
      case plain
      with less.prems Cons obtain r u t where t: "raw = u @ t" "u \<noteq> []" "raw_ok t"
          "unquote_runes raw = r # unquote_runes t" "unquote_runes (html_esc raw) = r # unquote_runes (html_esc t)"
        using plain_head [of c cs] by blast
      then show ?thesis using less.hyps [of t] by simp
    qed
  qed simp
qed

lemma unquote_html_esc [simp]: "raw_ok raw \<Longrightarrow> unquote (html_esc raw) = unquote raw"
  by (simp add: unquote_def unquote_runes_html_esc)

end
