(* ===== verification/GoTime.thy ===== *)
theory GoTime
  imports JsonText
begin

text \<open>
  What the program uses of Go's \<^verbatim>\<open>time\<close> package. A \<open>time.Time\<close> is an instant (nanoseconds since
  the Unix epoch) with the offset of its location in seconds (\<open>gotime\<close>). The calendar is the
  proleptic Gregorian one, computed from the day number in 400 year cycles; \<open>format_RFC3339\<close> is
  \<open>Time.MarshalJSON\<close>'s strict RFC 3339 text and \<open>parse_RFC3339\<close> what \<open>Time.UnmarshalJSON\<close>
  accepts (one digit hours and a decimal comma included).

  Lemmas: the date of a day number is a valid date and gives the day number back; the text of a
  time, and any text that parses as one, has no character that JSON escapes; parsing the text of a
  time gives the time back (\<open>parse_format_RFC3339\<close>).
\<close>

section \<open>Instants and dates\<close>

record gotime =
  Nanos :: int
  Offset :: int

definition UTC :: "gotime \<Rightarrow> gotime" where
  "UTC t = t\<lparr>Offset := 0\<rparr>"

text \<open>Go's zero \<open>time.Time\<close>: the first of January of the year 1.\<close>

definition zero_time :: gotime where
  "zero_time = \<lparr>Nanos = - 62135596800 * 1000000000, Offset = 0\<rparr>"

definition leap_year :: "int \<Rightarrow> bool" where
  "leap_year y \<longleftrightarrow> y mod 4 = 0 \<and> (y mod 100 \<noteq> 0 \<or> y mod 400 = 0)"

definition days_in_month :: "int \<Rightarrow> int \<Rightarrow> int" where
  "days_in_month y m =
     (if m = 2 then (if leap_year y then 29 else 28)
      else if m = 4 \<or> m = 6 \<or> m = 9 \<or> m = 11 then 30 else 31)"

text \<open>Day numbers count from 1970-01-01; a cycle of 400 years has 146097 days and years start in March.\<close>

definition day_number :: "int \<Rightarrow> int \<Rightarrow> int \<Rightarrow> int" where
  "day_number y m d =
     (let yy = (if m \<le> 2 then y - 1 else y);
          yoe = yy mod 400;
          doy = (153 * ((m + 9) mod 12) + 2) div 5 + d - 1
      in yy div 400 * 146097 + (yoe * 365 + yoe div 4 - yoe div 100 + doy) - 719468)"

text \<open>The date of a day number: cut off 400, 100, 4 and 1 year cycles, as \<open>time.absDate\<close> does.\<close>

definition year_and_day :: "int \<Rightarrow> int \<times> int" where
  "year_and_day doe =
     (let c = (let n = doe div 36524 in n - n div 4);
          d1 = doe - 36524 * c;
          q = d1 div 1461;
          d2 = d1 mod 1461;
          a = (let n = d2 div 365 in n - n div 4)
      in (100 * c + 4 * q + a, d2 - 365 * a))"

definition date_of :: "int \<Rightarrow> int \<times> int \<times> int" where
  "date_of n =
     (case year_and_day ((n + 719468) mod 146097) of (yoe, doy) \<Rightarrow>
        (let mp = (5 * doy + 2) div 153;
             m = (if mp < 10 then mp + 3 else mp - 9)
         in (yoe + (n + 719468) div 146097 * 400 + (if m \<le> 2 then 1 else 0), m,
             doy - (153 * mp + 2) div 5 + 1)))"

definition wall_seconds :: "gotime \<Rightarrow> int" where
  "wall_seconds t = Nanos t div 1000000000 + Offset t"

definition wall_day :: "gotime \<Rightarrow> int" where
  "wall_day t = wall_seconds t div 86400"

definition year_of :: "gotime \<Rightarrow> int" where
  "year_of t = fst (date_of (wall_day t))"

section \<open>RFC 3339 text\<close>

definition pad :: "nat \<Rightarrow> int \<Rightarrow> string" where
  "pad w n = (let ds = nat_digits (nat n) in replicate (w - length ds) CHR ''0'' @ ds)"

definition fraction_text :: "int \<Rightarrow> string" where
  "fraction_text ns =
     (if ns = 0 then []
      else CHR ''.'' # rev (dropWhile (\<lambda>c. c = CHR ''0'') (rev (pad 9 ns))))"

definition offset_text :: "int \<Rightarrow> string" where
  "offset_text off =
     (if off = 0 then ''Z''
      else (let zone = off sdiv 60; az = \<bar>zone\<bar>
            in (if zone < 0 then CHR ''-'' else CHR ''+'') # pad 2 (az div 60) @ CHR '':'' # pad 2 (az mod 60)))"

definition format_RFC3339 :: "gotime \<Rightarrow> string option" where
  "format_RFC3339 t =
     (case date_of (wall_day t) of (y, m, d) \<Rightarrow>
        (let s = wall_seconds t mod 86400
         in if 0 \<le> y \<and> y \<le> 9999 \<and> \<bar>Offset t sdiv 60\<bar> div 60 < 24
            then Some (pad 4 y @ CHR ''-'' # pad 2 m @ CHR ''-'' # pad 2 d @ CHR ''T'' #
                       pad 2 (s div 3600) @ CHR '':'' # pad 2 (s div 60 mod 60) @ CHR '':'' # pad 2 (s mod 60) @
                       fraction_text (Nanos t mod 1000000000) @ offset_text (Offset t))
            else None))"

text \<open>A number of exactly \<open>w\<close> digits at the start, one of one or two digits, a literal character.\<close>

definition take_digits :: "nat \<Rightarrow> string \<Rightarrow> (int \<times> string) option" where
  "take_digits w s =
     (if w \<le> length s \<and> list_all is_digit (take w s)
      then Some (int (digits_value (take w s)), drop w s) else None)"

definition take_hour :: "string \<Rightarrow> (int \<times> string) option" where
  "take_hour s = (case take_digits 2 s of Some r \<Rightarrow> Some r | None \<Rightarrow> take_digits 1 s)"

definition take_char :: "char \<Rightarrow> string \<Rightarrow> string option" where
  "take_char c s = (case s of [] \<Rightarrow> None | x # xs \<Rightarrow> if x = c then Some xs else None)"

definition in_bounds :: "int \<Rightarrow> int \<Rightarrow> int \<times> string \<Rightarrow> (int \<times> string) option" where
  "in_bounds lo hi r = (if lo \<le> fst r \<and> fst r \<le> hi then Some r else None)"

definition take_fraction :: "string \<Rightarrow> int \<times> string" where
  "take_fraction s =
     (if 2 \<le> length s \<and> (hd s = CHR ''.'' \<or> hd s = CHR '','') \<and> is_digit (s ! 1)
      then (let ds = takeWhile is_digit (tl s); nine = take 9 ds
            in (int (digits_value nine) * 10 ^ (9 - length nine), dropWhile is_digit (tl s)))
      else (0, s))"

definition take_offset :: "string \<Rightarrow> (int \<times> string) option" where
  "take_offset s =
     (if s \<noteq> [] \<and> hd s = CHR ''Z'' then Some (0, tl s)
      else if length s < 6 \<or> s ! 3 \<noteq> CHR '':'' then None
      else Option.bind (take_digits 2 (drop 1 s)) (\<lambda>(hh, _).
           Option.bind (take_digits 2 (drop 4 s)) (\<lambda>(mm, r).
             if hh > 24 \<or> mm > 60 then None
             else if hd s = CHR ''+'' then Some ((hh * 60 + mm) * 60, r)
             else if hd s = CHR ''-'' then Some (- ((hh * 60 + mm) * 60), r)
             else None)))"

definition parse_RFC3339 :: "string \<Rightarrow> gotime option" where
  "parse_RFC3339 s =
     Option.bind (take_digits 4 s) (\<lambda>(y, s).
     Option.bind (take_char CHR ''-'' s) (\<lambda>s.
     Option.bind (Option.bind (take_digits 2 s) (in_bounds 1 12)) (\<lambda>(m, s).
     Option.bind (take_char CHR ''-'' s) (\<lambda>s.
     Option.bind (take_digits 2 s) (\<lambda>(d, s).
     Option.bind (take_char CHR ''T'' s) (\<lambda>s.
     Option.bind (Option.bind (take_hour s) (in_bounds 0 23)) (\<lambda>(hh, s).
     Option.bind (take_char CHR '':'' s) (\<lambda>s.
     Option.bind (Option.bind (take_digits 2 s) (in_bounds 0 59)) (\<lambda>(mi, s).
     Option.bind (take_char CHR '':'' s) (\<lambda>s.
     Option.bind (Option.bind (take_digits 2 s) (in_bounds 0 59)) (\<lambda>(se, s).
     (case take_fraction s of (ns, s) \<Rightarrow>
     Option.bind (take_offset s) (\<lambda>(off, s).
       if s \<noteq> [] \<or> d < 1 \<or> d > days_in_month y m then None
       else Some \<lparr>Nanos = (day_number y m d * 86400 + hh * 3600 + mi * 60 + se - off) * 1000000000 + ns,
                  Offset = off\<rparr>)))))))))))))"

section \<open>Lemmas\<close>

lemma year_and_day_props:
  assumes "0 \<le> doe" "doe < 146097" "year_and_day doe = (yoe, doy)"
  shows "0 \<le> yoe \<and> yoe \<le> 399 \<and> 0 \<le> doy \<and> doy \<le> 365 \<and>
    yoe * 365 + yoe div 4 - yoe div 100 + doy = doe"
proof -
  define n where "n = doe div 36524"
  define c where "c = n - n div 4"
  define d1 where "d1 = doe - 36524 * c"
  define q where "q = d1 div 1461"
  define d2 where "d2 = d1 mod 1461"
  define k where "k = d2 div 365"
  define a where "a = k - k div 4"
  note defs = n_def c_def d1_def q_def d2_def k_def a_def
  have r: "yoe = 100 * c + 4 * q + a" "doy = d2 - 365 * a"
    using assms(3) by (simp_all add: year_and_day_def Let_def defs)
  have n: "0 \<le> n" "n \<le> 4" "36524 * n \<le> doe" "doe < 36524 * n + 36524"
    using assms(1,2) unfolding n_def by linarith+
  moreover have n4: "n div 4 = (if n = 4 then 1 else 0)" using n by simp
  ultimately have c: "0 \<le> c" "c \<le> 3" "0 \<le> d1" "d1 \<le> 36524"
    using assms(2) unfolding d1_def c_def n4 by (cases "n = 4"; simp)+
  have d: "d1 = 1461 * q + d2" "0 \<le> d2" "d2 < 1461" unfolding q_def d2_def by simp_all
  then have q: "0 \<le> q" "q \<le> 24" "0 \<le> d2" "d2 \<le> 1460" "d1 = 1461 * q + d2"
    using c by linarith+
  have k: "0 \<le> k" "k \<le> 4" "365 * k \<le> d2" "d2 < 365 * k + 365"
    using q(3,4) unfolding k_def by linarith+
  moreover have k4: "k div 4 = (if k = 4 then 1 else 0)" using k by simp
  ultimately have a: "0 \<le> a" "a \<le> 3" "0 \<le> doy" "doy \<le> 365"
    using q(4) unfolding r(2) a_def k4 by (cases "k = 4"; simp)+
  have "yoe = 4 * (25 * c + q) + a" "yoe = 100 * c + (4 * q + a)" using r(1) by simp_all
  then have "yoe div 4 = 25 * c + q" and "yoe div 100 = c"
    using q(1,2) a(1,2) by simp_all
  then show ?thesis using r c q a unfolding d1_def by simp
qed

lemma month_props:
  fixes doy :: int
  assumes "0 \<le> doy" "doy \<le> 365"
  defines "mp \<equiv> (5 * doy + 2) div 153"
  shows "0 \<le> mp" "mp \<le> 11" "1 \<le> doy - (153 * mp + 2) div 5 + 1" "doy - (153 * mp + 2) div 5 + 1 \<le> 31"
proof -
  show mp: "0 \<le> mp" "mp \<le> 11" using assms unfolding mp_def by linarith+
  have *: "153 * mp \<le> 5 * doy + 2" "5 * doy + 2 < 153 * mp + 153"
    unfolding mp_def by linarith+
  show "1 \<le> doy - (153 * mp + 2) div 5 + 1" "doy - (153 * mp + 2) div 5 + 1 \<le> 31"
    using * by linarith+
qed

lemma date_of_bounds:
  assumes "date_of n = (y, m, d)"
  shows "1 \<le> m \<and> m \<le> 12 \<and> 1 \<le> d \<and> d \<le> 31"
proof -
  obtain yoe doy where yd: "year_and_day ((n + 719468) mod 146097) = (yoe, doy)" by fastforce
  have "0 \<le> doy \<and> doy \<le> 365" using year_and_day_props [OF _ _ yd] by simp
  then show ?thesis using assms yd month_props [of doy] by (auto simp: date_of_def Let_def split: if_splits)
qed

text \<open>The date of a day has that day as its number.\<close>

lemma day_number_date_of:
  assumes "date_of n = (y, m, d)"
  shows "day_number y m d = n"
proof -
  obtain yoe doy where yd: "year_and_day ((n + 719468) mod 146097) = (yoe, doy)" by fastforce
  define mp where "mp = (5 * doy + 2) div 153"
  define era where "era = (n + 719468) div 146097"
  have p: "0 \<le> yoe" "yoe \<le> 399" "0 \<le> doy" "doy \<le> 365"
      "yoe * 365 + yoe div 4 - yoe div 100 + doy = (n + 719468) mod 146097"
    using year_and_day_props [OF _ _ yd] by simp_all
  have mp: "0 \<le> mp" "mp \<le> 11" using month_props [of doy] p(3,4) unfolding mp_def by blast+
  have ymd: "m = (if mp < 10 then mp + 3 else mp - 9)" "y = yoe + era * 400 + (if m \<le> 2 then 1 else 0)"
    and d: "d = doy - (153 * mp + 2) div 5 + 1"
    using assms unfolding date_of_def yd era_def [symmetric] Let_def mp_def [symmetric] prod.case prod.inject
    by blast+
  have y: "(if m \<le> 2 then y - 1 else y) = yoe + era * 400" unfolding ymd(2) by simp
  have m: "(m + 9) mod 12 = mp" unfolding ymd(1) using mp by (cases "mp < 10") simp_all
  have ye: "(yoe + era * 400) mod 400 = yoe" "(yoe + era * 400) div 400 = era" using p(1,2) by simp_all
  have e: "era * 146097 + (n + 719468) mod 146097 = n + 719468"
    unfolding era_def by (rule div_mult_mod_eq)
  have "era * 146097 + (a + (f + (doy - f + 1) - 1)) - 719468 = n" if "a + doy = (n + 719468) mod 146097" for a f
    using that e by simp
  then show ?thesis
    unfolding day_number_def y m Let_def ye d using p(5) by simp
qed

section \<open>Text of times\<close>

definition plain_char :: "char \<Rightarrow> bool" where
  "plain_char c \<longleftrightarrow> 0x20 \<le> byte c \<and> byte c < 0x80 \<and> c \<noteq> backslash \<and> c \<noteq> quote_char \<and>
     c \<noteq> CHR ''<'' \<and> c \<noteq> CHR ''>'' \<and> c \<noteq> CHR ''&''"

lemma plain_chars [simp]:
  "plain_char CHR ''-''" "plain_char CHR ''+''" "plain_char CHR '':''" "plain_char CHR ''T''"
  "plain_char CHR ''Z''" "plain_char CHR ''.''" "plain_char CHR '',''" "plain_char CHR ''0''"
  by (simp add: plain_char_def)+

lemma plain_char_digit [simp]: "is_digit c \<Longrightarrow> plain_char c"
  by (auto simp: plain_char_def is_digit_def)

lemma plain_charD:
  "plain_char c \<Longrightarrow> c \<noteq> CHR ''<'' \<and> c \<noteq> CHR ''>'' \<and> c \<noteq> CHR ''&'' \<and> c \<noteq> CHR 0xE2 \<and> c \<noteq> backslash \<and>
     c \<noteq> quote_char \<and> \<not> byte c < 0x20"
  unfolding plain_char_def by (intro conjI) (simp | rule notI, simp)+

lemma not_plain_backslash [simp]: "\<not> plain_char backslash"
  by (simp add: plain_char_def)

lemma html_esc_plain_chars: "list_all plain_char s \<Longrightarrow> html_esc s = s"
proof (induction s)
  case (Cons c s)
  then show ?case using plain_charD [of c] by simp
qed simp

lemma plain_chars_html_esc: "list_all plain_char (html_esc s) \<Longrightarrow> list_all plain_char s"
  by (induction s rule: html_esc.induct) (simp_all split: if_splits)

lemma raw_ok_plain_chars: "list_all plain_char s \<Longrightarrow> raw_ok s"
proof -
  have "list_all plain_char s \<Longrightarrow> str_run SIn s = Some SIn"
  proof (induction s)
    case (Cons c s)
    then show ?case using plain_charD [of c] by simp
  qed simp
  then show "list_all plain_char s \<Longrightarrow> raw_ok s" by (simp add: raw_ok_def)
qed

lemma list_all_digits_plain: "list_all is_digit s \<Longrightarrow> list_all plain_char s"
  by (auto simp: list_all_iff)

lemma take_digits_plain: "take_digits w s = Some (v, r) \<Longrightarrow> list_all plain_char r \<Longrightarrow> list_all plain_char s"
  using list_all_append [of plain_char "take w s" "drop w s"] list_all_digits_plain [of "take w s"]
  by (simp add: take_digits_def split: if_splits)

lemma take_hour_plain: "take_hour s = Some (v, r) \<Longrightarrow> list_all plain_char r \<Longrightarrow> list_all plain_char s"
  by (auto simp: take_hour_def split: option.splits intro: take_digits_plain)

lemma take_char_plain: "take_char c s = Some r \<Longrightarrow> plain_char c \<Longrightarrow> list_all plain_char r \<Longrightarrow> list_all plain_char s"
  by (auto simp: take_char_def split: list.splits if_splits)

lemma take_fraction_plain: "take_fraction s = (v, r) \<Longrightarrow> list_all plain_char r \<Longrightarrow> list_all plain_char s"
proof -
  assume 1: "take_fraction s = (v, r)" "list_all plain_char r"
  have "list_all is_digit (takeWhile is_digit ds)" for ds by (induction ds) auto
  then have "list_all plain_char (dropWhile is_digit ds) \<Longrightarrow> list_all plain_char ds" for ds
    using takeWhile_dropWhile_id [of is_digit ds] list_all_digits_plain by (metis list_all_append)
  with 1 show ?thesis
    by (cases s) (auto simp: take_fraction_def Let_def split: if_splits)
qed

lemma take_offset_plain: "take_offset s = Some (v, []) \<Longrightarrow> list_all plain_char s"
proof -
  assume 1: "take_offset s = Some (v, [])"
  show ?thesis
  proof (cases "s \<noteq> [] \<and> hd s = CHR ''Z''")
    case True
    with 1 show ?thesis by (cases s) (auto simp: take_offset_def)
  next
    case False
    with 1 have l: "6 \<le> length s" "s ! 3 = CHR '':''" "hd s = CHR ''+'' \<or> hd s = CHR ''-''"
      and d: "list_all is_digit (take 2 (drop 1 s))" "list_all is_digit (take 2 (drop 4 s))" "drop 6 s = []"
      by (auto simp: take_offset_def bind_eq_Some_conv take_digits_def split: if_splits)
    obtain a b c d' e f where s: "s = [a, b, c, d', e, f]"
      using l(1) d(3) by (auto simp: numeral_eq_Suc length_Suc_conv le_Suc_eq)
    show ?thesis using l d s by (auto simp: numeral_eq_Suc)
  qed
qed

text \<open>A parser reads only plain characters.\<close>

definition reads_plain :: "(string \<Rightarrow> 'a option) \<Rightarrow> bool" where
  "reads_plain p \<longleftrightarrow> (\<forall>s r. p s = Some r \<longrightarrow> list_all plain_char s)"

lemma reads_plainI: "(\<And>s r. p s = Some r \<Longrightarrow> list_all plain_char s) \<Longrightarrow> reads_plain p"
  by (simp add: reads_plain_def)

lemma reads_plainD: "reads_plain p \<Longrightarrow> p s = Some r \<Longrightarrow> list_all plain_char s"
  by (simp add: reads_plain_def)

lemma reads_plain_bind:
  assumes "\<And>s v r. p s = Some (v, r) \<Longrightarrow> list_all plain_char r \<Longrightarrow> list_all plain_char s"
    and "\<And>v. reads_plain (k v)"
  shows "reads_plain (\<lambda>s. Option.bind (p s) (\<lambda>(v, r). k v r))"
proof (rule reads_plainI)
  fix s x
  assume "Option.bind (p s) (\<lambda>(v, r). k v r) = Some x"
  then obtain v r where "p s = Some (v, r)" "k v r = Some x" by (auto simp: bind_eq_Some_conv)
  then show "list_all plain_char s" using assms(1) reads_plainD [OF assms(2)] by blast
qed

lemma take_digits_bounds_plain:
  "Option.bind (take_digits w s) (in_bounds lo hi) = Some (v, r) \<Longrightarrow> list_all plain_char r \<Longrightarrow> list_all plain_char s"
  by (auto simp: bind_eq_Some_conv in_bounds_def split: if_splits intro: take_digits_plain)

lemma take_hour_bounds_plain:
  "Option.bind (take_hour s) (in_bounds lo hi) = Some (v, r) \<Longrightarrow> list_all plain_char r \<Longrightarrow> list_all plain_char s"
  by (auto simp: bind_eq_Some_conv in_bounds_def split: if_splits intro: take_hour_plain)

lemmas reads_plain_binds =
  reads_plain_bind [OF take_digits_plain] reads_plain_bind [OF take_digits_bounds_plain]
  reads_plain_bind [OF take_hour_bounds_plain]

lemma reads_plain_fraction:
  assumes "\<And>v. reads_plain (k v)"
  shows "reads_plain (\<lambda>s. case take_fraction s of (v, r) \<Rightarrow> k v r)"
proof (rule reads_plainI)
  fix s x
  obtain v r where "take_fraction s = (v, r)" by fastforce
  moreover assume "(case take_fraction s of (v, r) \<Rightarrow> k v r) = Some x"
  ultimately show "list_all plain_char s" using take_fraction_plain reads_plainD [OF assms] by simp
qed

lemma reads_plain_char:
  assumes "plain_char c" "reads_plain k"
  shows "reads_plain (\<lambda>s. Option.bind (take_char c s) k)"
proof (rule reads_plainI)
  fix s x
  assume "Option.bind (take_char c s) k = Some x"
  then obtain r where "take_char c s = Some r" "k r = Some x" by (auto simp: bind_eq_Some_conv)
  then show "list_all plain_char s" using take_char_plain assms(1) reads_plainD [OF assms(2)] by blast
qed

lemma reads_plain_offset:
  "reads_plain (\<lambda>s. Option.bind (take_offset s) (\<lambda>(v, r). if r \<noteq> [] \<or> P v then None else Some (f v)))"
  using take_offset_plain by (fastforce simp: reads_plain_def bind_eq_Some_conv split: if_splits)

lemma reads_plain_parse_RFC3339: "reads_plain (\<lambda>s. parse_RFC3339 s)"
  unfolding parse_RFC3339_def
  by (intro reads_plain_binds reads_plain_char reads_plain_fraction reads_plain_offset plain_chars)

lemma parse_RFC3339_plain: "parse_RFC3339 s = Some t \<Longrightarrow> list_all plain_char s"
  using reads_plain_parse_RFC3339 by (auto simp: reads_plain_def)

lemma parse_RFC3339_not_plain: "\<not> list_all plain_char s \<Longrightarrow> parse_RFC3339 s = None"
  using parse_RFC3339_plain by (metis option.exhaust)

lemma pad_plain: "list_all plain_char (pad w n)"
  by (auto simp: pad_def Let_def list_all_digits_plain list_all_iff
      dest!: nat_digits_digits [THEN list_all_digits_plain, unfolded list_all_iff, rule_format])

lemma fraction_text_plain: "list_all plain_char (fraction_text ns)"
  using pad_plain [of 9 ns] by (auto simp: fraction_text_def list_all_iff dest!: set_dropWhileD)

lemma offset_text_plain: "list_all plain_char (offset_text off)"
  by (simp add: offset_text_def Let_def pad_plain)

lemma format_RFC3339_plain: "format_RFC3339 t = Some s \<Longrightarrow> list_all plain_char s"
  by (auto simp: format_RFC3339_def Let_def pad_plain fraction_text_plain offset_text_plain split: prod.splits if_splits)

section \<open>The text of a time reads back\<close>

lemma digits_value_append: "digits_value (a @ b) = digits_value a * 10 ^ length b + digits_value b"
proof (induction b rule: rev_induct)
  case (snoc c b)
  then show ?case
    by (simp add: digits_value_snoc algebra_simps flip: append_assoc)
qed (simp add: digits_value_def)

lemma digits_value_zeros [simp]: "digits_value (replicate k CHR ''0'') = 0"
  by (induction k) (simp_all add: digits_value_def)

lemma length_nat_digits: "n < 10 ^ w \<Longrightarrow> 0 < w \<Longrightarrow> length (nat_digits n) \<le> w"
proof (induction n arbitrary: w rule: nat_digits.induct)
  case (1 n)
  show ?case
  proof (cases "n < 10")
    case True
    then show ?thesis using 1 by (subst nat_digits.simps) simp
  next
    case False
    with 1 obtain v where v: "w = Suc v" "0 < v" by (cases w; cases "w = 1") auto
    then have "n div 10 < 10 ^ v" using 1 by auto
    with 1 False v show ?thesis by (subst nat_digits.simps) simp
  qed
qed

lemma pad_props:
  assumes "0 \<le> n" "n < 10 ^ w" "0 < w"
  shows "length (pad w n) = w" "list_all is_digit (pad w n)" "int (digits_value (pad w n)) = n"
proof -
  have "nat n < 10 ^ w" using assms by (simp add: nat_less_iff)
  then have "length (nat_digits (nat n)) \<le> w" using assms(3) by (rule length_nat_digits)
  then show "length (pad w n) = w" by (simp add: pad_def Let_def)
  have "list_all is_digit (replicate k CHR ''0'')" for k by (simp add: list_all_iff is_digit_def)
  then show "list_all is_digit (pad w n)" by (simp add: pad_def Let_def)
  show "int (digits_value (pad w n)) = n" using assms(1) by (simp add: pad_def Let_def digits_value_append)
qed

lemma take_digits_pad:
  "0 \<le> n \<Longrightarrow> n < 10 ^ w \<Longrightarrow> 0 < w \<Longrightarrow> take_digits w (pad w n @ r) = Some (n, r)"
  using pad_props [of n w] by (simp add: take_digits_def)

lemma take_hour_pad: "0 \<le> n \<Longrightarrow> n < 100 \<Longrightarrow> take_hour (pad 2 n @ r) = Some (n, r)"
  by (simp add: take_hour_def take_digits_pad)

lemma dropWhile_rev_zeros:
  "\<exists>k. ds = rev (dropWhile (\<lambda>c. c = CHR ''0'') (rev ds)) @ replicate k CHR ''0''"
proof -
  have "\<exists>k. xs = replicate k CHR ''0'' @ dropWhile (\<lambda>c. c = CHR ''0'') xs" for xs
  proof (induction xs)
    case (Cons x xs)
    then obtain k where "xs = replicate k CHR ''0'' @ dropWhile (\<lambda>c. c = CHR ''0'') xs" by blast
    then show ?case by (cases "x = CHR ''0''") (auto intro: exI [of _ "Suc k"] exI [of _ 0])
  qed simp
  then obtain k where "rev ds = replicate k CHR ''0'' @ dropWhile (\<lambda>c. c = CHR ''0'') (rev ds)" by blast
  then have "rev (rev ds) = rev (replicate k CHR ''0'' @ dropWhile (\<lambda>c. c = CHR ''0'') (rev ds))" by (rule arg_cong)
  then show ?thesis by auto
qed

lemma takeWhile_digits:
  "list_all is_digit s \<Longrightarrow> r = [] \<or> \<not> is_digit (hd r) \<Longrightarrow> takeWhile is_digit (s @ r) = s \<and> dropWhile is_digit (s @ r) = r"
  by (induction s) (cases r; auto)+

lemma take_fraction_text:
  assumes "0 \<le> ns" "ns < 10 ^ 9" "r \<noteq> []" "hd r = CHR ''Z'' \<or> hd r = CHR ''+'' \<or> hd r = CHR ''-''"
  shows "take_fraction (fraction_text ns @ r) = (ns, r)"
proof (cases "ns = 0")
  case True
  with assms show ?thesis by (cases r) (auto simp: fraction_text_def take_fraction_def)
next
  case False
  define s where "s = rev (dropWhile (\<lambda>c. c = CHR ''0'') (rev (pad 9 ns)))"
  note p = pad_props [of ns 9, OF assms(1,2)]
  obtain k where k: "pad 9 ns = s @ replicate k CHR ''0''" using dropWhile_rev_zeros unfolding s_def by blast
  have len: "length s + k = 9" using p(1) k by (metis length_append length_replicate zero_less_numeral)
  have dig: "list_all is_digit s" using p(2) k by simp
  have val: "int (digits_value s) * 10 ^ k = ns"
    using p(3) k by (simp add: digits_value_append)
  have ne: "s \<noteq> []" using val False by (auto simp: digits_value_def)
  then obtain c cs where c: "s = c # cs" "is_digit c" using dig by (cases s) auto
  have "\<not> is_digit (hd r)" using assms(4) by (auto simp: is_digit_def)
  then have "takeWhile is_digit (s @ r) = s" "dropWhile is_digit (s @ r) = r"
    using takeWhile_digits [OF dig] by blast+
  moreover have "k = 9 - length s" "length s \<le> 9" using len by simp_all
  moreover have "fraction_text ns = CHR ''.'' # s" using False by (simp add: fraction_text_def s_def)
  ultimately show ?thesis using val c by (simp add: take_fraction_def Let_def)
qed

lemma take_offset_text:
  assumes "off mod 60 = 0" "\<bar>off sdiv 60\<bar> div 60 < 24"
  shows "take_offset (offset_text off) = Some (off, [])"
proof (cases "off = 0")
  case True
  then show ?thesis by (simp add: offset_text_def take_offset_def)
next
  case False
  define z where "z = off div 60"
  have off: "off = 60 * z" using assms(1) mult_div_mod_eq [of 60 off] unfolding z_def by simp
  have sz: "off sdiv 60 = z" unfolding off by (simp add: signed_divide_int_def sgn_mult abs_mult mult_sgn_abs)
  define hh mm where "hh = \<bar>z\<bar> div 60" and "mm = \<bar>z\<bar> mod 60"
  have b: "0 \<le> hh" "hh < 24" "0 \<le> mm" "mm < 60" "\<bar>z\<bar> = hh * 60 + mm"
    using assms(2) unfolding hh_def mm_def sz by simp_all
  have ph: "length (pad 2 hh) = 2" "length (pad 2 mm) = 2" using b pad_props(1) [of _ 2] by simp_all
  obtain h1 h2 where h: "pad 2 hh = [h1, h2]" using ph(1) by (auto simp: numeral_eq_Suc length_Suc_conv)
  have t: "offset_text off = (if z < 0 then CHR ''-'' else CHR ''+'') # pad 2 hh @ CHR '':'' # pad 2 mm"
    using False by (simp add: offset_text_def sz Let_def hh_def mm_def)
  have d1: "take_digits 2 (drop 1 (offset_text off)) = Some (hh, CHR '':'' # pad 2 mm)"
    unfolding t using take_digits_pad [of hh 2 "CHR '':'' # pad 2 mm"] b by simp
  have d2: "take_digits 2 (drop 4 (offset_text off)) = Some (mm, [])"
    unfolding t using take_digits_pad [of mm 2 "[]"] b h by simp
  have "length (offset_text off) = 6" "offset_text off ! 3 = CHR '':''"
    "hd (offset_text off) = (if z < 0 then CHR ''-'' else CHR ''+'')"
    unfolding t using h ph by simp_all
  then show ?thesis
    using d1 d2 b off by (auto simp: take_offset_def)
qed

lemma year_and_day_cycles:
  assumes "0 \<le> doe" "doe < 146097" "year_and_day doe = (yoe, 365)"
  shows "leap_year (yoe + 1)"
proof -
  define n where "n = doe div 36524"
  define c where "c = n - n div 4"
  define d1 where "d1 = doe - 36524 * c"
  define q where "q = d1 div 1461"
  define d2 where "d2 = d1 mod 1461"
  define k where "k = d2 div 365"
  define a where "a = k - k div 4"
  note defs = n_def c_def d1_def q_def d2_def k_def a_def
  have r: "yoe = 100 * c + 4 * q + a" "d2 - 365 * a = 365"
    using assms(3) by (simp_all add: year_and_day_def Let_def defs)
  have n: "0 \<le> n" "n \<le> 4" "36524 * n \<le> doe" "doe < 36524 * n + 36524"
    using assms(1,2) unfolding n_def by linarith+
  moreover have n4: "n div 4 = (if n = 4 then 1 else 0)" using n by simp
  ultimately have c: "0 \<le> c" "c \<le> 3" "0 \<le> d1" "d1 \<le> 36524" "d1 = 36524 \<longrightarrow> c = 3"
    using assms(2) unfolding d1_def c_def n4 by (cases "n = 4"; simp)+
  have d: "d1 = 1461 * q + d2" "0 \<le> d2" "d2 < 1461" unfolding q_def d2_def by simp_all
  then have q: "0 \<le> q" "q \<le> 24" using c by linarith+
  have k: "0 \<le> k" "k \<le> 4" "365 * k \<le> d2" "d2 < 365 * k + 365"
    using d(2,3) unfolding k_def by linarith+
  moreover have k4: "k div 4 = (if k = 4 then 1 else 0)" using k by simp
  ultimately have a: "a = 3" "d2 = 1460"
    using r(2) d(3) unfolding a_def k4 by (cases "k = 4"; simp)+
  show ?thesis
  proof (cases "q = 24")
    case True
    then have "c = 3" using c(5) d(1) a(2) by simp
    with True a r show ?thesis by (simp add: leap_year_def)
  next
    case False
    have y: "yoe + 1 = 4 * (25 * c + (q + 1))" "yoe + 1 = 100 * c + 4 * (q + 1)" using a r by simp_all
    have "(yoe + 1) mod 4 = 0" unfolding y(1) by simp
    moreover have "(yoe + 1) mod 100 = 4 * (q + 1)" unfolding y(2) using q False by simp
    ultimately show ?thesis using q(1) by (simp add: leap_year_def)
  qed
qed

lemma leap_year_era [simp]: "leap_year (y + k * 400) = leap_year y"
proof -
  have "(y + k * 400) mod 4 = y mod 4" using mod_mult_self1 [of y "k * 100" 4] by (simp add: mult.assoc)
  moreover have "(y + k * 400) mod 100 = y mod 100" using mod_mult_self1 [of y "k * 4" 100] by (simp add: mult.assoc)
  ultimately show ?thesis by (simp add: leap_year_def)
qed

lemma month_length:
  fixes doy :: int
  assumes "0 \<le> doy" "doy \<le> 365"
  defines "mp \<equiv> (5 * doy + 2) div 153"
  shows "mp \<in> {1, 3, 6, 8} \<Longrightarrow> doy - (153 * mp + 2) div 5 + 1 \<le> 30"
    and "mp = 11 \<Longrightarrow> doy - (153 * mp + 2) div 5 + 1 \<le> (if doy = 365 then 29 else 28)"
proof -
  have *: "5 * doy + 2 < 153 * mp + 153" unfolding mp_def by linarith
  show "mp \<in> {1, 3, 6, 8} \<Longrightarrow> doy - (153 * mp + 2) div 5 + 1 \<le> 30" using * by auto
  show "mp = 11 \<Longrightarrow> doy - (153 * mp + 2) div 5 + 1 \<le> (if doy = 365 then 29 else 28)" using assms(2) by auto
qed

text \<open>The day of a date is a day of its month.\<close>

lemma date_of_valid:
  assumes "date_of n = (y, m, d)"
  shows "d \<le> days_in_month y m"
proof -
  obtain yoe doy where yd: "year_and_day ((n + 719468) mod 146097) = (yoe, doy)" by fastforce
  define mp where "mp = (5 * doy + 2) div 153"
  define era where "era = (n + 719468) div 146097"
  have p: "0 \<le> doy" "doy \<le> 365" using year_and_day_props [OF _ _ yd] by simp_all
  have mp: "0 \<le> mp" "mp \<le> 11" using month_props [of doy] p unfolding mp_def by blast+
  have ymd: "m = (if mp < 10 then mp + 3 else mp - 9)" "y = yoe + era * 400 + (if m \<le> 2 then 1 else 0)"
    and d: "d = doy - (153 * mp + 2) div 5 + 1"
    using assms unfolding date_of_def yd era_def [symmetric] Let_def mp_def [symmetric] prod.case prod.inject
    by blast+
  note len = month_length [OF p, folded mp_def, folded d]
  show ?thesis
  proof (cases "m = 2")
    case True
    then have 11: "mp = 11" and y: "y = (yoe + 1) + era * 400" using ymd mp by (auto split: if_splits)
    have "leap_year y" if "doy = 365"
      unfolding y leap_year_era
      using year_and_day_cycles [of "(n + 719468) mod 146097" yoe] yd that by simp
    then show ?thesis using len(2) [OF 11] True by (auto simp: days_in_month_def split: if_splits)
  next
    case False
    show ?thesis
    proof (cases "m \<in> {4, 6, 9, 11}")
      case True
      then have "mp \<in> {1, 3, 6, 8}" using ymd(1) mp by (auto split: if_splits)
      then show ?thesis using len(1) True by (auto simp: days_in_month_def)
    next
      case False': False
      then show ?thesis using date_of_bounds [OF assms] False by (auto simp: days_in_month_def)
    qed
  qed
qed

text \<open>What \<open>MarshalJSON\<close> writes, \<open>UnmarshalJSON\<close> reads back as the same instant and offset.\<close>

lemma hd_offset_text: "offset_text off \<noteq> [] \<and> (hd (offset_text off) = CHR ''Z'' \<or>
    hd (offset_text off) = CHR ''+'' \<or> hd (offset_text off) = CHR ''-'')"
  by (simp add: offset_text_def Let_def)

lemma parse_format_RFC3339:
  assumes "format_RFC3339 t = Some s" "Offset t mod 60 = 0"
  shows "parse_RFC3339 s = Some t"
proof -
  define w where "w = wall_seconds t"
  define ns where "ns = Nanos t mod 1000000000"
  obtain y m d where date: "date_of (wall_day t) = (y, m, d)" by (metis prod_cases3)
  have cond: "0 \<le> y" "y \<le> 9999" "\<bar>Offset t sdiv 60\<bar> div 60 < 24"
    and s: "s = pad 4 y @ CHR ''-'' # pad 2 m @ CHR ''-'' # pad 2 d @ CHR ''T'' #
        pad 2 (w mod 86400 div 3600) @ CHR '':'' # pad 2 (w mod 86400 div 60 mod 60) @ CHR '':'' #
        pad 2 (w mod 86400 mod 60) @ fraction_text ns @ offset_text (Offset t)"
    using assms(1) date by (auto simp: format_RFC3339_def Let_def w_def ns_def split: if_splits)
  have md: "1 \<le> m" "m \<le> 12" "1 \<le> d" "d \<le> 31" "d \<le> days_in_month y m"
    using date_of_bounds [OF date] date_of_valid [OF date] by simp_all
  define r hh mi se where "r = w mod 86400" and "hh = r div 3600" and "mi = r div 60 mod 60" and "se = r mod 60"
  have r: "0 \<le> r" "r < 86400" unfolding r_def by simp_all
  have hms: "0 \<le> hh" "hh \<le> 23" "0 \<le> mi" "mi \<le> 59" "0 \<le> se" "se \<le> 59"
    using r unfolding hh_def mi_def se_def by linarith+
  have ns: "0 \<le> ns" "ns < 10 ^ 9" unfolding ns_def by simp_all
  have "r = hh * 3600 + mi * 60 + se"
  proof -
    have "r div 60 div 60 = r div 3600" by (simp flip: div_mult2_eq)
    then have "r div 60 = hh * 60 + mi" unfolding hh_def mi_def by (metis div_mult_mod_eq)
    moreover have "r = r div 60 * 60 + se" unfolding se_def by simp
    ultimately show ?thesis by simp
  qed
  moreover have "day_number y m d * 86400 + r = w"
    using day_number_date_of [OF date] unfolding wall_day_def r_def w_def by simp
  ultimately have "(day_number y m d * 86400 + hh * 3600 + mi * 60 + se - Offset t) = Nanos t div 1000000000"
    unfolding w_def wall_seconds_def by simp
  then have nanos: "(day_number y m d * 86400 + hh * 3600 + mi * 60 + se - Offset t) * 1000000000 + ns = Nanos t"
    unfolding ns_def by simp
  note take_fraction_text [OF ns conjunct1 [OF hd_offset_text] conjunct2 [OF hd_offset_text], of "Offset t"]
  then show ?thesis
    unfolding parse_RFC3339_def s r_def [symmetric] hh_def [symmetric] mi_def [symmetric] se_def [symmetric]
    using cond md hms nanos take_offset_text [OF assms(2) cond(3)]
    by (simp add: take_digits_pad take_hour_pad take_char_def in_bounds_def)
qed

end
