(* ===== verification/AppErrors.thy ===== *)
theory AppErrors
  imports GoErrors
begin

text \<open>
  The application error of \<^verbatim>\<open>internal/shared/apperror/apperror.go\<close> and the part of
  \<^verbatim>\<open>internal/shared/httpx/httpx.go\<close> that turns any error into a response: \<open>toAppError\<close>,
  \<open>Fail\<close>, \<open>StatusFor\<close>. What is proved: which status an error gets, that an error with no
  application error and no Fiber error in its chain is rendered with nothing of its text, and
  that attaching a cause never changes what the client sees.
\<close>

section \<open>Kinds and constructors\<close>

fun HTTPStatus_of_Kind :: "Kind \<Rightarrow> int" where
  "HTTPStatus_of_Kind KindValidation = 400"
| "HTTPStatus_of_Kind KindUnauthorized = 401"
| "HTTPStatus_of_Kind KindForbidden = 403"
| "HTTPStatus_of_Kind KindNotFound = 404"
| "HTTPStatus_of_Kind KindConflict = 409"
| "HTTPStatus_of_Kind KindTooManyRequests = 429"
| "HTTPStatus_of_Kind KindUnavailable = 503"
| "HTTPStatus_of_Kind KindInternal = 500"

definition newError :: "Kind \<Rightarrow> string \<Rightarrow> string \<Rightarrow> goerr" where
  "newError kind code message = AppError kind code message [] None"

text \<open>\<open>WithCause\<close> replaces the cause and \<open>WithFields\<close> appends the details.\<close>

fun WithCause :: "goerr \<Rightarrow> goerr \<Rightarrow> goerr" where
  "WithCause (AppError k c m fs ca) e = AppError k c m fs (Some e)"
| "WithCause err e = err"

fun WithFields :: "goerr \<Rightarrow> FieldError list \<Rightarrow> goerr" where
  "WithFields (AppError k c m fs ca) gs = AppError k c m (fs @ gs) ca"
| "WithFields err gs = err"

definition Validation :: "string \<Rightarrow> string \<Rightarrow> goerr" where
  "Validation code message = newError KindValidation code message"

definition Unauthorized :: "string \<Rightarrow> string \<Rightarrow> goerr" where
  "Unauthorized code message = newError KindUnauthorized code message"

definition Forbidden :: "string \<Rightarrow> string \<Rightarrow> goerr" where
  "Forbidden code message = newError KindForbidden code message"

definition NotFound :: "string \<Rightarrow> string \<Rightarrow> goerr" where
  "NotFound code message = newError KindNotFound code message"

definition Conflict :: "string \<Rightarrow> string \<Rightarrow> goerr" where
  "Conflict code message = newError KindConflict code message"

definition TooManyRequests :: "string \<Rightarrow> string \<Rightarrow> goerr" where
  "TooManyRequests code message = newError KindTooManyRequests code message"

definition Unavailable :: "string \<Rightarrow> string \<Rightarrow> goerr" where
  "Unavailable code message = newError KindUnavailable code message"

definition Internal :: "goerr \<Rightarrow> goerr" where
  "Internal err = WithCause (newError KindInternal ''internal_error'' ''something went wrong'') err"

lemmas apperror_defs [code_defs] =
  newError_def Validation_def Unauthorized_def Forbidden_def NotFound_def Conflict_def
  TooManyRequests_def Unavailable_def Internal_def

text \<open>\<open>From\<close> normalises an error; Go's nil error is \<^term>\<open>None\<close>.\<close>

definition From :: "goerr option \<Rightarrow> goerr option" where
  "From err = (case err of
       None \<Rightarrow> None
     | Some e \<Rightarrow> (case errors_As is_AppError e of
                    Some appErr \<Rightarrow> Some appErr
                  | None \<Rightarrow> Some (Internal e)))"

fun kind_of_app :: "goerr \<Rightarrow> Kind" where
  "kind_of_app (AppError k c m fs ca) = k"
| "kind_of_app e = KindInternal"

definition KindOf :: "goerr option \<Rightarrow> Kind" where
  "KindOf err = (case err of
       None \<Rightarrow> KindInternal
     | Some e \<Rightarrow> (case errors_As is_AppError e of
                    Some appErr \<Rightarrow> kind_of_app appErr
                  | None \<Rightarrow> KindInternal))"

definition HTTPStatus :: "goerr option \<Rightarrow> int" where
  "HTTPStatus err = HTTPStatus_of_Kind (KindOf err)"

section \<open>Rendering an error\<close>

text \<open>\<open>ErrorBody\<close>: all a client ever sees of a failure.\<close>

record ErrorBody =
  Error :: string
  EMessage :: string
  Fields :: "FieldError list"

definition toAppError :: "goerr option \<Rightarrow> goerr" where
  "toAppError err = (case err of
       None \<Rightarrow> Internal (LibError ''nil error'')
     | Some e \<Rightarrow>
        (case errors_As is_AppError e of
           Some appErr \<Rightarrow> appErr
         | None \<Rightarrow>
            (case errors_As is_FiberError e of
               Some (FiberError code message) \<Rightarrow>
                 (if code = 404 then
                    WithCause (NotFound ''route_not_found'' ''the requested endpoint does not exist'') e
                  else if code = 405 then
                    WithCause (NotFound ''method_not_allowed'' ''the method is not allowed on this endpoint'') e
                  else if code = 413 then
                    WithCause (Validation ''payload_too_large'' ''the request body is too large'') e
                  else if code < 500 then
                    WithCause (Validation ''bad_request'' message) e
                  else Internal e)
             | _ \<Rightarrow> Internal e)))"

fun error_body :: "goerr \<Rightarrow> ErrorBody" where
  "error_body (AppError k c m fs ca) = \<lparr>Error = c, EMessage = m, Fields = fs\<rparr>"
| "error_body e = \<lparr>Error = [], EMessage = [], Fields = []\<rparr>"

text \<open>\<open>Fail\<close>: the status and the body of the response (its logging is not modelled).\<close>

definition Fail :: "goerr option \<Rightarrow> int \<times> ErrorBody" where
  "Fail err = (let appErr = toAppError err
               in (HTTPStatus_of_Kind (kind_of_app appErr), error_body appErr))"

definition StatusFor :: "goerr option \<Rightarrow> int" where
  "StatusFor err = (if err = None then 200
                    else HTTPStatus_of_Kind (kind_of_app (toAppError err)))"

section \<open>Lemmas\<close>

lemma toAppError_is_AppError: "is_AppError (toAppError err)"
  by (auto simp: toAppError_def apperror_defs split: option.splits goerr.splits dest: errors_As_Some)

lemma toAppError_AppError [simp]: "toAppError (Some (AppError k c m fs ca)) = AppError k c m fs ca"
  by (simp add: toAppError_def)

lemma Fail_AppError [simp]:
  "Fail (Some (AppError k c m fs ca)) = (HTTPStatus_of_Kind k, \<lparr>Error = c, EMessage = m, Fields = fs\<rparr>)"
  by (simp add: Fail_def)

lemma StatusFor_Fail: "err \<noteq> None \<Longrightarrow> StatusFor err = fst (Fail err)"
  by (auto simp: StatusFor_def Fail_def Let_def)

lemma HTTPStatus_of_Kind_error: "400 \<le> HTTPStatus_of_Kind k \<and> HTTPStatus_of_Kind k < 600"
  by (cases k) auto

lemma HTTPStatus_of_Kind_500 [simp]: "HTTPStatus_of_Kind k = 500 \<longleftrightarrow> k = KindInternal"
  by (cases k) auto

lemma Fail_opaque:
  assumes "errors_As is_AppError e = None" and "errors_As is_FiberError e = None"
  shows "Fail (Some e) = (500, \<lparr>Error = ''internal_error'', EMessage = ''something went wrong'', Fields = []\<rparr>)"
  using assms by (simp add: Fail_def toAppError_def apperror_defs)

end
