(* ===== verification/ValueObjects.thy ===== *)
theory ValueObjects
  imports AppErrors GoText
begin

text \<open>
  The value objects of \<^verbatim>\<open>internal/shared/valueobject\<close> (identifiers and email addresses) and the
  page arithmetic of \<^verbatim>\<open>internal/shared/pagination/pagination.go\<close>. An identifier is the number it
  holds, an email its normalised string. What Go's libraries decide from Unicode tables and from
  the grammar of RFC 5322 is an argument: \<open>ToLower\<close> and \<open>ParseAddress\<close> (the address of the parsed
  mailbox, or the text of the parser's error).
\<close>

section \<open>Identifiers\<close>

type_synonym ID = int

definition NewID :: "int \<Rightarrow> ID result" where
  "NewID v = (if v \<le> 0 then Err (Validation ''invalid_id'' ''identifier must be positive'') else Ok v)"

definition ParseID :: "string \<Rightarrow> ID result" where
  "ParseID raw =
     (case ParseInt raw of
        None \<Rightarrow> Err (WithCause (Validation ''invalid_id'' ''identifier must be a number'') (LibError ''strconv''))
      | Some v \<Rightarrow> NewID v)"

definition ID_String :: "ID \<Rightarrow> string" where
  "ID_String i = Itoa i"

definition ID_IsZero :: "ID \<Rightarrow> bool" where
  "ID_IsZero i \<longleftrightarrow> i \<le> 0"

lemma NewID_Ok [simp]: "NewID v = Ok i \<longleftrightarrow> 0 < v \<and> i = v"
  by (auto simp: NewID_def)

lemma NewID_pos [simp]: "0 < v \<Longrightarrow> NewID v = Ok v"
  by simp

lemma NewID_cases: obtains "0 < v" "NewID v = Ok v" | e where "v \<le> 0" "NewID v = Err e" "is_AppError e"
  by (cases "0 < v") (auto simp: NewID_def apperror_defs)

section \<open>Email addresses\<close>

definition MaxEmailLength :: nat where "MaxEmailLength = 255"

record mail_lib =
  ToLower :: "string \<Rightarrow> string"
  ParseAddress :: "string \<Rightarrow> string + string"

definition NewEmail :: "mail_lib \<Rightarrow> string \<Rightarrow> string result" where
  "NewEmail lib raw =
     (let normalised = ToLower lib (TrimSpace raw) in
      if normalised = [] then Err (Validation ''invalid_email'' ''email is required'')
      else if length normalised > MaxEmailLength then Err (Validation ''invalid_email'' ''email is too long'')
      else case ParseAddress lib normalised of
             Inl e \<Rightarrow> Err (WithCause (Validation ''invalid_email'' ''email is not a valid address'') (LibError e))
           | Inr addr \<Rightarrow>
               (if addr \<noteq> normalised
                then Err (Validation ''invalid_email'' ''email is not a valid address'')
                else Ok normalised))"

definition MustEmail :: "mail_lib \<Rightarrow> string \<Rightarrow> string result" where
  "MustEmail lib raw = (case NewEmail lib raw of Ok e \<Rightarrow> Ok e | Err err \<Rightarrow> Panic ''MustEmail'' | Panic p \<Rightarrow> Panic p)"

definition Email_IsZero :: "string \<Rightarrow> bool" where
  "Email_IsZero e \<longleftrightarrow> e = []"

lemma NewEmail_Ok:
  "NewEmail lib raw = Ok e \<longleftrightarrow>
     e = ToLower lib (TrimSpace raw) \<and> e \<noteq> [] \<and> length e \<le> 255 \<and> ParseAddress lib e = Inr e"
  by (auto simp: NewEmail_def Let_def MaxEmailLength_def split: sum.splits)

lemma NewEmail_not_Panic: "NewEmail lib raw \<noteq> Panic p"
  by (auto simp: NewEmail_def Let_def split: sum.splits)

lemma NewEmail_Err: "NewEmail lib raw = Err e \<Longrightarrow> is_AppError e \<and> kind_of_app e = KindValidation"
  by (auto simp: NewEmail_def Let_def apperror_defs split: sum.splits if_splits)

section \<open>Pages\<close>

definition DefaultPage :: int where "DefaultPage = 1"
definition DefaultLimit :: int where "DefaultLimit = 20"
definition MaxLimit :: int where "MaxLimit = 100"

record Params =
  Page :: int
  Limit :: int

definition Parse :: "string \<Rightarrow> string \<Rightarrow> Params" where
  "Parse rawPage rawLimit =
     (let page = (case ParseInt rawPage of Some p \<Rightarrow> if p < 1 then DefaultPage else p | None \<Rightarrow> DefaultPage);
          limit = (case ParseInt rawLimit of Some l \<Rightarrow> if l < 1 then DefaultLimit else l | None \<Rightarrow> DefaultLimit);
          limit = (if limit > MaxLimit then MaxLimit else limit)
      in \<lparr>Page = page, Limit = limit\<rparr>)"

definition page_offset :: "Params \<Rightarrow> int" where
  "page_offset p = int64 (int64 (Page p - 1) * Limit p)"

record Meta = Params +
  Total :: int
  TotalPages :: int

definition NewMeta :: "Params \<Rightarrow> int \<Rightarrow> Meta" where
  "NewMeta p rows =
     (let totalPages = (if Limit p > 0 \<and> rows > 0
                        then int64 (int64 (rows + Limit p) - 1) sdiv Limit p else 0)
      in \<lparr>Page = Page p, Limit = Limit p, Total = rows, TotalPages = totalPages\<rparr>)"

lemma Parse_bounds: "1 \<le> Page (Parse rp rl)" "1 \<le> Limit (Parse rp rl)" "Limit (Parse rp rl) \<le> 100"
  by (auto simp: Parse_def Let_def DefaultPage_def DefaultLimit_def MaxLimit_def split: option.splits)

text \<open>The number of pages is the rounded up quotient: the last page is the one with the last row.\<close>

lemma total_pages_ceiling:
  assumes "1 \<le> l" "l \<le> 100" "0 < t" "t < 2 ^ 62"
  shows "int64 (int64 (t + l) - 1) sdiv l = (t + l - 1) div l"
  using assms by (simp add: signed_divide_int_def sgn_if)

text \<open>However the page and limit of a request are written, the parsed page is at least 1 and the
  limit in 1..100; the pagination metadata of a list with \<open>rows\<close> rows then names the number of
  pages exactly: row number \<open>rows - 1\<close> is on the last page and on no later one.\<close>

theorem pagination_covers_all_rows:
  fixes rawPage rawLimit :: string
  assumes "0 < rows" "rows < 2 ^ 62"
  defines "p \<equiv> Parse rawPage rawLimit"
  shows "1 \<le> Page p \<and> 1 \<le> Limit p \<and> Limit p \<le> 100 \<and>
    (TotalPages (NewMeta p rows) - 1) * Limit p < rows \<and> rows \<le> TotalPages (NewMeta p rows) * Limit p"
proof -
  define l where "l = Limit p"
  have l: "1 \<le> l" "l \<le> 100" using Parse_bounds unfolding l_def p_def by blast+
  define q where "q = (rows + l - 1) div l"
  have tp: "TotalPages (NewMeta p rows) = q"
    using total_pages_ceiling [OF l assms(1,2)] assms(1) l by (simp add: NewMeta_def Let_def l_def q_def)
  have "q * l + (rows + l - 1) mod l = rows + l - 1" unfolding q_def by simp
  moreover have "0 \<le> (rows + l - 1) mod l" "(rows + l - 1) mod l < l" using l by simp_all
  ultimately have "(q - 1) * l < rows" "rows \<le> q * l" by (simp_all add: left_diff_distrib)
  then show ?thesis using Parse_bounds l tp unfolding l_def p_def by simp
qed

theorem pagination_covers_all_rows_witness:
  "let p = Parse ''2'' ''abc'' in 1 \<le> Page p \<and> 41 \<le> TotalPages (NewMeta p 41) * Limit p"
  using pagination_covers_all_rows [of 41 "''2''" "''abc''"] by simp

text \<open>A page number close to the largest integer overflows the SQL offset.\<close>

lemma page_offset_wraps:
  "page_offset \<lparr>Page = 2 ^ 62 + 1, Limit = 4\<rparr> = 0"
  by (simp add: page_offset_def int64_def)

end
