(* ===== verification/World.thy ===== *)
theory World
  imports GoErrors GoTime ValueObjects
begin

text \<open>
  The state the program works on: the four tables of \<^verbatim>\<open>migrations/*.sql\<close>, the clock, the mail
  sent and the random secrets drawn. A row is a record with the columns of its table: a DATE is a
  day number, a TIMESTAMP a number of seconds, a NULL is \<^term>\<open>None\<close>.

  Every SQL statement goes through \<open>statement\<close>, which may fail before it has any effect: \<open>faults\<close>
  says for each statement to come whether the driver reports an error (a broken connection, a
  timeout). What MariaDB decides by itself is a field: \<open>accepts_text\<close> is the CHECK and the character
  set of \<open>progress.data\<close>, \<open>collation_key\<close> the collation of the email column.

  Of the rest of the world: the clock (\<open>now\<close>, and how far it goes on at each reading), the messages
  written to the log instead of being sent, the ones an SMTP server accepted (recipient and data),
  the network steps that will fail, and the random numbers to be drawn.
\<close>

section \<open>Rows\<close>

record user_row =
  u_id :: int
  u_email :: string
  u_password_hash :: string
  u_email_verified_at :: "int option"
  u_name :: "string option"
  u_gender :: "string option"
  u_birth_date :: "int option"
  u_timezone :: "string option"
  u_last_active_date :: "int option"
  u_distinct_login_days :: int
  u_streak_days :: int
  u_created_at :: int
  u_updated_at :: int

record code_row =
  c_user_id :: int
  c_code_hash :: string
  c_attempts :: int
  c_expires_at :: int
  c_consumed_at :: "int option"

record reset_row =
  r_user_id :: int
  r_token_hash :: string
  r_expires_at :: int
  r_consumed_at :: "int option"

record progress_row =
  p_id :: int
  p_user_id :: int
  p_data :: string
  p_created_at :: int
  p_updated_at :: int

text \<open>A message handed to the mail transport (\<open>mail.Message\<close>).\<close>

record mail_message =
  M_To :: string
  M_Subject :: string
  M_Body :: string

record tables =
  users :: "user_row list"
  codes :: "code_row list"
  resets :: "reset_row list"
  progress :: "progress_row list"
  next_user_id :: int
  next_progress_id :: int

record world =
  db :: tables
  faults :: "bool list"
  accepts_text :: "string \<Rightarrow> bool"
  collation_key :: "string \<Rightarrow> string"
  now :: gotime
  ticks :: "nat list"
  mail_log :: "mail_message list"
  delivered :: "(string \<times> string) list"
  net_faults :: "bool list"
  entropy :: "nat list"

section \<open>Statements and the clock\<close>

definition statement :: "(world \<Rightarrow> 'a result \<times> world) \<Rightarrow> (world, 'a) proc" where
  "statement f w =
     (case faults w of
        [] \<Rightarrow> f w
      | b # bs \<Rightarrow> if b then (Err (LibError ''driver''), w\<lparr>faults := bs\<rparr>) else f (w\<lparr>faults := bs\<rparr>))"

text \<open>\<open>time.Now\<close>: time goes on by the next tick after each reading.\<close>

definition read_clock :: "(world, gotime) proc" where
  "read_clock w =
     (Ok (now w),
      (case ticks w of
         [] \<Rightarrow> w
       | t # ts \<Rightarrow> w\<lparr>now := (now w)\<lparr>Nanos := Nanos (now w) + int t\<rparr>, ticks := ts\<rparr>))"

text \<open>\<open>CURRENT_TIMESTAMP\<close>, and what a TIMESTAMP column keeps of a time: whole seconds.\<close>

definition seconds :: "gotime \<Rightarrow> int" where
  "seconds t = Nanos t div 1000000000"

definition current_timestamp :: "world \<Rightarrow> int" where
  "current_timestamp w = seconds (now w)"

definition of_seconds :: "int \<Rightarrow> gotime" where
  "of_seconds s = \<lparr>Nanos = s * 1000000000, Offset = 0\<rparr>"

abbreviation on_db :: "(tables \<Rightarrow> tables) \<Rightarrow> world \<Rightarrow> world" where
  "on_db f w \<equiv> w\<lparr>db := f (db w)\<rparr>"

text \<open>The first row of a table with a property, and the update of the rows that have it.\<close>

definition row_with :: "('r \<Rightarrow> bool) \<Rightarrow> 'r list \<Rightarrow> 'r option" where
  "row_with p rows = List.find p rows"

definition update_rows :: "('r \<Rightarrow> bool) \<Rightarrow> ('r \<Rightarrow> 'r) \<Rightarrow> 'r list \<Rightarrow> 'r list" where
  "update_rows p f rows = map (\<lambda>r. if p r then f r else r) rows"

section \<open>Lemmas\<close>

lemma seconds_le: "seconds t * 1000000000 \<le> Nanos t"
proof -
  have "Nanos t div 1000000000 * 1000000000 + Nanos t mod 1000000000 = Nanos t" "0 \<le> Nanos t mod 1000000000"
    by simp_all
  then show ?thesis unfolding seconds_def by linarith
qed

lemma statement_simps [simp]:
  "faults w = [] \<Longrightarrow> statement f w = f w"
  "faults w = False # bs \<Longrightarrow> statement f w = f (w\<lparr>faults := bs\<rparr>)"
  "faults w = True # bs \<Longrightarrow> statement f w = (Err (LibError ''driver''), w\<lparr>faults := bs\<rparr>)"
  by (simp_all add: statement_def)

lemma statement_cases:
  obtains bs where "statement f w = (Err (LibError ''driver''), w\<lparr>faults := bs\<rparr>)"
    | bs where "statement f w = f (w\<lparr>faults := bs\<rparr>)"
proof (cases "faults w")
  case Nil
  then have "statement f w = f (w\<lparr>faults := []\<rparr>)" by (metis statement_simps(1) world.surjective world.update_convs(2))
  then show thesis by (rule that(2))
next
  case (Cons b bs)
  then show thesis by (cases b) (auto intro: that)
qed

lemma statementE:
  assumes "statement f w = (r, w1)"
  obtains (fault) bs where "r = Err (LibError ''driver'')" "w1 = w\<lparr>faults := bs\<rparr>"
    | (run) bs where "f (w\<lparr>faults := bs\<rparr>) = (r, w1)"
  using assms by (cases rule: statement_cases [of f w]) auto

lemma keeps_statement [keeps_intros]:
  assumes "\<And>w. I w \<Longrightarrow> I (snd (f w))" "\<And>w bs. I w \<Longrightarrow> I (w\<lparr>faults := bs\<rparr>)"
  shows "keeps I (statement f)"
proof (rule keepsI)
  fix w
  assume "I w"
  then show "I (snd (statement f w))"
    by (cases rule: statement_cases [of f w]) (simp_all add: assms)
qed

lemma keeps_read_clock [keeps_intros]:
  assumes "\<And>w t ts. I w \<Longrightarrow> I (w\<lparr>now := t, ticks := ts\<rparr>)"
  shows "keeps I read_clock"
  by (rule keepsI) (auto simp: read_clock_def assms split: list.splits)

lemma read_clock_Ok [simp]: "fst (read_clock w) = Ok (now w)"
  by (simp add: read_clock_def)

lemma db_read_clock [simp]: "db (snd (read_clock w)) = db w"
  by (simp add: read_clock_def split: list.splits)

lemma row_with_update [simp]:
  "(\<And>r. p r \<Longrightarrow> p (f r)) \<Longrightarrow> row_with p (update_rows p f rows) = map_option f (row_with p rows)"
  by (induction rows) (auto simp: row_with_def update_rows_def)

lemma row_with_update_other:
  "(\<And>r. q r \<Longrightarrow> q (f r) = q r) \<Longrightarrow> (\<And>r. p r \<Longrightarrow> \<not> q r \<and> \<not> q (f r)) \<Longrightarrow>
   row_with q (update_rows p f rows) = row_with q rows"
  by (induction rows) (auto simp: row_with_def update_rows_def)

lemma row_with_Some: "row_with p rows = Some r \<Longrightarrow> r \<in> set rows \<and> p r"
  by (auto simp: row_with_def find_Some_iff)

lemma row_with_None: "row_with p rows = None \<longleftrightarrow> (\<forall>r \<in> set rows. \<not> p r)"
  by (auto simp: row_with_def find_None_iff)

text \<open>A world for concrete inputs: empty tables, a bytewise collation, nothing fails.\<close>

definition sample_world :: world where
  "sample_world = \<lparr>db = \<lparr>users = [], codes = [], resets = [], progress = [], next_user_id = 1, next_progress_id = 1\<rparr>,
     faults = [], accepts_text = (\<lambda>_. True), collation_key = (\<lambda>s. s), now = of_seconds 1700000000, ticks = [],
     mail_log = [], delivered = [], net_faults = [], entropy = [123456, 7, 99, 5, 6]\<rparr>"

end
