(* ===== verification/AuthDomain.thy ===== *)
theory AuthDomain
  imports World
begin

text \<open>
  The entities of the authentication module (\<^verbatim>\<open>internal/modules/auth/domain.go\<close>) and the checks on
  a profile (\<^verbatim>\<open>profile.go\<close>). A calendar day (\<open>LastActiveDate\<close>, \<open>BirthDate\<close>) is its day number,
  Go's zero time is \<^term>\<open>None\<close>. What the time zone database, SHA-256 and the address grammar decide is
  a field of \<open>auth_lib\<close>: a zone gives the offset in force at a Unix second.
\<close>

section \<open>Entities\<close>

record auth_lib = mail_lib +
  LoadLocation :: "string \<Rightarrow> (int \<Rightarrow> int) option"
  sha256_hex :: "string \<Rightarrow> string"

definition MinPasswordLength :: nat where "MinPasswordLength = 8"
definition MaxPasswordLength :: nat where "MaxPasswordLength = 72"
definition VerificationCodeDigits :: nat where "VerificationCodeDigits = 6"
definition MaxProfileNameLength :: nat where "MaxProfileNameLength = 80"
definition MinBirthYear :: int where "MinBirthYear = 1900"
definition MaxTimezoneLength :: nat where "MaxTimezoneLength = 64"

record Activity =
  LastActiveDate :: "int option"
  DistinctLoginDays :: int
  StreakDays :: int

type_synonym Gender = string

definition GenderMale :: Gender where "GenderMale = ''male''"
definition GenderFemale :: Gender where "GenderFemale = ''female''"
definition GenderNeutral :: Gender where "GenderNeutral = ''neutral''"

definition Gender_Valid :: "Gender \<Rightarrow> bool" where
  "Gender_Valid g \<longleftrightarrow> g = GenderMale \<or> g = GenderFemale \<or> g = GenderNeutral"

record Profile =
  Name :: string
  Gender_of :: Gender
  BirthDate :: "int option"
  Timezone :: string

definition emptyProfile :: Profile where
  "emptyProfile = \<lparr>Name = [], Gender_of = [], BirthDate = None, Timezone = []\<rparr>"

text \<open>\<open>time.UTC\<close> is the zone with offset 0.\<close>

definition Location :: "('a) auth_lib_scheme \<Rightarrow> Profile \<Rightarrow> (int \<Rightarrow> int)" where
  "Location lib p =
     (if Timezone p = [] then (\<lambda>_. 0)
      else case LoadLocation lib (Timezone p) of None \<Rightarrow> (\<lambda>_. 0) | Some z \<Rightarrow> z)"

definition Profile_Complete :: "Profile \<Rightarrow> bool" where
  "Profile_Complete p \<longleftrightarrow> Name p \<noteq> []"

record User =
  User_ID :: ID
  Email :: string
  PasswordHash :: string
  Profile_of :: Profile
  Activity_of :: Activity
  EmailVerifiedAt :: "int option"
  User_CreatedAt :: int
  User_UpdatedAt :: int

definition EmailVerified :: "User \<Rightarrow> bool" where
  "EmailVerified u \<longleftrightarrow> EmailVerifiedAt u \<noteq> None"

record EmailVerification =
  V_UserID :: ID
  CodeHash :: string
  Attempts :: int
  V_ExpiresAt :: gotime
  V_ConsumedAt :: "int option"

definition Verification_Usable :: "EmailVerification \<Rightarrow> gotime \<Rightarrow> int \<Rightarrow> bool" where
  "Verification_Usable v t maxAttempts \<longleftrightarrow>
     V_ConsumedAt v = None \<and> Nanos t < Nanos (V_ExpiresAt v) \<and> Attempts v < maxAttempts"

record PasswordReset =
  R_UserID :: ID
  TokenHash :: string
  R_ExpiresAt :: gotime
  R_ConsumedAt :: "int option"

definition Reset_Usable :: "PasswordReset \<Rightarrow> gotime \<Rightarrow> bool" where
  "Reset_Usable r t \<longleftrightarrow> R_ConsumedAt r = None \<and> Nanos t < Nanos (R_ExpiresAt r)"

record Credentials =
  C_Email :: string
  Password :: string

record Session =
  Token :: string
  ExpiresAt :: gotime
  S_User :: User

text \<open>A session without a token: what \<open>Register\<close> returns when the gate is on.\<close>

definition Session_without_token :: "User \<Rightarrow> Session" where
  "Session_without_token u = \<lparr>Token = [], ExpiresAt = zero_time, S_User = u\<rparr>"

record Me =
  Me_User :: User
  Me_Progress :: "string option"

section \<open>Calendar days\<close>

definition DayIn :: "gotime \<Rightarrow> (int \<Rightarrow> int) \<Rightarrow> int" where
  "DayIn t location = (seconds t + location (seconds t)) div 86400"

definition UTCDay :: "gotime \<Rightarrow> int" where
  "UTCDay t = DayIn t (\<lambda>_. 0)"

definition year_of_day :: "int \<Rightarrow> int" where
  "year_of_day d = fst (date_of d)"

section \<open>The onboarding profile\<close>

definition invalidProfile :: "string \<Rightarrow> goerr" where
  "invalidProfile message = Validation ''invalid_profile'' message"

text \<open>\<open>unicode.IsControl\<close>: the C0 and C1 controls and DEL.\<close>

definition hasControlCharacters :: "string \<Rightarrow> bool" where
  "hasControlCharacters s \<longleftrightarrow> (\<exists>r \<in> set (to_runes s). r < 0x20 \<or> 0x7F \<le> r \<and> r < 0xA0)"

definition normaliseTimezone :: "('a) auth_lib_scheme \<Rightarrow> string \<Rightarrow> string result" where
  "normaliseTimezone lib timezone =
     (let timezone = TrimSpace timezone in
      if timezone = [] then Ok []
      else if length timezone > MaxTimezoneLength then Err (invalidProfile ''the timezone name is too long'')
      else if EqualFold_ascii timezone ''Local''
      then Err (invalidProfile ''the timezone must be a specific IANA zone, such as America/Lima'')
      else if LoadLocation lib timezone = None
      then Err (invalidProfile ''that is not a timezone this server knows'')
      else Ok timezone)"

definition normaliseProfile :: "('a) auth_lib_scheme \<Rightarrow> Profile \<Rightarrow> gotime \<Rightarrow> Profile result" where
  "normaliseProfile lib profile at =
     (let name = TrimSpace (Name profile) in
      if name = [] then Err (invalidProfile ''the name is required'')
      else if length (to_runes name) > MaxProfileNameLength
      then Err (invalidProfile ''the name must be at most 80 characters long'')
      else if hasControlCharacters name
      then Err (invalidProfile ''the name must not contain control characters'')
      else if \<not> Gender_Valid (Gender_of profile)
      then Err (invalidProfile ''that is not a gender this server stores'')
      else result_bind (normaliseTimezone lib (Timezone profile)) (\<lambda>timezone.
        let normalised = \<lparr>Name = name, Gender_of = Gender_of profile, BirthDate = None, Timezone = timezone\<rparr> in
        (case BirthDate profile of
           None \<Rightarrow> Ok normalised
         | Some birthDate \<Rightarrow>
             (if birthDate > UTCDay at then Err (invalidProfile ''the birthday cannot be in the future'')
              else if year_of_day birthDate < MinBirthYear
              then Err (invalidProfile ''the birthday must be after 1900'')
              else Ok (normalised\<lparr>BirthDate := Some birthDate\<rparr>)))))"

text \<open>Bytes, both ways.\<close>

definition checkPasswordLength :: "string \<Rightarrow> unit result" where
  "checkPasswordLength password =
     (if length password < MinPasswordLength
      then Err (Validation ''weak_password'' ''the password must be at least 8 characters long'')
      else if length password > MaxPasswordLength
      then Err (Validation ''weak_password'' ''the password must be at most 72 bytes long'')
      else Ok ())"

section \<open>Lemmas\<close>

lemma checkPasswordLength_Ok [simp]:
  "checkPasswordLength p = Ok () \<longleftrightarrow> 8 \<le> length p \<and> length p \<le> 72"
  by (auto simp: checkPasswordLength_def MinPasswordLength_def MaxPasswordLength_def)

lemma checkPasswordLength_cases:
  "checkPasswordLength p = Ok () \<or> (\<exists>e. checkPasswordLength p = Err e \<and> is_AppError e)"
  by (auto simp: checkPasswordLength_def apperror_defs)

lemma TrimSpace_Nil [simp]: "TrimSpace [] = []"
  using length_TrimSpace [of "[]"] by simp

text \<open>What a stored profile satisfies.\<close>

definition profile_ok :: "('a) auth_lib_scheme \<Rightarrow> gotime \<Rightarrow> Profile \<Rightarrow> bool" where
  "profile_ok lib at p \<longleftrightarrow>
     Name p \<noteq> [] \<and> TrimSpace (Name p) = Name p \<and> length (to_runes (Name p)) \<le> 80 \<and>
     \<not> hasControlCharacters (Name p) \<and> Gender_Valid (Gender_of p) \<and>
     (Timezone p = [] \<or> length (Timezone p) \<le> 64 \<and> LoadLocation lib (Timezone p) \<noteq> None \<and>
        \<not> EqualFold_ascii (Timezone p) ''Local'' \<and> TrimSpace (Timezone p) = Timezone p) \<and>
     (\<forall>d. BirthDate p = Some d \<longrightarrow> d \<le> UTCDay at \<and> 1900 \<le> year_of_day d)"

lemma normaliseTimezone_Ok:
  "normaliseTimezone lib z = Ok t \<longleftrightarrow>
     t = TrimSpace z \<and> (t = [] \<or> length t \<le> 64 \<and> \<not> EqualFold_ascii t ''Local'' \<and> LoadLocation lib t \<noteq> None)"
  by (auto simp: normaliseTimezone_def Let_def MaxTimezoneLength_def)

lemma normaliseProfile_profile_ok:
  "normaliseProfile lib p at = Ok q \<Longrightarrow> profile_ok lib at q"
  by (auto simp: normaliseProfile_def Let_def profile_ok_def normaliseTimezone_Ok MaxProfileNameLength_def
      MinBirthYear_def split: if_splits option.splits)

lemma normaliseProfile_id:
  "profile_ok lib at p \<Longrightarrow> normaliseProfile lib p at = Ok p"
proof -
  assume ok: "profile_ok lib at p"
  then have z: "normaliseTimezone lib (Timezone p) = Ok (Timezone p)"
    by (auto simp: normaliseTimezone_Ok profile_ok_def)
  show ?thesis using ok unfolding normaliseProfile_def z
    by (cases "BirthDate p") (auto simp: Let_def profile_ok_def MaxProfileNameLength_def MinBirthYear_def)
qed

text \<open>C29: The profile that is stored satisfies every limit (a trimmed name of 1 to 80 characters
  without control characters, a known gender, a zone this server can resolve, a birthday between 1900
  and today), and normalising is idempotent: a stored profile that is sent again is stored unchanged.\<close>

theorem normaliseProfile_sound:
  assumes "normaliseProfile lib p at = Ok q"
  shows "profile_ok lib at q \<and> normaliseProfile lib q at = Ok q"
  using normaliseProfile_profile_ok [OF assms] normaliseProfile_id by blast

text \<open>A small library for concrete inputs: one zone, addresses taken as they are written, and a
  digest that marks its argument.\<close>

definition sample_lib :: auth_lib where
  "sample_lib = \<lparr>ToLower = (\<lambda>s. s), ParseAddress = Inr,
     LoadLocation = (\<lambda>z. if z = ''America/Lima'' then Some (\<lambda>_. - 18000) else None),
     sha256_hex = (\<lambda>s. ''#'' @ s)\<rparr>"

theorem normaliseProfile_sound_witness:
  "profile_ok sample_lib (of_seconds 1700000000)
     \<lparr>Name = ''Ana'', Gender_of = ''female'', BirthDate = Some 10000, Timezone = ''America/Lima''\<rparr>"
proof -
  have "TrimSpace ''Ana'' = ''Ana''" "TrimSpace ''America/Lima'' = ''America/Lima''"
    by (simp_all add: TrimSpace_graphic graphic_def)
  moreover have "to_runes ''Ana'' = [65, 110, 97]" "\<not> EqualFold_ascii ''America/Lima'' ''Local''"
    "year_of_day 10000 = 1997" by code_simp+
  ultimately have "normaliseProfile sample_lib
      \<lparr>Name = ''Ana'', Gender_of = ''female'', BirthDate = Some 10000, Timezone = ''America/Lima''\<rparr>
      (of_seconds 1700000000) =
    Ok \<lparr>Name = ''Ana'', Gender_of = ''female'', BirthDate = Some 10000, Timezone = ''America/Lima''\<rparr>"
    by (simp add: normaliseProfile_def normaliseTimezone_def sample_lib_def Let_def hasControlCharacters_def
        Gender_Valid_def GenderMale_def GenderFemale_def GenderNeutral_def MaxProfileNameLength_def
        MaxTimezoneLength_def MinBirthYear_def UTCDay_def DayIn_def seconds_def of_seconds_def)
  from normaliseProfile_sound [OF this] show ?thesis by blast
qed

end
