(* ===== verification/AuthRepository.thy ===== *)
theory AuthRepository
  imports AuthDomain
begin

text \<open>
  The persistence ports of the authentication module and their MariaDB implementation
  (\<^verbatim>\<open>repository_mysql.go\<close>, \<^verbatim>\<open>repository_mysql_secrets.go\<close> of \<^verbatim>\<open>internal/modules/auth\<close>) on the
  tables of \<open>World\<close>. An UPDATE reports as affected the rows it changes, as the driver does without
  \<open>clientFoundRows\<close>, and sets \<open>updated_at\<close> only on those; the SET list of \<open>touchActivityQuery\<close> reads
  \<open>last_active_date\<close> before it assigns it.
\<close>

section \<open>Ports\<close>

record 'w UserRepository =
  Create :: "User \<Rightarrow> ('w, User) proc"
  FindByEmail :: "string \<Rightarrow> ('w, User) proc"
  FindByID :: "ID \<Rightarrow> ('w, User) proc"
  TouchActivity :: "ID \<Rightarrow> int \<Rightarrow> ('w, User) proc"
  MarkEmailVerified :: "ID \<Rightarrow> gotime \<Rightarrow> ('w, User) proc"
  UpdatePassword :: "ID \<Rightarrow> string \<Rightarrow> ('w, unit) proc"
  PutProfile :: "ID \<Rightarrow> Profile \<Rightarrow> ('w, User) proc"

record 'w VerificationRepository =
  PutVerification :: "EmailVerification \<Rightarrow> ('w, unit) proc"
  FindVerification :: "ID \<Rightarrow> ('w, EmailVerification) proc"
  RecordVerificationAttempt :: "ID \<Rightarrow> ('w, unit) proc"
  ConsumeVerification :: "ID \<Rightarrow> gotime \<Rightarrow> ('w, unit) proc"

record 'w PasswordResetRepository =
  PutReset :: "PasswordReset \<Rightarrow> ('w, unit) proc"
  FindResetByHash :: "string \<Rightarrow> ('w, PasswordReset) proc"
  ConsumeReset :: "ID \<Rightarrow> gotime \<Rightarrow> ('w, unit) proc"

section \<open>Users\<close>

definition mysqlDuplicateEntry :: nat where "mysqlDuplicateEntry = 1062"

definition isDuplicateEntry :: "goerr \<Rightarrow> bool" where
  "isDuplicateEntry err \<longleftrightarrow> errors_As is_MySQLError err = Some (MySQLError mysqlDuplicateEntry)"

definition same_email :: "world \<Rightarrow> string \<Rightarrow> string \<Rightarrow> bool" where
  "same_email w a b \<longleftrightarrow> collation_key w a = collation_key w b"

definition user_row_of :: "int \<Rightarrow> tables \<Rightarrow> user_row option" where
  "user_row_of i t = row_with (\<lambda>r. u_id r = i) (users t)"

definition insert_user :: "User \<Rightarrow> (world, int) proc" where
  "insert_user user =
     statement (\<lambda>w.
       if \<exists>r \<in> set (users (db w)). same_email w (u_email r) (Email user)
       then (Err (MySQLError mysqlDuplicateEntry), w)
       else (Ok (next_user_id (db w)),
             on_db (\<lambda>t. t\<lparr>users := users t @ [\<lparr>u_id = next_user_id t, u_email = Email user,
                 u_password_hash = PasswordHash user, u_email_verified_at = None, u_name = None,
                 u_gender = None, u_birth_date = None, u_timezone = None,
                 u_last_active_date = LastActiveDate (Activity_of user),
                 u_distinct_login_days = DistinctLoginDays (Activity_of user),
                 u_streak_days = StreakDays (Activity_of user),
                 u_created_at = current_timestamp w, u_updated_at = current_timestamp w\<rparr>],
               next_user_id := next_user_id t + 1\<rparr>) w))"

text \<open>\<open>queryOne\<close>: a NULL string reads as the empty string.\<close>

definition str_or_empty :: "string option \<Rightarrow> string" where
  "str_or_empty s = (case s of None \<Rightarrow> [] | Some x \<Rightarrow> x)"

definition user_of_row :: "('a) auth_lib_scheme \<Rightarrow> user_row \<Rightarrow> User result" where
  "user_of_row lib r =
     result_bind (result_map_err (\<lambda>err. Errorf ''stored user id'' [err]) (NewID (u_id r))) (\<lambda>uid.
     result_bind (result_map_err (\<lambda>err. Errorf ''stored user email'' [err]) (NewEmail (mail_lib.truncate lib) (u_email r)))
       (\<lambda>email.
       Ok \<lparr>User_ID = uid, Email = email, PasswordHash = u_password_hash r,
           Profile_of = \<lparr>Name = str_or_empty (u_name r), Gender_of = str_or_empty (u_gender r),
                         BirthDate = u_birth_date r, Timezone = str_or_empty (u_timezone r)\<rparr>,
           Activity_of = \<lparr>LastActiveDate = u_last_active_date r,
                          DistinctLoginDays = u_distinct_login_days r, StreakDays = u_streak_days r\<rparr>,
           EmailVerifiedAt = u_email_verified_at r,
           User_CreatedAt = u_created_at r, User_UpdatedAt = u_updated_at r\<rparr>))"

definition queryOne :: "('a) auth_lib_scheme \<Rightarrow> (world \<Rightarrow> user_row \<Rightarrow> bool) \<Rightarrow> (world, User) proc" where
  "queryOne lib p =
     andThen
       (onErr (\<lambda>err. if errors_Is err SqlErrNoRows then Sentinel ErrUserNotFound else Errorf ''select user'' [err])
          (statement (\<lambda>w. (case row_with (p w) (users (db w)) of
                             None \<Rightarrow> Err (Sentinel SqlErrNoRows) | Some r \<Rightarrow> Ok r, w))))
       (\<lambda>r. lift (user_of_row lib r))"

definition mysql_FindByID :: "('a) auth_lib_scheme \<Rightarrow> ID \<Rightarrow> (world, User) proc" where
  "mysql_FindByID lib i = queryOne lib (\<lambda>w r. u_id r = i)"

definition mysql_FindByEmail :: "('a) auth_lib_scheme \<Rightarrow> string \<Rightarrow> (world, User) proc" where
  "mysql_FindByEmail lib email = queryOne lib (\<lambda>w r. same_email w (u_email r) email)"

definition mysql_Create :: "('a) auth_lib_scheme \<Rightarrow> User \<Rightarrow> (world, User) proc" where
  "mysql_Create lib user =
     andThen
       (onErr (\<lambda>err. if isDuplicateEntry err then Sentinel ErrEmailAlreadyExists else Errorf ''insert user'' [err])
          (insert_user user)) (\<lambda>i.
     andThen (onErr (\<lambda>err. Errorf ''inserted user id'' [err]) (lift (NewID i))) (\<lambda>uid.
       mysql_FindByID lib uid))"

text \<open>An UPDATE of the users with an id: how many rows it changes, and the new table. \<open>updated_at\<close>
  follows the rows that change.\<close>

definition update_user :: "int \<Rightarrow> (user_row \<Rightarrow> user_row) \<Rightarrow> (world, nat) proc" where
  "update_user i f =
     statement (\<lambda>w.
       (Ok (length (filter (\<lambda>r. u_id r = i \<and> f r \<noteq> r) (users (db w)))),
        on_db (\<lambda>t. t\<lparr>users := update_rows (\<lambda>r. u_id r = i \<and> f r \<noteq> r)
                       (\<lambda>r. (f r)\<lparr>u_updated_at := current_timestamp w\<rparr>) (users t)\<rparr>) w))"

definition requireOneRow :: "nat \<Rightarrow> unit result" where
  "requireOneRow affected = (if affected = 0 then Err (Sentinel ErrUserNotFound) else Ok ())"

text \<open>\<open>touchActivityQuery\<close>.\<close>

definition touch_row :: "int \<Rightarrow> user_row \<Rightarrow> user_row" where
  "touch_row today r =
     (let active = (case u_last_active_date r of None \<Rightarrow> False | Some d \<Rightarrow> d \<ge> today) in
      r\<lparr>u_distinct_login_days := u_distinct_login_days r + (if active then 0 else 1),
        u_streak_days := (if active then u_streak_days r
                          else if u_last_active_date r = Some (today - 1) then u_streak_days r + 1
                          else 1),
        u_last_active_date := Some (max (case u_last_active_date r of None \<Rightarrow> today | Some d \<Rightarrow> d) today)\<rparr>)"

definition mysql_TouchActivity :: "('a) auth_lib_scheme \<Rightarrow> ID \<Rightarrow> int \<Rightarrow> (world, User) proc" where
  "mysql_TouchActivity lib i day =
     andThen (onErr (\<lambda>err. Errorf ''update user activity'' [err]) (update_user i (touch_row day))) (\<lambda>_.
       mysql_FindByID lib i)"

definition mysql_MarkEmailVerified :: "('a) auth_lib_scheme \<Rightarrow> ID \<Rightarrow> gotime \<Rightarrow> (world, User) proc" where
  "mysql_MarkEmailVerified lib i at =
     andThen (onErr (\<lambda>err. Errorf ''mark email verified'' [err])
       (update_user i (\<lambda>r. r\<lparr>u_email_verified_at := Some (seconds at)\<rparr>))) (\<lambda>affected.
     andThen (lift (requireOneRow affected)) (\<lambda>_.
       mysql_FindByID lib i))"

definition mysql_UpdatePassword :: "ID \<Rightarrow> string \<Rightarrow> (world, unit) proc" where
  "mysql_UpdatePassword i passwordHash =
     andThen (onErr (\<lambda>err. Errorf ''update password'' [err])
       (update_user i (\<lambda>r. r\<lparr>u_password_hash := passwordHash\<rparr>))) (\<lambda>affected.
       lift (requireOneRow affected))"

definition profile_row :: "Profile \<Rightarrow> user_row \<Rightarrow> user_row" where
  "profile_row p r =
     r\<lparr>u_name := Some (Name p), u_gender := Some (Gender_of p), u_birth_date := BirthDate p,
       u_timezone := (if Timezone p = [] then None else Some (Timezone p))\<rparr>"

definition mysql_SaveProfile :: "('a) auth_lib_scheme \<Rightarrow> ID \<Rightarrow> Profile \<Rightarrow> (world, User) proc" where
  "mysql_SaveProfile lib i profile =
     andThen (onErr (\<lambda>err. Errorf ''save profile'' [err]) (update_user i (profile_row profile))) (\<lambda>_.
       mysql_FindByID lib i)"

section \<open>Verification codes\<close>

definition code_of :: "int \<Rightarrow> tables \<Rightarrow> code_row option" where
  "code_of i t = row_with (\<lambda>c. c_user_id c = i) (codes t)"

definition mysql_PutVerification :: "EmailVerification \<Rightarrow> (world, unit) proc" where
  "mysql_PutVerification v =
     onErr (\<lambda>err. Errorf ''store verification code'' [err])
       (statement (\<lambda>w.
          let row = \<lparr>c_user_id = V_UserID v, c_code_hash = CodeHash v, c_attempts = 0,
                     c_expires_at = seconds (V_ExpiresAt v), c_consumed_at = None\<rparr> in
          if user_row_of (V_UserID v) (db w) = None then (Err (MySQLError 1452), w)
          else (Ok (), on_db (\<lambda>t. t\<lparr>codes :=
                 (if code_of (V_UserID v) t = None then codes t @ [row]
                  else update_rows (\<lambda>c. c_user_id c = V_UserID v) (\<lambda>_. row) (codes t))\<rparr>) w)))"

definition verification_of_row :: "code_row \<Rightarrow> EmailVerification result" where
  "verification_of_row c =
     result_bind (result_map_err (\<lambda>err. Errorf ''stored verification owner'' [err]) (NewID (c_user_id c))) (\<lambda>uid.
       Ok \<lparr>V_UserID = uid, CodeHash = c_code_hash c, Attempts = c_attempts c,
           V_ExpiresAt = of_seconds (c_expires_at c), V_ConsumedAt = c_consumed_at c\<rparr>)"

definition mysql_FindVerification :: "ID \<Rightarrow> (world, EmailVerification) proc" where
  "mysql_FindVerification i =
     andThen
       (onErr (\<lambda>err. if errors_Is err SqlErrNoRows then Sentinel ErrVerificationNotFound
                     else Errorf ''select verification code'' [err])
          (statement (\<lambda>w. (case code_of i (db w) of None \<Rightarrow> Err (Sentinel SqlErrNoRows) | Some c \<Rightarrow> Ok c, w))))
       (\<lambda>c. lift (verification_of_row c))"

definition update_code :: "int \<Rightarrow> (code_row \<Rightarrow> code_row) \<Rightarrow> (world, unit) proc" where
  "update_code i f =
     statement (\<lambda>w. (Ok (), on_db (\<lambda>t. t\<lparr>codes := update_rows (\<lambda>c. c_user_id c = i) f (codes t)\<rparr>) w))"

definition mysql_RecordVerificationAttempt :: "ID \<Rightarrow> (world, unit) proc" where
  "mysql_RecordVerificationAttempt i =
     onErr (\<lambda>err. Errorf ''record verification attempt'' [err])
       (update_code i (\<lambda>c. c\<lparr>c_attempts := c_attempts c + 1\<rparr>))"

definition mysql_ConsumeVerification :: "ID \<Rightarrow> gotime \<Rightarrow> (world, unit) proc" where
  "mysql_ConsumeVerification i at =
     onErr (\<lambda>err. Errorf ''consume verification code'' [err])
       (update_code i (\<lambda>c. if c_consumed_at c = None then c\<lparr>c_consumed_at := Some (seconds at)\<rparr> else c))"

section \<open>Reset tokens\<close>

definition reset_of_user :: "int \<Rightarrow> tables \<Rightarrow> reset_row option" where
  "reset_of_user i t = row_with (\<lambda>r. r_user_id r = i) (resets t)"

definition reset_of_hash :: "string \<Rightarrow> tables \<Rightarrow> reset_row option" where
  "reset_of_hash h t = row_with (\<lambda>r. r_token_hash r = h) (resets t)"

text \<open>Two unique keys: the row with the same hash is the one updated, or else the row of the user.\<close>

definition mysql_PutReset :: "PasswordReset \<Rightarrow> (world, unit) proc" where
  "mysql_PutReset v =
     onErr (\<lambda>err. Errorf ''store reset token'' [err])
       (statement (\<lambda>w.
          let renew = (\<lambda>r. r\<lparr>r_token_hash := TokenHash v, r_expires_at := seconds (R_ExpiresAt v),
                             r_consumed_at := None\<rparr>) in
          if user_row_of (R_UserID v) (db w) = None then (Err (MySQLError 1452), w)
          else (Ok (), on_db (\<lambda>t. t\<lparr>resets :=
                 (if reset_of_hash (TokenHash v) t \<noteq> None
                  then update_rows (\<lambda>r. r_token_hash r = TokenHash v) renew (resets t)
                  else if reset_of_user (R_UserID v) t \<noteq> None
                  then update_rows (\<lambda>r. r_user_id r = R_UserID v) renew (resets t)
                  else resets t @ [\<lparr>r_user_id = R_UserID v, r_token_hash = TokenHash v,
                                    r_expires_at = seconds (R_ExpiresAt v), r_consumed_at = None\<rparr>])\<rparr>) w)))"

definition reset_of_row :: "reset_row \<Rightarrow> PasswordReset result" where
  "reset_of_row r =
     result_bind (result_map_err (\<lambda>err. Errorf ''stored reset owner'' [err]) (NewID (r_user_id r))) (\<lambda>uid.
       Ok \<lparr>R_UserID = uid, TokenHash = r_token_hash r, R_ExpiresAt = of_seconds (r_expires_at r),
           R_ConsumedAt = r_consumed_at r\<rparr>)"

definition mysql_FindResetByHash :: "string \<Rightarrow> (world, PasswordReset) proc" where
  "mysql_FindResetByHash h =
     andThen
       (onErr (\<lambda>err. if errors_Is err SqlErrNoRows then Sentinel ErrResetNotFound
                     else Errorf ''select reset token'' [err])
          (statement (\<lambda>w. (case reset_of_hash h (db w) of None \<Rightarrow> Err (Sentinel SqlErrNoRows) | Some r \<Rightarrow> Ok r, w))))
       (\<lambda>r. lift (reset_of_row r))"

definition mysql_ConsumeReset :: "ID \<Rightarrow> gotime \<Rightarrow> (world, unit) proc" where
  "mysql_ConsumeReset i at =
     onErr (\<lambda>err. Errorf ''consume reset token'' [err])
       (statement (\<lambda>w. (Ok (), on_db (\<lambda>t. t\<lparr>resets :=
          update_rows (\<lambda>r. r_user_id r = i \<and> r_consumed_at r = None)
            (\<lambda>r. r\<lparr>r_consumed_at := Some (seconds at)\<rparr>) (resets t)\<rparr>) w)))"

definition mysql_users :: "('a) auth_lib_scheme \<Rightarrow> world UserRepository" where
  "mysql_users lib =
     \<lparr>Create = mysql_Create lib, FindByEmail = mysql_FindByEmail lib, FindByID = mysql_FindByID lib,
      TouchActivity = mysql_TouchActivity lib, MarkEmailVerified = mysql_MarkEmailVerified lib,
      UpdatePassword = mysql_UpdatePassword, PutProfile = mysql_SaveProfile lib\<rparr>"

definition mysql_verifications :: "world VerificationRepository" where
  "mysql_verifications =
     \<lparr>PutVerification = mysql_PutVerification, FindVerification = mysql_FindVerification,
      RecordVerificationAttempt = mysql_RecordVerificationAttempt,
      ConsumeVerification = mysql_ConsumeVerification\<rparr>"

definition mysql_resets :: "world PasswordResetRepository" where
  "mysql_resets =
     \<lparr>PutReset = mysql_PutReset, FindResetByHash = mysql_FindResetByHash, ConsumeReset = mysql_ConsumeReset\<rparr>"

end
