(* ===== verification/AuthService.thy ===== *)
theory AuthService
  imports AuthRepository
begin

text \<open>
  The use cases of the authentication module (\<^verbatim>\<open>service.go\<close>, \<^verbatim>\<open>verification.go\<close>,
  \<^verbatim>\<open>password_reset.go\<close> and \<open>SaveProfile\<close> of \<^verbatim>\<open>profile.go\<close>) over their ports: the three
  repositories, the password hasher, the token issuer, the mail notifier, the secret generator, the
  progress snapshot and the clock, each a step on the state of the world. Logging is left out; a
  step whose error is only logged is \<open>handling\<close> with a continuation that ignores it.
\<close>

section \<open>Policy and ports\<close>

text \<open>Durations are nanoseconds.\<close>

record Policy =
  RequireVerifiedEmail :: bool
  VerificationCodeTTL :: int
  MaxVerificationAttempts :: int
  ResetTokenTTL :: int

definition minute :: int where "minute = 60000000000"
definition hour :: int where "hour = 3600000000000"

definition withDefaults :: "Policy \<Rightarrow> Policy" where
  "withDefaults p =
     p\<lparr>VerificationCodeTTL := (if VerificationCodeTTL p \<le> 0 then 15 * minute else VerificationCodeTTL p),
       MaxVerificationAttempts := (if MaxVerificationAttempts p \<le> 0 then 5 else MaxVerificationAttempts p),
       ResetTokenTTL := (if ResetTokenTTL p \<le> 0 then hour else ResetTokenTTL p)\<rparr>"

record 'w AuthService =
  Repo :: "'w UserRepository"
  Verifications :: "'w VerificationRepository"
  Resets :: "'w PasswordResetRepository"
  Hash :: "string \<Rightarrow> ('w, string) proc"
  Compare :: "string \<Rightarrow> string \<Rightarrow> ('w, unit) proc"
  Issue :: "int \<Rightarrow> ('w, string \<times> gotime) proc"
  SendVerificationCode :: "string \<Rightarrow> string \<Rightarrow> ('w, unit) proc"
  SendPasswordReset :: "string \<Rightarrow> string \<Rightarrow> ('w, unit) proc"
  VerificationCode :: "('w, string) proc"
  ResetToken :: "('w, string) proc"
  Snapshot :: "(int \<Rightarrow> ('w, string option) proc) option"
  Policy_of :: Policy
  Clock :: "('w, gotime) proc"
  Lib :: auth_lib

text \<open>The constructor only completes the policy.\<close>

definition NewAuthService :: "'w AuthService \<Rightarrow> 'w AuthService" where
  "NewAuthService deps = deps\<lparr>Policy_of := withDefaults (Policy_of deps)\<rparr>"

definition email_of :: "'w AuthService \<Rightarrow> string \<Rightarrow> string result" where
  "email_of s raw = NewEmail (mail_lib.truncate (Lib s)) raw"

definition add_duration :: "int \<Rightarrow> gotime \<Rightarrow> gotime" where
  "add_duration d t = t\<lparr>Nanos := Nanos t + d\<rparr>"

section \<open>Secrets\<close>

definition hashSecret :: "('a) auth_lib_scheme \<Rightarrow> string \<Rightarrow> string" where
  "hashSecret lib secret = sha256_hex lib secret"

text \<open>\<open>subtle.ConstantTimeCompare\<close> is equality.\<close>

definition sameSecret :: "string \<Rightarrow> string \<Rightarrow> bool" where
  "sameSecret a b \<longleftrightarrow> a = b"

definition silentEmail :: "'w AuthService \<Rightarrow> string \<Rightarrow> string option" where
  "silentEmail s raw = (case email_of s raw of Ok address \<Rightarrow> Some address | _ \<Rightarrow> None)"

section \<open>Sessions\<close>

definition openSession :: "'w AuthService \<Rightarrow> User \<Rightarrow> ('w, Session) proc" where
  "openSession s user =
     andThen (onErr (\<lambda>err. Errorf ''issue token'' [err]) (Issue s (User_ID user)))
       (\<lambda>(token, expiresAt). ret \<lparr>Token = token, ExpiresAt = expiresAt, S_User = user\<rparr>)"

text \<open>The error of a lookup: a known sentinel becomes \<open>known\<close>, anything else is wrapped.\<close>

definition lookup_error :: "sentinel \<Rightarrow> goerr \<Rightarrow> string \<Rightarrow> goerr \<Rightarrow> goerr" where
  "lookup_error missing known m err = (if errors_Is err missing then known else Errorf m [err])"

definition issueVerificationCode :: "'w AuthService \<Rightarrow> User \<Rightarrow> ('w, unit) proc" where
  "issueVerificationCode s user =
     andThen (onErr (\<lambda>err. Errorf ''generate verification code'' [err]) (VerificationCode s)) (\<lambda>code.
     andThen (Clock s) (\<lambda>t.
     andThen (onErr (\<lambda>err. Errorf ''store verification code'' [err])
       (PutVerification (Verifications s)
          \<lparr>V_UserID = User_ID user, CodeHash = hashSecret (Lib s) code, Attempts = 0,
           V_ExpiresAt = add_duration (VerificationCodeTTL (Policy_of s)) (UTC t), V_ConsumedAt = None\<rparr>)) (\<lambda>_.
     handling (SendVerificationCode s (Email user) code) (\<lambda>_. ret ()))))"

definition Register :: "'w AuthService \<Rightarrow> Credentials \<Rightarrow> ('w, Session) proc" where
  "Register s creds =
     andThen (lift (email_of s (C_Email creds))) (\<lambda>email.
     andThen (lift (checkPasswordLength (Password creds))) (\<lambda>_.
     handling (FindByEmail (Repo s) email) (\<lambda>found.
       case found of
         Inr user \<Rightarrow> fail (Sentinel ErrEmailAlreadyExists)
       | Inl err \<Rightarrow>
          (if \<not> errors_Is err ErrUserNotFound then fail (Errorf ''register: look up email'' [err])
           else
             andThen (onErr (\<lambda>err. Errorf ''register: hash password'' [err]) (Hash s (Password creds))) (\<lambda>hash.
             andThen (Clock s) (\<lambda>t.
             andThen (onErr (lookup_error ErrEmailAlreadyExists (Sentinel ErrEmailAlreadyExists) ''register: create user'')
               (Create (Repo s)
                  \<lparr>User_ID = 0, Email = email, PasswordHash = hash, Profile_of = emptyProfile,
                   Activity_of = \<lparr>LastActiveDate = Some (UTCDay t), DistinctLoginDays = 1, StreakDays = 1\<rparr>,
                   EmailVerifiedAt = None, User_CreatedAt = 0, User_UpdatedAt = 0\<rparr>)) (\<lambda>created.
             handling (issueVerificationCode s created) (\<lambda>_.
               if RequireVerifiedEmail (Policy_of s) then ret (Session_without_token created)
               else openSession s created))))))))"

definition Login :: "'w AuthService \<Rightarrow> Credentials \<Rightarrow> ('w, Session) proc" where
  "Login s creds =
     andThen (onErr (\<lambda>_. Sentinel ErrInvalidCredentials) (lift (email_of s (C_Email creds)))) (\<lambda>email.
     andThen (onErr (lookup_error ErrUserNotFound (Sentinel ErrInvalidCredentials) ''login: look up email'')
       (FindByEmail (Repo s) email)) (\<lambda>user.
     andThen (onErr (\<lambda>_. Sentinel ErrInvalidCredentials) (Compare s (PasswordHash user) (Password creds))) (\<lambda>_.
     if RequireVerifiedEmail (Policy_of s) \<and> \<not> EmailVerified user then fail (Sentinel ErrEmailNotVerified)
     else
       andThen (Clock s) (\<lambda>t.
       andThen (onErr (\<lambda>err. Errorf ''login: record activity'' [err])
         (TouchActivity (Repo s) (User_ID user) (DayIn t (Location (Lib s) (Profile_of user))))) (\<lambda>updated.
       openSession s updated)))))"

section \<open>The account\<close>

definition service_FindByID :: "'w AuthService \<Rightarrow> int \<Rightarrow> ('w, User) proc" where
  "service_FindByID s userID =
     andThen (lift (NewID userID)) (\<lambda>i.
       onErr (lookup_error ErrUserNotFound (Sentinel ErrUserNotFound) ''find user'') (FindByID (Repo s) i))"

definition service_Me :: "'w AuthService \<Rightarrow> int \<Rightarrow> ('w, Me) proc" where
  "service_Me s userID =
     andThen (service_FindByID s userID) (\<lambda>user.
       case Snapshot s of
         None \<Rightarrow> ret \<lparr>Me_User = user, Me_Progress = None\<rparr>
       | Some snapshot \<Rightarrow>
           andThen (onErr (\<lambda>err. Errorf ''me: read progress'' [err]) (snapshot userID)) (\<lambda>document.
             ret \<lparr>Me_User = user, Me_Progress = document\<rparr>))"

definition RecordActivity :: "'w AuthService \<Rightarrow> int \<Rightarrow> ('w, User) proc" where
  "RecordActivity s userID =
     andThen (lift (NewID userID)) (\<lambda>i.
     andThen (onErr (lookup_error ErrUserNotFound (Sentinel ErrUserNotFound) ''record activity: look up account'')
       (FindByID (Repo s) i)) (\<lambda>current.
     andThen (Clock s) (\<lambda>t.
       onErr (lookup_error ErrUserNotFound (Sentinel ErrUserNotFound) ''record activity'')
         (TouchActivity (Repo s) i (DayIn t (Location (Lib s) (Profile_of current)))))))"

definition SaveProfile :: "'w AuthService \<Rightarrow> int \<Rightarrow> Profile \<Rightarrow> ('w, User) proc" where
  "SaveProfile s userID profile =
     andThen (lift (NewID userID)) (\<lambda>i.
     andThen (Clock s) (\<lambda>t.
     andThen (lift (normaliseProfile (Lib s) profile t)) (\<lambda>normalised.
       onErr (lookup_error ErrUserNotFound (Sentinel ErrUserNotFound) ''save profile'')
         (PutProfile (Repo s) i normalised))))"

section \<open>Verifying an address\<close>

definition VerifyEmail :: "'w AuthService \<Rightarrow> string \<Rightarrow> string \<Rightarrow> ('w, Session) proc" where
  "VerifyEmail s email code =
     andThen (onErr (\<lambda>_. Sentinel ErrInvalidVerificationCode) (lift (email_of s email))) (\<lambda>address.
     andThen (onErr (lookup_error ErrUserNotFound (Sentinel ErrInvalidVerificationCode) ''verify email: look up account'')
       (FindByEmail (Repo s) address)) (\<lambda>user.
     if EmailVerified user then fail (Sentinel ErrEmailAlreadyVerified)
     else
     andThen (onErr (lookup_error ErrVerificationNotFound (Sentinel ErrInvalidVerificationCode) ''verify email: look up code'')
       (FindVerification (Verifications s) (User_ID user))) (\<lambda>verification.
     andThen (Clock s) (\<lambda>t.
     if \<not> Verification_Usable verification (UTC t) (MaxVerificationAttempts (Policy_of s))
     then fail (Sentinel ErrInvalidVerificationCode)
     else if \<not> sameSecret (CodeHash verification) (hashSecret (Lib s) code)
     then handling (RecordVerificationAttempt (Verifications s) (User_ID user))
            (\<lambda>_. fail (Sentinel ErrInvalidVerificationCode))
     else
     andThen (onErr (\<lambda>err. Errorf ''verify email: consume code'' [err])
       (ConsumeVerification (Verifications s) (User_ID user) (UTC t))) (\<lambda>_.
     andThen (onErr (\<lambda>err. Errorf ''verify email: mark verified'' [err])
       (MarkEmailVerified (Repo s) (User_ID user) (UTC t))) (\<lambda>verified.
     handling (TouchActivity (Repo s) (User_ID verified)
                 (DayIn (UTC t) (Location (Lib s) (Profile_of verified)))) (\<lambda>touched.
       openSession s (case touched of Inr u \<Rightarrow> u | Inl err \<Rightarrow> verified))))))))"

definition ResendVerification :: "'w AuthService \<Rightarrow> string \<Rightarrow> ('w, unit) proc" where
  "ResendVerification s email =
     (case silentEmail s email of
        None \<Rightarrow> ret ()
      | Some address \<Rightarrow>
          handling (FindByEmail (Repo s) address) (\<lambda>found.
            case found of
              Inl err \<Rightarrow> (if errors_Is err ErrUserNotFound then ret ()
                          else fail (Errorf ''resend verification: look up account'' [err]))
            | Inr user \<Rightarrow> (if EmailVerified user then ret () else issueVerificationCode s user)))"

section \<open>Resetting a password\<close>

definition ForgotPassword :: "'w AuthService \<Rightarrow> string \<Rightarrow> ('w, unit) proc" where
  "ForgotPassword s email =
     (case silentEmail s email of
        None \<Rightarrow> ret ()
      | Some address \<Rightarrow>
          handling (FindByEmail (Repo s) address) (\<lambda>found.
            case found of
              Inl err \<Rightarrow> (if errors_Is err ErrUserNotFound then ret ()
                          else fail (Errorf ''forgot password: look up account'' [err]))
            | Inr user \<Rightarrow>
                andThen (onErr (\<lambda>err. Errorf ''generate reset token'' [err]) (ResetToken s)) (\<lambda>token.
                andThen (Clock s) (\<lambda>t.
                andThen (onErr (\<lambda>err. Errorf ''store reset token'' [err])
                  (PutReset (Resets s)
                     \<lparr>R_UserID = User_ID user, TokenHash = hashSecret (Lib s) token,
                      R_ExpiresAt = add_duration (ResetTokenTTL (Policy_of s)) (UTC t), R_ConsumedAt = None\<rparr>)) (\<lambda>_.
                handling (SendPasswordReset s (Email user) token) (\<lambda>_. ret ()))))))"

definition ResetPassword :: "'w AuthService \<Rightarrow> string \<Rightarrow> string \<Rightarrow> ('w, unit) proc" where
  "ResetPassword s token newPassword =
     andThen (lift (checkPasswordLength newPassword)) (\<lambda>_.
     andThen (onErr (lookup_error ErrResetNotFound (Sentinel ErrInvalidResetToken) ''reset password: look up token'')
       (FindResetByHash (Resets s) (hashSecret (Lib s) token))) (\<lambda>reset.
     andThen (Clock s) (\<lambda>t.
     if \<not> Reset_Usable reset (UTC t) then fail (Sentinel ErrInvalidResetToken)
     else
     andThen (onErr (\<lambda>err. Errorf ''reset password: hash password'' [err]) (Hash s newPassword)) (\<lambda>hash.
     andThen (onErr (\<lambda>err. Errorf ''reset password: store password'' [err])
       (UpdatePassword (Repo s) (R_UserID reset) hash)) (\<lambda>_.
     andThen (onErr (\<lambda>err. Errorf ''reset password: consume token'' [err])
       (ConsumeReset (Resets s) (R_UserID reset) (UTC t))) (\<lambda>_.
     handling (MarkEmailVerified (Repo s) (R_UserID reset) (UTC t)) (\<lambda>_. ret ())))))))"

lemma withDefaults_positive:
  "0 < VerificationCodeTTL (withDefaults p)" "0 < MaxVerificationAttempts (withDefaults p)"
  "0 < ResetTokenTTL (withDefaults p)"
  by (simp_all add: withDefaults_def minute_def hour_def)

end
