(* ===== verification/AuthContract.thy ===== *)
theory AuthContract
  imports AuthService
begin

text \<open>
  What the use cases of \<open>AuthService\<close> rely on: the contracts of the three persistence ports, on an
  abstract state (\<open>auth_state\<close>: who owns an address, the password hash and the verification of an
  account, the live code of an account, the live reset token of a hash), and of the remaining ports,
  which leave that state alone. The lemmas of the locale \<open>auth_ports\<close> say what each use case needs
  and leaves behind.
\<close>

section \<open>The abstract state\<close>

record auth_state =
  owner :: "string \<Rightarrow> ID option"
  account :: "ID \<Rightarrow> (string \<times> bool) option"
  code :: "ID \<Rightarrow> EmailVerification option"
  reset :: "string \<Rightarrow> PasswordReset option"

definition on_account :: "ID \<Rightarrow> (string \<times> bool \<Rightarrow> string \<times> bool) \<Rightarrow> auth_state \<Rightarrow> auth_state" where
  "on_account i f a = a\<lparr>account := (account a)(i := map_option f (account a i))\<rparr>"

definition on_code :: "ID \<Rightarrow> (EmailVerification \<Rightarrow> EmailVerification) \<Rightarrow> auth_state \<Rightarrow> auth_state" where
  "on_code i f a = a\<lparr>code := (code a)(i := map_option f (code a i))\<rparr>"

definition missed :: "EmailVerification \<Rightarrow> EmailVerification" where
  "missed v = v\<lparr>Attempts := Attempts v + 1\<rparr>"

definition used_code :: "gotime \<Rightarrow> EmailVerification \<Rightarrow> EmailVerification" where
  "used_code t v = (if V_ConsumedAt v = None then v\<lparr>V_ConsumedAt := Some (seconds t)\<rparr> else v)"

definition used_reset :: "ID \<Rightarrow> gotime \<Rightarrow> PasswordReset \<Rightarrow> PasswordReset" where
  "used_reset i t v =
     (if R_UserID v = i \<and> R_ConsumedAt v = None then v\<lparr>R_ConsumedAt := Some (seconds t)\<rparr> else v)"

text \<open>A new link: it is live, and the ones its account had before are gone.\<close>

definition with_reset :: "PasswordReset \<Rightarrow> auth_state \<Rightarrow> auth_state" where
  "with_reset v a = a\<lparr>reset := (\<lambda>h. if h = TokenHash v then Some v
     else case reset a h of
            None \<Rightarrow> None
          | Some x \<Rightarrow> if R_UserID x = R_UserID v then None else Some x)\<rparr>"

section \<open>The persistence contracts\<close>

locale user_store =
  fixes users :: "'w UserRepository" and st :: "'w \<Rightarrow> auth_state" and invar :: "'w \<Rightarrow> bool"
  assumes find_email_keeps: "keeps (\<lambda>w. st w = x) (FindByEmail users e)"
    and find_id_keeps: "keeps (\<lambda>w. st w = x) (FindByID users i)"
    and touch_keeps: "keeps (\<lambda>w. st w = x) (TouchActivity users i d)"
    and profile_keeps: "keeps (\<lambda>w. st w = x) (PutProfile users i p)"
    and find_email_Ok: "invar w \<Longrightarrow> FindByEmail users e w = (Ok u, w1) \<Longrightarrow>
      owner (st w) e = Some (User_ID u) \<and> account (st w) (User_ID u) = Some (PasswordHash u, EmailVerified u)"
    and find_email_none: "FindByEmail users e w = (Err err, w1) \<Longrightarrow> errors_Is err ErrUserNotFound \<Longrightarrow>
      owner (st w) e = None"
    and find_id_Ok: "FindByID users i w = (Ok u, w1) \<Longrightarrow> User_ID u = i"
    and touch_Ok: "TouchActivity users i d w = (Ok u, w1) \<Longrightarrow> User_ID u = i"
    and mark_Ok: "MarkEmailVerified users i t w = (Ok u, w1) \<Longrightarrow>
      User_ID u = i \<and> st w1 = on_account i (\<lambda>(h, v). (h, True)) (st w)"
    and mark_other: "MarkEmailVerified users i t w = (r, w1) \<Longrightarrow>
      st w1 = st w \<or> st w1 = on_account i (\<lambda>(h, v). (h, True)) (st w)"
    and password_Ok: "UpdatePassword users i h w = (Ok y, w1) \<Longrightarrow>
      account (st w) i \<noteq> None \<and> st w1 = on_account i (\<lambda>(g, v). (h, v)) (st w)"
    and create_Ok: "invar w \<Longrightarrow> Create users u w = (Ok c, w1) \<Longrightarrow>
      owner (st w) (Email u) = None \<and> owner (st w1) (Email u) = Some (User_ID c) \<and> account (st w) (User_ID c) = None \<and>
      account (st w1) = (account (st w))(User_ID c \<mapsto> (PasswordHash u, False))"

locale verification_store =
  fixes verifications :: "'w VerificationRepository" and st :: "'w \<Rightarrow> auth_state"
  assumes find_code_keeps: "keeps (\<lambda>w. st w = x) (FindVerification verifications i)"
    and find_code_Ok: "FindVerification verifications i w = (Ok v, w1) \<Longrightarrow> code (st w) i = Some v"
    and miss: "RecordVerificationAttempt verifications i w = (r, w1) \<Longrightarrow>
      st w1 = (if is_Ok r then on_code i missed (st w) else st w)"
    and consume_code: "ConsumeVerification verifications i t w = (r, w1) \<Longrightarrow>
      st w1 = (if is_Ok r then on_code i (used_code t) (st w) else st w)"
    and put_code: "PutVerification verifications v w = (r, w1) \<Longrightarrow>
      (if is_Ok r then st w1 = (st w)\<lparr>code := (code (st w))(V_UserID v \<mapsto>
           v\<lparr>Attempts := 0, V_ExpiresAt := of_seconds (seconds (V_ExpiresAt v)), V_ConsumedAt := None\<rparr>)\<rparr>
       else st w1 = st w)"

locale reset_store =
  fixes resets :: "'w PasswordResetRepository" and st :: "'w \<Rightarrow> auth_state" and invar :: "'w \<Rightarrow> bool"
  assumes find_reset_keeps: "keeps (\<lambda>w. st w = x) (FindResetByHash resets h)"
    and find_reset_Ok: "FindResetByHash resets h w = (Ok v, w1) \<Longrightarrow> reset (st w) h = Some v \<and> TokenHash v = h"
    and consume_reset: "ConsumeReset resets i t w = (r, w1) \<Longrightarrow>
      st w1 = (if is_Ok r then (st w)\<lparr>reset := (\<lambda>h. map_option (used_reset i t) (reset (st w) h))\<rparr> else st w)"
    and put_reset: "invar w \<Longrightarrow> reset (st w) (TokenHash v) = None \<Longrightarrow> PutReset resets v w = (r, w1) \<Longrightarrow>
      st w1 = (if is_Ok r then with_reset (v\<lparr>R_ExpiresAt := of_seconds (seconds (R_ExpiresAt v)), R_ConsumedAt := None\<rparr>) (st w)
               else st w)"

end
