(* ===== verification/AuthUseCases.thy ===== *)
theory AuthUseCases
  imports AuthContract
begin

text \<open>
  What the use cases of the authentication module need and leave behind, proved once from the
  contracts of their ports.
\<close>

locale auth_ports =
  user_store "Repo s" st invar + verification_store "Verifications s" st + reset_store "Resets s" st invar
  for s :: "'w AuthService" and st :: "'w \<Rightarrow> auth_state" and invar :: "'w \<Rightarrow> bool" +
  assumes hash_keeps: "keeps (\<lambda>w. st w = x) (Hash s p)"
    and compare_keeps: "keeps (\<lambda>w. st w = x) (Compare s h p)"
    and issue_keeps: "keeps (\<lambda>w. st w = x) (Issue s i)"
    and send_code_keeps: "keeps (\<lambda>w. st w = x) (SendVerificationCode s e c)"
    and send_reset_keeps: "keeps (\<lambda>w. st w = x) (SendPasswordReset s e c)"
    and new_code_keeps: "keeps (\<lambda>w. st w = x) (VerificationCode s)"
    and new_token_keeps: "keeps (\<lambda>w. st w = x) (ResetToken s)"
    and time_keeps: "keeps (\<lambda>w. st w = x) (Clock s)"
begin

lemmas same =
  keeps_eq [where f = st, OF find_email_keeps] keeps_eq [where f = st, OF touch_keeps]
  keeps_eq [where f = st, OF hash_keeps] keeps_eq [where f = st, OF compare_keeps]
  keeps_eq [where f = st, OF issue_keeps] keeps_eq [where f = st, OF new_code_keeps]
  keeps_eq [where f = st, OF send_code_keeps] keeps_eq [where f = st, OF send_reset_keeps]
  keeps_eq [where f = st, OF new_token_keeps] keeps_eq [where f = st, OF time_keeps]
  keeps_eq [where f = st, OF find_code_keeps] keeps_eq [where f = st, OF find_reset_keeps]

lemma openSession_Ok:
  assumes "openSession s u w = (Ok sess, w1)"
  shows "S_User sess = u \<and> st w1 = st w \<and> (\<exists>w2. Issue s (User_ID u) w = (Ok (Token sess, ExpiresAt sess), w2))"
  using assms by (auto simp: openSession_def andThen_Ok_iff dest: same split: prod.splits)

text \<open>A login proves the password of the account that owns the address, and passes the gate.\<close>

lemma Login_Ok:
  assumes "Login s creds w = (Ok sess, w1)" "invar w"
  shows "\<exists>e i h v w2 w3. email_of s (C_Email creds) = Ok e \<and> owner (st w) e = Some i \<and> account (st w) i = Some (h, v) \<and>
    fst (Compare s h (Password creds) w2) = Ok () \<and> (RequireVerifiedEmail (Policy_of s) \<longrightarrow> v) \<and>
    User_ID (S_User sess) = i \<and> fst (Issue s i w3) = Ok (Token sess, ExpiresAt sess) \<and> st w1 = st w"
proof -
  obtain e u w2 y w3 t w4 v w5 where e: "email_of s (C_Email creds) = Ok e"
    and f: "FindByEmail (Repo s) e w = (Ok u, w2)" and c: "Compare s (PasswordHash u) (Password creds) w2 = (Ok y, w3)"
    and g: "\<not> (RequireVerifiedEmail (Policy_of s) \<and> \<not> EmailVerified u)" and t: "Clock s w3 = (Ok t, w4)"
    and a: "TouchActivity (Repo s) (User_ID u) (DayIn t (Location (Lib s) (Profile_of u))) w4 = (Ok v, w5)"
    and o: "openSession s v w5 = (Ok sess, w1)"
    using assms(1) by (auto simp: Login_def andThen_Ok_iff split: if_splits)
  have i: "fst (Issue s (User_ID u) w5) = Ok (Token sess, ExpiresAt sess)" "User_ID (S_User sess) = User_ID u"
    "st w1 = st w5"
    using openSession_Ok [OF o] touch_Ok [OF a] by auto
  have "st w5 = st w" using same(1) [OF f] same(4) [OF c] same(10) [OF t] same(2) [OF a] by simp
  with i e c g find_email_Ok [OF assms(2) f] show ?thesis
    by (intro exI [of _ e] exI [of _ "User_ID u"] exI [of _ "PasswordHash u"] exI [of _ "EmailVerified u"] exI [of _ w2]
        exI [of _ w5]) simp
qed

text \<open>Verifying needs the live code of the account; it uses the code up and confirms the account.\<close>

lemma VerifyEmail_Ok:
  assumes "VerifyEmail s e c w = (Ok sess, w1)" "invar w"
  shows "\<exists>addr i h v t. email_of s e = Ok addr \<and> owner (st w) addr = Some i \<and> account (st w) i = Some (h, False) \<and>
    code (st w) i = Some v \<and> Verification_Usable v t (MaxVerificationAttempts (Policy_of s)) \<and>
    CodeHash v = hashSecret (Lib s) c \<and> User_ID (S_User sess) = i \<and>
    st w1 = on_account i (\<lambda>(h, v). (h, True)) (on_code i (used_code t) (st w))"
proof -
  obtain addr u w2 v w3 t w4 y w5 u2 w6 where e: "email_of s e = Ok addr"
    and f: "FindByEmail (Repo s) addr w = (Ok u, w2)" and nv: "\<not> EmailVerified u"
    and fc: "FindVerification (Verifications s) (User_ID u) w2 = (Ok v, w3)" and t: "Clock s w3 = (Ok t, w4)"
    and us: "Verification_Usable v (UTC t) (MaxVerificationAttempts (Policy_of s))"
    and ss: "sameSecret (CodeHash v) (hashSecret (Lib s) c)"
    and cc: "ConsumeVerification (Verifications s) (User_ID u) (UTC t) w4 = (Ok y, w5)"
    and m: "MarkEmailVerified (Repo s) (User_ID u) (UTC t) w5 = (Ok u2, w6)"
    and rest: "handling (TouchActivity (Repo s) (User_ID u2) (DayIn (UTC t) (Location (Lib s) (Profile_of u2)))) (\<lambda>touched.
       openSession s (case touched of Inr u \<Rightarrow> u | Inl err \<Rightarrow> u2)) w6 = (Ok sess, w1)"
    using assms(1) by (auto simp: VerifyEmail_def andThen_Ok_iff split: if_splits)
  have m2: "User_ID u2 = User_ID u" "st w6 = on_account (User_ID u) (\<lambda>(h, v). (h, True)) (st w5)"
    using mark_Ok [OF m] by blast+
  have "User_ID (S_User sess) = User_ID u \<and> st w1 = st w6"
  proof -
    obtain r v2 w7 where r: "TouchActivity (Repo s) (User_ID u2) (DayIn (UTC t) (Location (Lib s) (Profile_of u2))) w6 = (r, w7)"
      and o: "openSession s v2 w7 = (Ok sess, w1)" and v2: "r = Ok v2 \<or> v2 = u2"
      using rest unfolding handling_Ok_iff by fastforce
    have "User_ID v2 = User_ID u2" using v2 touch_Ok r by blast
    then show ?thesis using openSession_Ok [OF o] same(2) [OF r] m2(1) by simp
  qed
  moreover have "st w4 = st w" using same(1) [OF f] same(11) [OF fc] same(10) [OF t] by simp
  moreover have "st w5 = on_code (User_ID u) (used_code (UTC t)) (st w4)" using consume_code [OF cc] by simp
  moreover have "code (st w) (User_ID u) = Some v" using find_code_Ok [OF fc] same(1) [OF f] by simp
  ultimately show ?thesis
    using e find_email_Ok [OF assms(2) f] nv us ss m2(2)
    by (intro exI [of _ addr] exI [of _ "User_ID u"] exI [of _ "PasswordHash u"] exI [of _ v] exI [of _ "UTC t"])
      (simp add: sameSecret_def)
qed

text \<open>A reset needs the live link; it sets the password of the account of the link and uses it up.\<close>

lemma ResetPassword_Ok:
  assumes "ResetPassword s token p w = (Ok y, w1)"
  shows "\<exists>v t h w2. checkPasswordLength p = Ok () \<and> reset (st w) (hashSecret (Lib s) token) = Some v \<and> Reset_Usable v t \<and>
    fst (Hash s p w2) = Ok h \<and> account (st w) (R_UserID v) \<noteq> None \<and>
    (\<exists>b. account (st w1) = (account (st w))(R_UserID v \<mapsto> (h, b))) \<and>
    owner (st w1) = owner (st w) \<and> code (st w1) = code (st w) \<and>
    reset (st w1) = (\<lambda>k. map_option (used_reset (R_UserID v) t) (reset (st w) k))"
proof -
  obtain v w2 t w3 h w4 w5 w6 where p: "checkPasswordLength p = Ok ()"
    and f: "FindResetByHash (Resets s) (hashSecret (Lib s) token) w = (Ok v, w2)" and t: "Clock s w2 = (Ok t, w3)"
    and u: "Reset_Usable v (UTC t)" and h: "Hash s p w3 = (Ok h, w4)"
    and up: "UpdatePassword (Repo s) (R_UserID v) h w4 = (Ok (), w5)"
    and c: "ConsumeReset (Resets s) (R_UserID v) (UTC t) w5 = (Ok (), w6)"
    and m: "handling (MarkEmailVerified (Repo s) (R_UserID v) (UTC t)) (\<lambda>_. ret ()) w6 = (Ok y, w1)"
    using assms by (auto simp: ResetPassword_def andThen_Ok_iff split: if_splits)
  obtain r where mr: "MarkEmailVerified (Repo s) (R_UserID v) (UTC t) w6 = (r, w1)"
    using m by (auto simp: handling_def split: prod.splits result.splits)
  have w4: "st w4 = st w" using same(12) [OF f] same(10) [OF t] same(3) [OF h] by simp
  have w5: "account (st w) (R_UserID v) \<noteq> None" "st w5 = on_account (R_UserID v) (\<lambda>(g, v). (h, v)) (st w)"
    using password_Ok [OF up] w4 by simp_all
  have w6: "st w6 = (st w5)\<lparr>reset := (\<lambda>k. map_option (used_reset (R_UserID v) (UTC t)) (reset (st w5) k))\<rparr>"
    using consume_reset [OF c] by simp
  obtain g b where g: "account (st w) (R_UserID v) = Some (g, b)" using w5(1) by auto
  have "\<exists>b. account (st w1) = (account (st w))(R_UserID v \<mapsto> (h, b))"
    using mark_other [OF mr] g unfolding w6 w5(2) on_account_def by (auto intro: exI [of _ b] exI [of _ True])
  moreover have "owner (st w1) = owner (st w)" "code (st w1) = code (st w)"
    "reset (st w1) = (\<lambda>k. map_option (used_reset (R_UserID v) (UTC t)) (reset (st w) k))"
    using mark_other [OF mr] unfolding w6 w5(2) on_account_def by auto
  ultimately show ?thesis
    using p find_reset_Ok [OF f] u h w5(1)
    by (intro exI [of _ v] exI [of _ "UTC t"] exI [of _ h] exI [of _ w3]) simp
qed

lemma ResetPassword_dead:
  assumes "\<And>v. reset (st w) (hashSecret (Lib s) token) = Some v \<Longrightarrow> R_ConsumedAt v \<noteq> None"
  shows "\<not> is_Ok (fst (ResetPassword s token p w))"
proof
  assume "is_Ok (fst (ResetPassword s token p w))"
  then obtain y w1 where "ResetPassword s token p w = (Ok y, w1)" by (metis is_OkE prod.collapse)
  from ResetPassword_Ok [OF this] assms show False by (auto simp: Reset_Usable_def)
qed

lemma ResetPassword_single_use:
  assumes "ResetPassword s token p w = (Ok y, w1)"
    and "reset (st w2) (hashSecret (Lib s) token) = reset (st w1) (hashSecret (Lib s) token)"
  shows "\<not> is_Ok (fst (ResetPassword s token q w2))"
  using ResetPassword_Ok [OF assms(1)] assms(2)
  by (intro ResetPassword_dead) (auto simp: used_reset_def Reset_Usable_def)

text \<open>A code that was issued, whatever happens to the mail.\<close>

lemma issue_code_effect:
  assumes "issueVerificationCode s u w = (r, w1)"
  shows "owner (st w1) = owner (st w) \<and> account (st w1) = account (st w) \<and> reset (st w1) = reset (st w)"
proof -
  have P: "keeps (\<lambda>w. owner (st w) = a \<and> account (st w) = b \<and> reset (st w) = c) (PutVerification (Verifications s) v)" for a b c v
  proof (rule keepsI)
    fix w
    assume a: "owner (st w) = a \<and> account (st w) = b \<and> reset (st w) = c"
    obtain r w1 where r: "PutVerification (Verifications s) v w = (r, w1)" by fastforce
    with put_code [OF r] a
    show "owner (st (snd (PutVerification (Verifications s) v w))) = a \<and>
        account (st (snd (PutVerification (Verifications s) v w))) = b \<and>
        reset (st (snd (PutVerification (Verifications s) v w))) = c"
      by (simp split: if_splits)
  qed
  have K: "keeps (\<lambda>w. owner (st w) = a \<and> account (st w) = b \<and> reset (st w) = c) m" if "\<And>x. keeps (\<lambda>w. st w = x) m" for a b c and m :: "('w, 'b) proc"
    using that unfolding keeps_def by metis
  have "keeps (\<lambda>x. owner (st x) = owner (st w) \<and> account (st x) = account (st w) \<and> reset (st x) = reset (st w)) (issueVerificationCode s u)"
    unfolding issueVerificationCode_def
    by (intro keeps_intros P K new_code_keeps time_keeps send_code_keeps)
  from keepsD [OF this, of w] assms show ?thesis by simp
qed

lemma Register_Ok:
  assumes "Register s creds w = (Ok sess, w1)" "invar w"
    and invar_keeps: "\<And>e. keeps invar (FindByEmail (Repo s) e)" "\<And>p. keeps invar (Hash s p)" "keeps invar (Clock s)"
  shows "\<exists>e h i w2. email_of s (C_Email creds) = Ok e \<and> checkPasswordLength (Password creds) = Ok () \<and>
    owner (st w) e = None \<and> account (st w) i = None \<and> fst (Hash s (Password creds) w2) = Ok h \<and>
    owner (st w1) e = Some i \<and> account (st w1) = (account (st w))(i \<mapsto> (h, False)) \<and>
    User_ID (S_User sess) = i \<and> (RequireVerifiedEmail (Policy_of s) \<longrightarrow> Token sess = [])"
proof -
  obtain e err w2 h w3 t w4 c w5 where e: "email_of s (C_Email creds) = Ok e" and p: "checkPasswordLength (Password creds) = Ok ()"
    and f: "FindByEmail (Repo s) e w = (Err err, w2)" "errors_Is err ErrUserNotFound"
    and h: "Hash s (Password creds) w2 = (Ok h, w3)" and t: "Clock s w3 = (Ok t, w4)"
    and c: "Create (Repo s) \<lparr>User_ID = 0, Email = e, PasswordHash = h, Profile_of = emptyProfile,
                   Activity_of = \<lparr>LastActiveDate = Some (UTCDay t), DistinctLoginDays = 1, StreakDays = 1\<rparr>,
                   EmailVerifiedAt = None, User_CreatedAt = 0, User_UpdatedAt = 0\<rparr> w4 = (Ok c, w5)"
    and rest: "handling (issueVerificationCode s c) (\<lambda>_.
               if RequireVerifiedEmail (Policy_of s) then ret (Session_without_token c) else openSession s c) w5 = (Ok sess, w1)"
    using assms(1)
    by (auto simp: Register_def andThen_Ok_iff handling_Ok_iff [of "FindByEmail (Repo s) _"] split: if_splits)
  have st4: "st w4 = st w" using same(1) [OF f(1)] same(3) [OF h] same(10) [OF t] by simp
  have "invar w2" using keepsD [OF invar_keeps(1), of w e] assms(2) f(1) by simp
  then have "invar w3" using keepsD [OF invar_keeps(2), of w2 "Password creds"] h by simp
  then have "invar w4" using keepsD [OF invar_keeps(3), of w3] t by simp
  note cr = create_Ok [OF this c, simplified]
  obtain r w6 where i: "issueVerificationCode s c w5 = (r, w6)" by fastforce
  note ic = issue_code_effect [OF i]
  have "S_User sess = c \<and> st w1 = st w6 \<and> (RequireVerifiedEmail (Policy_of s) \<longrightarrow> Token sess = [])"
  proof (cases "RequireVerifiedEmail (Policy_of s)")
    case True
    then show ?thesis using rest i unfolding handling_Ok_iff by (auto simp: Session_without_token_def)
  next
    case False
    then have "openSession s c w6 = (Ok sess, w1)" using rest i unfolding handling_Ok_iff by auto
    with False openSession_Ok show ?thesis by blast
  qed
  then have last: "User_ID (S_User sess) = User_ID c" "st w1 = st w6" "RequireVerifiedEmail (Policy_of s) \<longrightarrow> Token sess = []"
    by blast+
  show ?thesis
  proof (intro exI conjI)
    show "email_of s (C_Email creds) = Ok e" "checkPasswordLength (Password creds) = Ok ()"
      "User_ID (S_User sess) = User_ID c" "RequireVerifiedEmail (Policy_of s) \<longrightarrow> Token sess = []"
      using e p last by blast+
    show "fst (Hash s (Password creds) w2) = Ok h" using h by simp
    show "owner (st w) e = None" "account (st w) (User_ID c) = None" using cr st4 by simp_all
    show "owner (st w1) e = Some (User_ID c)" "account (st w1) = (account (st w))(User_ID c \<mapsto> (h, False))"
      using cr st4 ic last(2) by simp_all
  qed
qed


end

end
