(* ===== verification/ProgressRepository.thy ===== *)
theory ProgressRepository
  imports World
begin

text \<open>
  The persistence port of the progress module (\<open>Repository\<close> in
  \<^verbatim>\<open>internal/modules/progress/domain.go\<close>) and its MariaDB implementation
  (\<^verbatim>\<open>repository_mysql.go\<close>) on the tables of \<open>World\<close>. \<open>Mutate\<close> runs its function inside a
  transaction: whatever does not end with a successful commit, a panic of the function included,
  is rolled back.

  The locale \<open>progress_repository\<close> is the contract the service relies on, with \<open>stored\<close> the document
  of each user; it is interpreted on the MariaDB implementation at the end.
\<close>

section \<open>The port\<close>

record Progress =
  ID_of :: ID
  UserID_of :: ID
  Data :: string
  CreatedAt :: int
  UpdatedAt :: int

record 'w Repository =
  FindByUserID :: "ID \<Rightarrow> ('w, Progress) proc"
  Upsert :: "ID \<Rightarrow> string \<Rightarrow> ('w, Progress) proc"
  Mutate :: "ID \<Rightarrow> (string \<Rightarrow> ('w, string) proc) \<Rightarrow> ('w, Progress) proc"

section \<open>The MariaDB implementation\<close>

definition mysqlNoReferencedRow :: nat where "mysqlNoReferencedRow = 1216"
definition mysqlNoReferencedRow2 :: nat where "mysqlNoReferencedRow2 = 1452"

fun mysql_number :: "goerr \<Rightarrow> nat" where
  "mysql_number (MySQLError n) = n"
| "mysql_number e = 0"

definition isMissingReference :: "goerr \<Rightarrow> bool" where
  "isMissingReference err =
     (case errors_As is_MySQLError err of
        None \<Rightarrow> False
      | Some e \<Rightarrow> mysql_number e = mysqlNoReferencedRow \<or> mysql_number e = mysqlNoReferencedRow2)"

text \<open>\<open>selectProgressByUserQuery\<close>, \<open>lockProgressQuery\<close> and \<open>upsertProgressQuery\<close>. The CHECK of the
  column is error 4025, a missing owner violates the foreign key.\<close>

definition progress_of :: "int \<Rightarrow> tables \<Rightarrow> progress_row option" where
  "progress_of u t = row_with (\<lambda>r. p_user_id r = u) (progress t)"

definition select_progress :: "int \<Rightarrow> (world, progress_row) proc" where
  "select_progress u =
     statement (\<lambda>w. (case progress_of u (db w) of
                       None \<Rightarrow> Err (Sentinel SqlErrNoRows)
                     | Some r \<Rightarrow> Ok r, w))"

definition put_progress :: "int \<Rightarrow> string \<Rightarrow> int \<Rightarrow> tables \<Rightarrow> tables" where
  "put_progress u data at t =
     (case progress_of u t of
        None \<Rightarrow> t\<lparr>progress := progress t @ [\<lparr>p_id = next_progress_id t, p_user_id = u, p_data = data,
                                             p_created_at = at, p_updated_at = at\<rparr>],
                 next_progress_id := next_progress_id t + 1\<rparr>
      | Some _ \<Rightarrow> t\<lparr>progress := update_rows (\<lambda>r. p_user_id r = u)
                                 (\<lambda>r. r\<lparr>p_data := data, p_updated_at := at\<rparr>) (progress t)\<rparr>)"

definition upsert_progress :: "int \<Rightarrow> string \<Rightarrow> (world, unit) proc" where
  "upsert_progress u data =
     statement (\<lambda>w.
       if \<not> accepts_text w data then (Err (MySQLError 4025), w)
       else if row_with (\<lambda>r. u_id r = u) (users (db w)) = None then (Err (MySQLError 1452), w)
       else (Ok (), on_db (put_progress u data (current_timestamp w)) w))"

definition begin_tx :: "(world, unit) proc" where
  "begin_tx = statement (\<lambda>w. (Ok (), w))"

definition commit_tx :: "(world, unit) proc" where
  "commit_tx = statement (\<lambda>w. (Ok (), w))"

text \<open>What the deferred rollback undoes: all the tables, unless the body returned.\<close>

definition transaction :: "(world, 'a) proc \<Rightarrow> (world, 'a) proc" where
  "transaction body w =
     (case body w of
        (Ok x, w1) \<Rightarrow> (Ok x, w1)
      | (r, w1) \<Rightarrow> (r, w1\<lparr>db := db w\<rparr>))"

definition mysql_FindByUserID :: "ID \<Rightarrow> (world, Progress) proc" where
  "mysql_FindByUserID userID =
     andThen
       (onErr (\<lambda>err. if errors_Is err SqlErrNoRows then Sentinel ErrProgressNotFound
                     else Errorf ''select progress'' [err])
          (select_progress userID))
       (\<lambda>row.
        andThen (onErr (\<lambda>err. Errorf ''stored progress id'' [err]) (lift (NewID (p_id row)))) (\<lambda>id.
        andThen (onErr (\<lambda>err. Errorf ''stored progress user id'' [err]) (lift (NewID (p_user_id row)))) (\<lambda>user.
          ret \<lparr>ID_of = id, UserID_of = user, Data = p_data row,
               CreatedAt = p_created_at row, UpdatedAt = p_updated_at row\<rparr>)))"

definition write_error :: "string \<Rightarrow> goerr \<Rightarrow> goerr" where
  "write_error m err = (if isMissingReference err then Sentinel ErrUnknownOwner else Errorf m [err])"

definition mysql_Upsert :: "ID \<Rightarrow> string \<Rightarrow> (world, Progress) proc" where
  "mysql_Upsert userID data =
     andThen (onErr (write_error ''upsert progress'') (upsert_progress userID data))
       (\<lambda>_. mysql_FindByUserID userID)"

definition mysql_Mutate :: "ID \<Rightarrow> (string \<Rightarrow> (world, string) proc) \<Rightarrow> (world, Progress) proc" where
  "mysql_Mutate userID fn =
     andThen (onErr (\<lambda>err. Errorf ''begin progress transaction'' [err]) begin_tx) (\<lambda>_.
     andThen
       (transaction
          (handling (select_progress userID) (\<lambda>locked.
           andThen
             (case locked of
                Inr row \<Rightarrow> ret (p_data row)
              | Inl err \<Rightarrow> if errors_Is err SqlErrNoRows then ret []
                           else fail (Errorf ''lock progress'' [err])) (\<lambda>stored.
           andThen (fn stored) (\<lambda>updated.
           andThen (onErr (write_error ''write progress'') (upsert_progress userID updated)) (\<lambda>_.
             onErr (\<lambda>err. Errorf ''commit progress transaction'' [err]) commit_tx))))))
       (\<lambda>_. mysql_FindByUserID userID))"

definition mysql_progress_repository :: "world Repository" where
  "mysql_progress_repository =
     \<lparr>FindByUserID = mysql_FindByUserID, Upsert = mysql_Upsert, Mutate = mysql_Mutate\<rparr>"

section \<open>The contract\<close>

text \<open>The stored document of a user as the function of \<open>Mutate\<close> receives it: nil when there is none.\<close>

definition current_of :: "string option \<Rightarrow> string" where
  "current_of d = (case d of None \<Rightarrow> [] | Some c \<Rightarrow> c)"

locale progress_repository =
  fixes repo :: "'w Repository" and stored :: "'w \<Rightarrow> ID \<Rightarrow> string option"
  assumes find_keeps: "stored (snd (FindByUserID repo u w)) = stored w"
    and find_Ok: "fst (FindByUserID repo u w) = Ok p \<Longrightarrow> stored w u = Some (Data p) \<and> UserID_of p = u"
    and find_no_panic: "fst (FindByUserID repo u w) \<noteq> Panic m"
    and upsert_Ok: "Upsert repo u d w = (Ok p, w1) \<Longrightarrow> stored w1 = (stored w)(u \<mapsto> d) \<and> Data p = d"
    and upsert_Err: "Upsert repo u d w = (Err e, w1) \<Longrightarrow> stored w1 = stored w \<or> stored w1 = (stored w)(u \<mapsto> d)"
    and upsert_no_panic: "fst (Upsert repo u d w) \<noteq> Panic m"
    and mutate_Ok: "(\<And>c v. stored (snd (fn c v)) = stored v) \<Longrightarrow> Mutate repo u fn w = (Ok p, w1) \<Longrightarrow>
      \<exists>v d. fst (fn (current_of (stored w u)) v) = Ok d \<and> stored w1 = (stored w)(u \<mapsto> d) \<and> Data p = d"
    and mutate_other: "(\<And>c v. stored (snd (fn c v)) = stored v) \<Longrightarrow> Mutate repo u fn w = (r, w1) \<Longrightarrow>
      stored w1 = stored w \<or>
      (\<exists>v d. fst (fn (current_of (stored w u)) v) = Ok d \<and> stored w1 = (stored w)(u \<mapsto> d))"
    and mutate_panic: "(\<And>c v. stored (snd (fn c v)) = stored v) \<Longrightarrow> fst (Mutate repo u fn w) = Panic m \<Longrightarrow>
      \<exists>v. fst (fn (current_of (stored w u)) v) = Panic m"
begin

text \<open>A function that fails on the stored document leaves everything as it was.\<close>

lemma mutate_refused:
  assumes "\<And>c v. stored (snd (fn c v)) = stored v" "\<And>v. \<not> is_Ok (fst (fn (current_of (stored w u)) v))"
  shows "stored (snd (Mutate repo u fn w)) = stored w \<and> \<not> is_Ok (fst (Mutate repo u fn w))"
proof -
  obtain r w1 where m: "Mutate repo u fn w = (r, w1)" by fastforce
  have no: "fst (fn (current_of (stored w u)) v) \<noteq> Ok d" for v d using assms(2) [of v] by auto
  then have "stored w1 = stored w" using mutate_other [OF assms(1) m] by blast
  moreover have "\<not> is_Ok r"
  proof
    assume "is_Ok r"
    then obtain p where "Mutate repo u fn w = (Ok p, w1)" using m by (cases r) auto
    from mutate_Ok [OF assms(1) this] no show False by blast
  qed
  ultimately show ?thesis using m by simp
qed

lemma only_own_document:
  assumes "\<And>c v. stored (snd (fn c v)) = stored v" "v \<noteq> u"
  shows "stored (snd (Mutate repo u fn w)) v = stored w v" "stored (snd (Upsert repo u d w)) v = stored w v"
proof -
  obtain r w1 where m: "Mutate repo u fn w = (r, w1)" by fastforce
  show "stored (snd (Mutate repo u fn w)) v = stored w v"
    using mutate_other [OF assms(1) m] assms(2) m by (elim disjE exE conjE) simp_all
  obtain r2 w2 where m2: "Upsert repo u d w = (r2, w2)" by fastforce
  then show "stored (snd (Upsert repo u d w)) v = stored w v"
    using upsert_Ok [of u d w _ w2] upsert_Err [of u d w _ w2] upsert_no_panic [of u d w] assms(2)
    by (cases r2) auto
qed

end

section \<open>The MariaDB implementation meets the contract\<close>

definition stored_progress :: "world \<Rightarrow> ID \<Rightarrow> string option" where
  "stored_progress w u = map_option p_data (progress_of u (db w))"

lemma progress_of_put:
  "map_option p_data (progress_of v (put_progress u d at t)) =
     (if v = u then Some d else map_option p_data (progress_of v t))"
proof (cases "progress_of u t")
  case None
  then show ?thesis
    by (auto simp: progress_of_def put_progress_def row_with_def find_append split: option.splits)
next
  case (Some r)
  have "row_with (\<lambda>r. p_user_id r = v) (update_rows (\<lambda>r. p_user_id r = u) f (progress t)) =
      (if v = u then map_option f (progress_of u t) else progress_of v t)"
    if "\<And>r. p_user_id (f r) = p_user_id r" for f
    using that by (auto simp: progress_of_def intro!: row_with_update_other)
  with Some show ?thesis by (simp add: put_progress_def) (simp add: progress_of_def)
qed

lemma stored_put [simp]:
  "stored_progress (w\<lparr>faults := bs, db := put_progress u d at (db w)\<rparr>) = (stored_progress w)(u \<mapsto> d)"
  by (simp add: stored_progress_def progress_of_put fun_eq_iff)

lemma stored_faults [simp]: "stored_progress (w\<lparr>faults := bs\<rparr>) = stored_progress w"
  by (simp add: stored_progress_def fun_eq_iff)

lemma select_progress_spec:
  "select_progress u w = (r, w1) \<Longrightarrow> db w1 = db w \<and> (\<forall>m. r \<noteq> Panic m) \<and>
     (\<forall>row. r = Ok row \<longrightarrow> progress_of u (db w) = Some row \<and> p_user_id row = u) \<and>
     (\<forall>e. r = Err e \<longrightarrow> errors_Is e SqlErrNoRows \<longrightarrow> progress_of u (db w) = None)"
  unfolding select_progress_def progress_of_def
  by (elim statementE) (auto split: option.splits dest: row_with_Some)

lemma upsert_progress_spec:
  "upsert_progress u d w = (r, w1) \<Longrightarrow> (\<forall>m. r \<noteq> Panic m) \<and>
     (is_Ok r \<longrightarrow> stored_progress w1 = (stored_progress w)(u \<mapsto> d)) \<and> (\<not> is_Ok r \<longrightarrow> db w1 = db w)"
  unfolding upsert_progress_def
  by (elim statementE) (auto split: if_splits)

lemma mysql_find_spec:
  "mysql_FindByUserID u w = (r, w1) \<Longrightarrow> db w1 = db w \<and> (\<forall>m. r \<noteq> Panic m) \<and>
     (\<forall>p. r = Ok p \<longrightarrow> stored_progress w u = Some (Data p) \<and> UserID_of p = u)"
proof -
  assume m: "mysql_FindByUserID u w = (r, w1)"
  obtain s w2 where s: "select_progress u w = (s, w2)" by fastforce
  note spec = select_progress_spec [OF s]
  show ?thesis
  proof (cases s)
    case (Ok row)
    then show ?thesis using m s spec
      by (auto simp: mysql_FindByUserID_def andThen_def onErr_def NewID_def stored_progress_def split: if_splits)
  qed (use m s spec in \<open>auto simp: mysql_FindByUserID_def andThen_def onErr_def\<close>)
qed

lemma begin_tx_spec: "begin_tx w = (r, w1) \<Longrightarrow> db w1 = db w \<and> (\<forall>m. r \<noteq> Panic m)"
  unfolding begin_tx_def by (elim statementE) auto

lemma commit_tx_spec: "commit_tx w = (r, w1) \<Longrightarrow> db w1 = db w \<and> (\<forall>m. r \<noteq> Panic m)"
  unfolding commit_tx_def by (elim statementE) auto

text \<open>The transaction of \<open>Mutate\<close>, step by step.\<close>

lemma transaction_spec:
  "transaction body w = (r, w1) \<Longrightarrow>
     (is_Ok r \<longrightarrow> body w = (r, w1)) \<and> (\<not> is_Ok r \<longrightarrow> db w1 = db w \<and> fst (body w) = r)"
  by (auto simp: transaction_def split: prod.splits result.splits)

definition tx_body :: "ID \<Rightarrow> (string \<Rightarrow> (world, string) proc) \<Rightarrow> (world, unit) proc" where
  "tx_body u fn =
     handling (select_progress u) (\<lambda>locked.
       andThen
         (case locked of
            Inr row \<Rightarrow> ret (p_data row)
          | Inl err \<Rightarrow> if errors_Is err SqlErrNoRows then ret []
                       else fail (Errorf ''lock progress'' [err])) (\<lambda>stored.
       andThen (fn stored) (\<lambda>updated.
       andThen (onErr (write_error ''write progress'') (upsert_progress u updated)) (\<lambda>_.
         onErr (\<lambda>err. Errorf ''commit progress transaction'' [err]) commit_tx))))"

lemma mysql_Mutate_eq:
  "mysql_Mutate u fn =
     andThen (onErr (\<lambda>err. Errorf ''begin progress transaction'' [err]) begin_tx) (\<lambda>_.
     andThen (transaction (tx_body u fn)) (\<lambda>_. mysql_FindByUserID u))"
  unfolding mysql_Mutate_def tx_body_def ..

text \<open>Up to the call of the function nothing is written, and it gets the stored document.\<close>

lemma tx_body_spec:
  assumes "tx_body u fn w = (r, w1)" "\<And>c v. stored_progress (snd (fn c v)) = stored_progress v"
  shows "is_Ok r \<longrightarrow> (\<exists>v d. fst (fn (current_of (stored_progress w u)) v) = Ok d \<and>
             stored_progress w1 = (stored_progress w)(u \<mapsto> d))"
    and "r = Panic m \<longrightarrow> (\<exists>v. fst (fn (current_of (stored_progress w u)) v) = Panic m)"
proof -
  obtain s w2 where s: "select_progress u w = (s, w2)" by fastforce
  note sel = select_progress_spec [OF s]
  define rest where "rest = (\<lambda>c. andThen (fn c) (\<lambda>updated.
       andThen (onErr (write_error ''write progress'') (upsert_progress u updated)) (\<lambda>_.
         onErr (\<lambda>err. Errorf ''commit progress transaction'' [err]) commit_tx)))"
  have "(\<exists>e. r = Err e) \<or> rest (current_of (stored_progress w u)) w2 = (r, w1)"
    using assms(1) s sel
    by (cases s) (auto simp: tx_body_def handling_def rest_def current_of_def stored_progress_def split: if_splits)
  moreover have "stored_progress w2 = stored_progress w" using sel by (simp add: stored_progress_def fun_eq_iff)
  moreover have "(is_Ok r \<longrightarrow> (\<exists>v d. fst (fn c v) = Ok d \<and> stored_progress w1 = (stored_progress w2)(u \<mapsto> d))) \<and>
      (r = Panic m \<longrightarrow> (\<exists>v. fst (fn c v) = Panic m))" if "rest c w2 = (r, w1)" for c
    using that unfolding rest_def
  proof (cases rule: andThenE)
    case (ok d w3)
    then have w3: "stored_progress w3 = stored_progress w2" using assms(2) [of c w2] by simp
    obtain s4 w4 where u: "upsert_progress u d w3 = (s4, w4)" by fastforce
    note up = upsert_progress_spec [OF u]
    obtain s5 w5 where c: "commit_tx w4 = (s5, w5)" by fastforce
    have "stored_progress w5 = stored_progress w4"
      using commit_tx_spec [OF c] by (simp add: stored_progress_def fun_eq_iff)
    then show ?thesis
      using ok u up c commit_tx_spec [OF c] w3
      by (cases s4; cases s5) (auto simp: andThen_def onErr_def intro!: exI [of _ w2])
  qed (auto intro!: exI [of _ w2])
  ultimately show "is_Ok r \<longrightarrow> (\<exists>v d. fst (fn (current_of (stored_progress w u)) v) = Ok d \<and>
             stored_progress w1 = (stored_progress w)(u \<mapsto> d))"
    and "r = Panic m \<longrightarrow> (\<exists>v. fst (fn (current_of (stored_progress w u)) v) = Panic m)"
    by auto
qed

lemma mysql_Mutate_spec:
  assumes "mysql_Mutate u fn w = (r, w1)" "\<And>c v. stored_progress (snd (fn c v)) = stored_progress v"
  shows "stored_progress w1 = stored_progress w \<or>
      (\<exists>v d. fst (fn (current_of (stored_progress w u)) v) = Ok d \<and> stored_progress w1 = (stored_progress w)(u \<mapsto> d))"
    and "r = Ok p \<longrightarrow> (\<exists>v d. fst (fn (current_of (stored_progress w u)) v) = Ok d \<and>
        stored_progress w1 = (stored_progress w)(u \<mapsto> d) \<and> Data p = d)"
  using assms(1) unfolding mysql_Mutate_eq
proof (atomize(full), cases rule: andThenE)
  case (ok x w2)
  then have "begin_tx w = (Ok (), w2)" by (auto elim: onErrE)
  then have w2: "stored_progress w2 = stored_progress w"
    using begin_tx_spec by (simp add: stored_progress_def fun_eq_iff)
  obtain s w3 where t: "transaction (tx_body u fn) w2 = (s, w3)" by fastforce
  note tx = transaction_spec [OF t]
  show "(stored_progress w1 = stored_progress w \<or>
      (\<exists>v d. fst (fn (current_of (stored_progress w u)) v) = Ok d \<and> stored_progress w1 = (stored_progress w)(u \<mapsto> d))) \<and>
    (r = Ok p \<longrightarrow> (\<exists>v d. fst (fn (current_of (stored_progress w u)) v) = Ok d \<and>
        stored_progress w1 = (stored_progress w)(u \<mapsto> d) \<and> Data p = d))"
  proof (cases "is_Ok s")
    case True
    obtain s' w3' where b: "tx_body u fn w2 = (s', w3')" by fastforce
    with True tx have "tx_body u fn w2 = (s, w3)" by simp
    from tx_body_spec(1) [OF this assms(2)] True w2
    obtain v d where vd: "fst (fn (current_of (stored_progress w u)) v) = Ok d"
        "stored_progress w3 = (stored_progress w)(u \<mapsto> d)" by auto
    have "mysql_FindByUserID u w3 = (r, w1)"
      using ok(2) t True by (cases s) (auto simp: andThen_def)
    note find = mysql_find_spec [OF this]
    then have "stored_progress w1 = stored_progress w3" by (simp add: stored_progress_def fun_eq_iff)
    with vd find show ?thesis by auto
  next
    case False
    then have "stored_progress w3 = stored_progress w2"
      using tx by (simp add: stored_progress_def fun_eq_iff)
    moreover have "w1 = w3 \<and> r \<noteq> Ok p" using ok(2) t False by (cases s) (auto simp: andThen_def)
    ultimately show ?thesis using w2 by simp
  qed
qed (auto simp: onErr_def stored_progress_def fun_eq_iff split: prod.splits dest: begin_tx_spec)

lemma mysql_Mutate_panic:
  assumes "fst (mysql_Mutate u fn w) = Panic m" "\<And>c v. stored_progress (snd (fn c v)) = stored_progress v"
  shows "\<exists>v. fst (fn (current_of (stored_progress w u)) v) = Panic m"
proof -
  obtain w1 where "mysql_Mutate u fn w = (Panic m, w1)" using assms(1) by (cases "mysql_Mutate u fn w") auto
  then show ?thesis unfolding mysql_Mutate_eq
  proof (cases rule: andThenE)
    case (ok x w2)
    then have w2: "stored_progress w2 = stored_progress w"
      using begin_tx_spec [of w] by (auto elim!: onErrE simp: stored_progress_def fun_eq_iff)
    obtain s w3 where b: "tx_body u fn w2 = (s, w3)" by fastforce
    from ok(2) have "s = Panic m"
    proof (cases rule: andThenE)
      case (ok y w4)
      then show ?thesis using mysql_find_spec by blast
    next
      case (panic p)
      then show ?thesis using transaction_spec [OF panic(1)] b by simp
    qed simp
    then show ?thesis using tx_body_spec(2) [OF b assms(2)] w2 by simp
  next
    case (panic p)
    then show ?thesis using begin_tx_spec [of w] by (auto elim!: onErrE)
  qed simp
qed

lemma mysql_find_stored: "mysql_FindByUserID u w = (r, w1) \<Longrightarrow> stored_progress w1 = stored_progress w"
  using mysql_find_spec [of u w r w1] by (simp add: stored_progress_def fun_eq_iff)

lemma mysql_find_Ok:
  "mysql_FindByUserID u w = (Ok p, w1) \<Longrightarrow> stored_progress w u = Some (Data p) \<and> UserID_of p = u"
  using mysql_find_spec [of u w "Ok p" w1] by simp

lemma mysql_find_no_panic: "mysql_FindByUserID u w \<noteq> (Panic m, w1)"
  using mysql_find_spec [of u w "Panic m" w1] by auto

lemma mysql_Upsert_cases:
  assumes "mysql_Upsert u d w = (r, w1)"
  obtains (written) w2 where "stored_progress w2 = (stored_progress w)(u \<mapsto> d)" "mysql_FindByUserID u w2 = (r, w1)"
    | (refused) e where "r = Err e" "stored_progress w1 = stored_progress w"
proof -
  obtain s w2 where u: "upsert_progress u d w = (s, w2)" by fastforce
  note up = upsert_progress_spec [OF u]
  show thesis
  proof (cases s)
    case (Ok x)
    then show thesis using written up assms u by (simp add: mysql_Upsert_def andThen_def onErr_def)
  next
    case (Err e)
    then have "stored_progress w2 = stored_progress w" using up by (simp add: stored_progress_def fun_eq_iff)
    then show thesis using Err assms u
      by (intro refused [of "write_error ''upsert progress'' e"]) (auto simp: mysql_Upsert_def andThen_def onErr_def)
  qed (use up in simp)
qed

lemma mysql_Upsert_Ok:
  assumes "mysql_Upsert u d w = (Ok p, w1)"
  shows "stored_progress w1 = (stored_progress w)(u \<mapsto> d) \<and> Data p = d"
  using assms
proof (cases rule: mysql_Upsert_cases)
  case (written w2)
  then show ?thesis using mysql_find_stored [OF written(2)] mysql_find_Ok [OF written(2)] by simp
qed simp

lemma mysql_Upsert_other:
  assumes "mysql_Upsert u d w = (r, w1)"
  shows "r \<noteq> Panic m \<and> (stored_progress w1 = stored_progress w \<or> stored_progress w1 = (stored_progress w)(u \<mapsto> d))"
  using assms
proof (cases rule: mysql_Upsert_cases)
  case (written w2)
  then show ?thesis using mysql_find_stored [OF written(2)] mysql_find_no_panic [of u w2 m w1] by auto
qed simp

lemma mysql_repository_sel [simp]:
  "FindByUserID mysql_progress_repository = mysql_FindByUserID"
  "Upsert mysql_progress_repository = mysql_Upsert"
  "Mutate mysql_progress_repository = mysql_Mutate"
  by (simp_all add: mysql_progress_repository_def)

interpretation mysql_progress: progress_repository mysql_progress_repository stored_progress
proof
  fix u :: ID and w w1 :: world and p :: Progress and m d e and fn :: "string \<Rightarrow> (world, string) proc" and r
  obtain s w2 where f: "mysql_FindByUserID u w = (s, w2)" by fastforce
  show "stored_progress (snd (FindByUserID mysql_progress_repository u w)) = stored_progress w"
    using mysql_find_stored [OF f] f by simp
  show "fst (FindByUserID mysql_progress_repository u w) = Ok p \<Longrightarrow>
      stored_progress w u = Some (Data p) \<and> UserID_of p = u"
    using mysql_find_Ok [of u w p w2] f by simp
  show "fst (FindByUserID mysql_progress_repository u w) \<noteq> Panic m"
    using mysql_find_no_panic [of u w m w2] f by auto
  show "Upsert mysql_progress_repository u d w = (Ok p, w1) \<Longrightarrow>
      stored_progress w1 = (stored_progress w)(u \<mapsto> d) \<and> Data p = d"
    unfolding mysql_repository_sel by (rule mysql_Upsert_Ok)
  show "Upsert mysql_progress_repository u d w = (Err e, w1) \<Longrightarrow>
      stored_progress w1 = stored_progress w \<or> stored_progress w1 = (stored_progress w)(u \<mapsto> d)"
    unfolding mysql_repository_sel using mysql_Upsert_other by blast
  obtain s' w2' where "mysql_Upsert u d w = (s', w2')" by fastforce
  then show "fst (Upsert mysql_progress_repository u d w) \<noteq> Panic m"
    using mysql_Upsert_other by fastforce
  assume fn: "\<And>c v. stored_progress (snd (fn c v)) = stored_progress v"
  show "Mutate mysql_progress_repository u fn w = (Ok p, w1) \<Longrightarrow>
      \<exists>v d. fst (fn (current_of (stored_progress w u)) v) = Ok d \<and>
        stored_progress w1 = (stored_progress w)(u \<mapsto> d) \<and> Data p = d"
    unfolding mysql_repository_sel using mysql_Mutate_spec(2) [where fn = fn and u = u and w = w, OF _ fn] by blast
  show "Mutate mysql_progress_repository u fn w = (r, w1) \<Longrightarrow>
      stored_progress w1 = stored_progress w \<or>
      (\<exists>v d. fst (fn (current_of (stored_progress w u)) v) = Ok d \<and> stored_progress w1 = (stored_progress w)(u \<mapsto> d))"
    unfolding mysql_repository_sel using mysql_Mutate_spec(1) [where fn = fn and u = u and w = w, OF _ fn] by blast
  show "fst (Mutate mysql_progress_repository u fn w) = Panic m \<Longrightarrow>
      \<exists>v. fst (fn (current_of (stored_progress w u)) v) = Panic m"
    unfolding mysql_repository_sel using mysql_Mutate_panic [where fn = fn and u = u and w = w, OF _ fn] by blast
qed

end
