(* ===== verification/Integrity.thy ===== *)
theory Integrity
  imports AuthService ProgressRepository
begin

text \<open>
  The integrity of the four tables: primary and unique keys, foreign keys and the next identifier,
  and the proof that every statement of both repositories keeps it, whichever of them fail. It is
  what the account lookups rely on: with unique keys, the row found by address and the row found by
  id are the same row.
\<close>

section \<open>The invariant\<close>

definition keys_ok :: "('r \<Rightarrow> 'k) \<Rightarrow> 'r list \<Rightarrow> bool" where
  "keys_ok key rows \<longleftrightarrow> distinct (map key rows)"

definition owned :: "('r \<Rightarrow> int) \<Rightarrow> 'r list \<Rightarrow> tables \<Rightarrow> bool" where
  "owned owner rows t \<longleftrightarrow> owner ` set rows \<subseteq> u_id ` set (users t)"

definition tables_ok :: "(string \<Rightarrow> string) \<Rightarrow> tables \<Rightarrow> bool" where
  "tables_ok ck t \<longleftrightarrow>
     keys_ok u_id (users t) \<and> keys_ok (\<lambda>r. ck (u_email r)) (users t) \<and>
     0 < next_user_id t \<and> (\<forall>r \<in> set (users t). 0 < u_id r \<and> u_id r < next_user_id t) \<and>
     keys_ok c_user_id (codes t) \<and> owned c_user_id (codes t) t \<and>
     keys_ok r_user_id (resets t) \<and> keys_ok r_token_hash (resets t) \<and> owned r_user_id (resets t) t \<and>
     keys_ok p_user_id (progress t) \<and> owned p_user_id (progress t) t"

definition db_ok :: "(string \<Rightarrow> string) \<Rightarrow> world \<Rightarrow> bool" where
  "db_ok ck w \<longleftrightarrow> collation_key w = ck \<and> tables_ok ck (db w)"

section \<open>Rows\<close>

lemma map_update_rows: "(\<And>r. p r \<Longrightarrow> g (f r) = g r) \<Longrightarrow> map g (update_rows p f rows) = map g rows"
  by (simp add: update_rows_def)

lemma keys_ok_update: "(\<And>r. p r \<Longrightarrow> g (f r) = g r) \<Longrightarrow> keys_ok g (update_rows p f rows) = keys_ok g rows"
  by (simp add: keys_ok_def map_update_rows)

lemma image_update_rows: "(\<And>r. p r \<Longrightarrow> g (f r) = g r) \<Longrightarrow> g ` set (update_rows p f rows) = g ` set rows"
  by (metis list.set_map map_update_rows)

lemma keys_ok_append: "keys_ok g (rows @ [r]) \<longleftrightarrow> keys_ok g rows \<and> g r \<notin> g ` set rows"
  by (auto simp: keys_ok_def)

lemma keys_ok_unique: "keys_ok g rows \<Longrightarrow> r \<in> set rows \<Longrightarrow> r' \<in> set rows \<Longrightarrow> g r = g r' \<Longrightarrow> r = r'"
  unfolding keys_ok_def by (metis distinct_map inj_onD)

lemma row_with_key:
  assumes "keys_ok g rows" "r \<in> set rows"
  shows "row_with (\<lambda>x. g x = g r) rows = Some r"
proof (cases "row_with (\<lambda>x. g x = g r) rows")
  case (Some x)
  then have "x \<in> set rows" "g x = g r" using row_with_Some by fast+
  then show ?thesis using Some keys_ok_unique [OF assms(1) _ assms(2)] by simp
qed (use assms(2) in \<open>auto simp: row_with_None\<close>)

lemma row_with_in: "row_with (\<lambda>x. g x = k) rows \<noteq> None \<longleftrightarrow> k \<in> g ` set rows"
  using row_with_None [of "\<lambda>x. g x = k" rows] by auto

text \<open>Rows of old owners and of one that exists.\<close>

lemma owned_insert:
  assumes "g ` set rows' \<subseteq> insert u (g ` set rows)" "owned g rows t" "user_row_of u t \<noteq> None"
  shows "owned g rows' t"
proof -
  have "u \<in> u_id ` set (users t)" using assms(3) row_with_in unfolding user_row_of_def by metis
  then have "insert u (g ` set rows) \<subseteq> u_id ` set (users t)" using assms(2) by (simp add: owned_def)
  then show ?thesis unfolding owned_def by (rule subset_trans [OF assms(1)])
qed

section \<open>Tables\<close>

lemma tables_ok_update_users:
  assumes "tables_ok ck t" "\<And>r. p r \<Longrightarrow> u_id (f r) = u_id r \<and> u_email (f r) = u_email r"
  shows "tables_ok ck (t\<lparr>users := update_rows p f (users t)\<rparr>)"
proof -
  have "u_id ` set (update_rows p f (users t)) = u_id ` set (users t)"
    using assms(2) by (intro image_update_rows) simp
  moreover from this have "\<forall>r \<in> set (update_rows p f (users t)). 0 < u_id r \<and> u_id r < next_user_id t"
    using assms(1) unfolding tables_ok_def by (metis (no_types, lifting) imageE imageI)
  ultimately show ?thesis
    using assms by (simp add: tables_ok_def owned_def keys_ok_update)
qed

lemma tables_ok_insert_user:
  assumes "tables_ok ck t" "u_id r = next_user_id t" "\<forall>x \<in> set (users t). ck (u_email x) \<noteq> ck (u_email r)"
  shows "tables_ok ck (t\<lparr>users := users t @ [r], next_user_id := next_user_id t + 1\<rparr>)"
proof -
  have "next_user_id t \<notin> u_id ` set (users t)" using assms(1) unfolding tables_ok_def by auto
  moreover have "ck (u_email r) \<notin> (\<lambda>r. ck (u_email r)) ` set (users t)" using assms(3) by auto
  moreover have "0 < u_id x \<and> u_id x < next_user_id t + 1" if "x \<in> set (users t @ [r])" for x
    using that assms(1,2) unfolding tables_ok_def by auto
  ultimately show ?thesis
    using assms(1,2) unfolding tables_ok_def owned_def by (auto simp: keys_ok_append)
qed

lemma tables_ok_codes:
  assumes "tables_ok ck t" "keys_ok c_user_id cs" "owned c_user_id cs t"
  shows "tables_ok ck (t\<lparr>codes := cs\<rparr>)"
  using assms by (simp add: tables_ok_def owned_def)

lemma tables_ok_resets:
  assumes "tables_ok ck t" "keys_ok r_user_id rs" "keys_ok r_token_hash rs" "owned r_user_id rs t"
  shows "tables_ok ck (t\<lparr>resets := rs\<rparr>)"
  using assms by (simp add: tables_ok_def owned_def)

lemma tables_ok_progress:
  assumes "tables_ok ck t" "row_with (\<lambda>r. u_id r = u) (users t) \<noteq> None"
  shows "tables_ok ck (put_progress u d at t)"
proof -
  have u: "u \<in> u_id ` set (users t)" using assms(2) row_with_in by metis
  show ?thesis
  proof (cases "progress_of u t")
    case None
    then have "u \<notin> p_user_id ` set (progress t)" by (auto simp: progress_of_def row_with_None)
    then show ?thesis using assms(1) u None by (auto simp: tables_ok_def owned_def put_progress_def keys_ok_append)
  next
    case (Some r)
    then show ?thesis using assms(1)
      by (simp add: tables_ok_def owned_def put_progress_def keys_ok_update image_update_rows)
  qed
qed

section \<open>Statements\<close>

lemma db_ok_faults [simp]: "db_ok ck (w\<lparr>faults := bs\<rparr>) = db_ok ck w"
  by (simp add: db_ok_def)

lemma keeps_db_ok_statement [keeps_intros]:
  "(\<And>w. db_ok ck w \<Longrightarrow> db_ok ck (snd (f w))) \<Longrightarrow> keeps (db_ok ck) (statement f)"
  by (rule keeps_statement) simp_all

lemma keeps_db_ok_clock [keeps_intros]: "keeps (db_ok ck) read_clock"
  by (rule keeps_read_clock) (simp add: db_ok_def)

lemma db_ok_insert_user [keeps_intros]: "keeps (db_ok ck) (insert_user u)"
  unfolding insert_user_def
proof (rule keeps_db_ok_statement, split if_split, intro conjI impI)
  fix w
  assume w: "db_ok ck w" and new: "\<not> (\<exists>r \<in> set (users (db w)). same_email w (u_email r) (Email u))"
  then show "db_ok ck (snd (Ok (next_user_id (db w)),
      on_db (\<lambda>t. t\<lparr>users := users t @ [\<lparr>u_id = next_user_id t, u_email = Email u,
                 u_password_hash = PasswordHash u, u_email_verified_at = None, u_name = None,
                 u_gender = None, u_birth_date = None, u_timezone = None,
                 u_last_active_date = LastActiveDate (Activity_of u),
                 u_distinct_login_days = DistinctLoginDays (Activity_of u),
                 u_streak_days = StreakDays (Activity_of u),
                 u_created_at = current_timestamp w, u_updated_at = current_timestamp w\<rparr>],
               next_user_id := next_user_id t + 1\<rparr>) w))"
    unfolding db_ok_def by (auto simp: same_email_def intro!: tables_ok_insert_user)
qed simp

lemma db_ok_update_user [keeps_intros]:
  "(\<And>r. u_id (f r) = u_id r \<and> u_email (f r) = u_email r) \<Longrightarrow> keeps (db_ok ck) (update_user i f)"
  unfolding update_user_def
  by (rule keeps_db_ok_statement) (simp add: db_ok_def tables_ok_update_users)

lemma db_ok_update_code [keeps_intros]:
  "(\<And>c. c_user_id (f c) = c_user_id c) \<Longrightarrow> keeps (db_ok ck) (update_code i f)"
  unfolding update_code_def
  by (rule keeps_db_ok_statement)
    (simp add: db_ok_def tables_ok_def owned_def keys_ok_update image_update_rows)

lemma db_ok_upsert_progress [keeps_intros]: "keeps (db_ok ck) (upsert_progress u d)"
  unfolding upsert_progress_def
  by (rule keeps_db_ok_statement) (auto simp: db_ok_def tables_ok_progress)

lemma keeps_transaction:
  assumes "keeps I body" "\<And>w w1. I w \<Longrightarrow> I w1 \<Longrightarrow> I (w1\<lparr>db := db w\<rparr>)"
  shows "keeps I (transaction body)"
  unfolding keeps_def
proof (intro allI impI)
  fix w
  assume "I w"
  then have "I (snd (body w))" using assms(1) by (simp add: keeps_def)
  then show "I (snd (transaction body w))"
    using \<open>I w\<close> assms(2) by (auto simp: transaction_def split: prod.splits result.splits)
qed

section \<open>Repositories\<close>

lemma db_ok_select_progress [keeps_intros]: "keeps (db_ok ck) (select_progress u)"
  unfolding select_progress_def by (rule keeps_db_ok_statement) simp

lemma db_ok_queryOne [keeps_intros]: "keeps (db_ok ck) (queryOne lib p)"
  unfolding queryOne_def by (intro keeps_intros) simp

lemma db_ok_find_progress [keeps_intros]: "keeps (db_ok ck) (mysql_FindByUserID u)"
  unfolding mysql_FindByUserID_def by (intro keeps_intros)

lemma db_ok_progress:
  assumes "\<And>c. keeps (db_ok ck) (fn c)"
  shows "keeps (db_ok ck) (FindByUserID mysql_progress_repository u)"
    "keeps (db_ok ck) (Upsert mysql_progress_repository u d)"
    "keeps (db_ok ck) (Mutate mysql_progress_repository u fn)"
proof -
  show "keeps (db_ok ck) (FindByUserID mysql_progress_repository u)" by (simp add: keeps_intros)
  show "keeps (db_ok ck) (Upsert mysql_progress_repository u d)"
    unfolding mysql_repository_sel mysql_Upsert_def by (intro keeps_intros)
  have "keeps (db_ok ck) (tx_body u fn)"
    unfolding tx_body_def commit_tx_def by (intro keeps_intros assms) simp
  then have "keeps (db_ok ck) (transaction (tx_body u fn))"
    by (rule keeps_transaction) (simp add: db_ok_def)
  then show "keeps (db_ok ck) (Mutate mysql_progress_repository u fn)"
    unfolding mysql_repository_sel mysql_Mutate_eq begin_tx_def by (intro keeps_intros) simp_all
qed

lemma db_ok_users:
  "keeps (db_ok ck) (Create (mysql_users lib) u)" "keeps (db_ok ck) (FindByEmail (mysql_users lib) e)"
  "keeps (db_ok ck) (FindByID (mysql_users lib) i)" "keeps (db_ok ck) (TouchActivity (mysql_users lib) i d)"
  "keeps (db_ok ck) (MarkEmailVerified (mysql_users lib) i t)" "keeps (db_ok ck) (UpdatePassword (mysql_users lib) i h)"
  "keeps (db_ok ck) (PutProfile (mysql_users lib) i p)"
  unfolding mysql_users_def UserRepository.simps mysql_Create_def mysql_FindByEmail_def mysql_FindByID_def
    mysql_TouchActivity_def mysql_MarkEmailVerified_def mysql_UpdatePassword_def mysql_SaveProfile_def
  by (intro keeps_intros; simp add: touch_row_def profile_row_def Let_def)+

lemma db_ok_PutVerification: "keeps (db_ok ck) (mysql_PutVerification v)"
  unfolding mysql_PutVerification_def Let_def
proof (intro keeps_onErr keeps_db_ok_statement)
  fix w
  assume w: "db_ok ck w"
  let ?u = "V_UserID v"
  define row where "row = \<lparr>c_user_id = ?u, c_code_hash = CodeHash v, c_attempts = 0,
    c_expires_at = seconds (V_ExpiresAt v), c_consumed_at = None\<rparr>"
  let ?cs = "if code_of ?u (db w) = None then codes (db w) @ [row]
             else update_rows (\<lambda>c. c_user_id c = ?u) (\<lambda>_. row) (codes (db w))"
  have "keys_ok c_user_id ?cs \<and> c_user_id ` set ?cs \<subseteq> insert ?u (c_user_id ` set (codes (db w)))"
  proof (cases "code_of ?u (db w) = None")
    case True
    then have "?u \<notin> c_user_id ` set (codes (db w))" by (auto simp: code_of_def row_with_None)
    with True w show ?thesis by (auto simp: db_ok_def tables_ok_def keys_ok_append row_def)
  next
    case False
    have k: "c_user_id c = ?u \<Longrightarrow> c_user_id row = c_user_id c" for c by (simp add: row_def)
    show ?thesis
      using False w keys_ok_update [of "\<lambda>c. c_user_id c = ?u" c_user_id "\<lambda>_. row" "codes (db w)", OF k]
        image_update_rows [of "\<lambda>c. c_user_id c = ?u" c_user_id "\<lambda>_. row" "codes (db w)", OF k]
      by (auto simp: db_ok_def tables_ok_def)
  qed
  then have cs: "keys_ok c_user_id ?cs" "c_user_id ` set ?cs \<subseteq> insert ?u (c_user_id ` set (codes (db w)))" by blast+
  have t: "tables_ok ck (db w)" using w by (simp add: db_ok_def)
  then have "owned c_user_id (codes (db w)) (db w)" by (simp add: tables_ok_def)
  then have "tables_ok ck ((db w)\<lparr>codes := ?cs\<rparr>)" if "user_row_of ?u (db w) \<noteq> None"
    by (intro tables_ok_codes t cs(1) owned_insert [OF cs(2)] that)
  then show "db_ok ck (snd (if user_row_of ?u (db w) = None then (Err (MySQLError 1452), w)
      else (Ok (), on_db (\<lambda>t. t\<lparr>codes := if code_of ?u t = None then codes t @ [row]
                  else update_rows (\<lambda>c. c_user_id c = ?u) (\<lambda>_. row) (codes t)\<rparr>) w)))"
    using w by (simp add: db_ok_def)
qed

lemma keys_ok_renew:
  assumes "keys_ok k rows" "keys_ok h rows" "z \<notin> h ` set rows"
    and "\<And>r. k (f r) = k r" "\<And>r. h (f r) = z"
  shows "keys_ok h (update_rows (\<lambda>r. k r = u) f rows)"
proof -
  have "keys_ok h (update_rows (\<lambda>r. k r = u) f rows) \<and> h ` set (update_rows (\<lambda>r. k r = u) f rows) \<subseteq> insert z (h ` set rows) \<and>
      (u \<notin> k ` set rows \<longrightarrow> update_rows (\<lambda>r. k r = u) f rows = rows)"
    using assms(1-3)
  proof (induction rows)
    case (Cons r rows)
    then have IH: "keys_ok h (update_rows (\<lambda>r. k r = u) f rows)"
      "h ` set (update_rows (\<lambda>r. k r = u) f rows) \<subseteq> insert z (h ` set rows)"
      "u \<notin> k ` set rows \<longrightarrow> update_rows (\<lambda>r. k r = u) f rows = rows"
      by (auto simp: keys_ok_def)
    show ?case
    proof (cases "k r = u")
      case True
      then have "u \<notin> k ` set rows" using Cons.prems(1) by (auto simp: keys_ok_def)
      then show ?thesis using True Cons.prems(2,3) IH(3) assms(5) by (auto simp: keys_ok_def update_rows_def)
    next
      case False
      then have "h r \<notin> h ` set (update_rows (\<lambda>r. k r = u) f rows)"
        using Cons.prems(2,3) IH(2) by (auto simp: keys_ok_def)
      then show ?thesis using False IH by (auto simp: keys_ok_def update_rows_def)
    qed
  qed (simp add: keys_ok_def update_rows_def)
  then show ?thesis by blast
qed

lemma db_ok_PutReset: "keeps (db_ok ck) (mysql_PutReset v)"
  unfolding mysql_PutReset_def Let_def
proof (intro keeps_onErr keeps_db_ok_statement)
  fix w
  assume w: "db_ok ck w"
  let ?u = "R_UserID v" and ?h = "TokenHash v" and ?rs = "resets (db w)"
  define renew where "renew = (\<lambda>r::reset_row. r\<lparr>r_token_hash := ?h, r_expires_at := seconds (R_ExpiresAt v), r_consumed_at := None\<rparr>)"
  define row where "row = \<lparr>r_user_id = ?u, r_token_hash = ?h, r_expires_at = seconds (R_ExpiresAt v), r_consumed_at = None\<rparr>"
  let ?rs' = "if reset_of_hash ?h (db w) \<noteq> None then update_rows (\<lambda>r. r_token_hash r = ?h) renew ?rs
              else if reset_of_user ?u (db w) \<noteq> None then update_rows (\<lambda>r. r_user_id r = ?u) renew ?rs
              else ?rs @ [row]"
  have ok: "keys_ok r_user_id ?rs" "keys_ok r_token_hash ?rs" using w by (auto simp: db_ok_def tables_ok_def)
  have renew: "r_user_id (renew r) = r_user_id r" "r_token_hash (renew r) = ?h" for r by (simp_all add: renew_def)
  have "keys_ok r_user_id ?rs' \<and> keys_ok r_token_hash ?rs' \<and> r_user_id ` set ?rs' \<subseteq> insert ?u (r_user_id ` set ?rs)"
  proof (cases "reset_of_hash ?h (db w) = None")
    case False
    then show ?thesis using ok renew by (auto simp: keys_ok_update image_update_rows)
  next
    case True
    then have fresh: "?h \<notin> r_token_hash ` set ?rs" by (auto simp: reset_of_hash_def row_with_None)
    show ?thesis
    proof (cases "reset_of_user ?u (db w) = None")
      case True
      then have "?u \<notin> r_user_id ` set ?rs" by (auto simp: reset_of_user_def row_with_None)
      then show ?thesis using True \<open>reset_of_hash ?h (db w) = None\<close> ok fresh
        by (auto simp: keys_ok_append row_def)
    next
      case False
      have "keys_ok r_token_hash (update_rows (\<lambda>r. r_user_id r = ?u) renew ?rs)"
        by (rule keys_ok_renew [OF ok fresh renew])
      then show ?thesis using False True ok renew by (auto simp: keys_ok_update image_update_rows)
    qed
  qed
  then have rs': "keys_ok r_user_id ?rs'" "keys_ok r_token_hash ?rs'"
    "r_user_id ` set ?rs' \<subseteq> insert ?u (r_user_id ` set ?rs)" by blast+
  have t: "tables_ok ck (db w)" using w by (simp add: db_ok_def)
  then have "owned r_user_id ?rs (db w)" by (simp add: tables_ok_def)
  then have "tables_ok ck ((db w)\<lparr>resets := ?rs'\<rparr>)" if "user_row_of ?u (db w) \<noteq> None"
    by (intro tables_ok_resets t rs'(1,2) owned_insert [OF rs'(3)] that)
  then show "db_ok ck (snd (if user_row_of ?u (db w) = None then (Err (MySQLError 1452), w)
      else (Ok (), on_db (\<lambda>t. t\<lparr>resets :=
                 (if reset_of_hash ?h t \<noteq> None
                  then update_rows (\<lambda>r. r_token_hash r = ?h) (\<lambda>r. r\<lparr>r_token_hash := ?h, r_expires_at := seconds (R_ExpiresAt v),
                             r_consumed_at := None\<rparr>) (resets t)
                  else if reset_of_user ?u t \<noteq> None
                  then update_rows (\<lambda>r. r_user_id r = ?u) (\<lambda>r. r\<lparr>r_token_hash := ?h, r_expires_at := seconds (R_ExpiresAt v),
                             r_consumed_at := None\<rparr>) (resets t)
                  else resets t @ [\<lparr>r_user_id = ?u, r_token_hash = ?h,
                                    r_expires_at = seconds (R_ExpiresAt v), r_consumed_at = None\<rparr>])\<rparr>) w)))"
    using w unfolding renew_def row_def db_ok_def by auto
qed

lemma db_ok_secrets:
  "keeps (db_ok ck) (PutVerification mysql_verifications v)" "keeps (db_ok ck) (FindVerification mysql_verifications i)"
  "keeps (db_ok ck) (RecordVerificationAttempt mysql_verifications i)"
  "keeps (db_ok ck) (ConsumeVerification mysql_verifications i t)"
  "keeps (db_ok ck) (PutReset mysql_resets r)" "keeps (db_ok ck) (FindResetByHash mysql_resets h)"
  "keeps (db_ok ck) (ConsumeReset mysql_resets i t)"
proof -
  show "keeps (db_ok ck) (PutVerification mysql_verifications v)" "keeps (db_ok ck) (PutReset mysql_resets r)"
    by (simp_all add: mysql_verifications_def mysql_resets_def db_ok_PutVerification db_ok_PutReset)
  show "keeps (db_ok ck) (FindVerification mysql_verifications i)" "keeps (db_ok ck) (FindResetByHash mysql_resets h)"
    by (simp_all add: mysql_verifications_def mysql_resets_def mysql_FindVerification_def mysql_FindResetByHash_def)
      (intro keeps_intros; simp)+
  show "keeps (db_ok ck) (RecordVerificationAttempt mysql_verifications i)"
    "keeps (db_ok ck) (ConsumeVerification mysql_verifications i t)"
    by (simp_all add: mysql_verifications_def mysql_RecordVerificationAttempt_def mysql_ConsumeVerification_def)
      (intro keeps_intros; simp)+
  show "keeps (db_ok ck) (ConsumeReset mysql_resets i t)"
    unfolding mysql_resets_def PasswordResetRepository.simps mysql_ConsumeReset_def
    by (intro keeps_onErr keeps_db_ok_statement)
      (simp add: db_ok_def tables_ok_def owned_def keys_ok_update image_update_rows)
qed

end
