(* ===== verification/AuthStores.thy ===== *)
theory AuthStores
  imports AuthContract Integrity
begin

text \<open>
  The MariaDB repositories of the authentication module meet the contracts of \<open>AuthContract\<close>: the
  abstract state of the four tables, what each statement does to it, and the three interpretations.
\<close>

section \<open>The abstract state of the tables\<close>

definition code_abs :: "code_row \<Rightarrow> EmailVerification" where
  "code_abs c = \<lparr>V_UserID = c_user_id c, CodeHash = c_code_hash c, Attempts = c_attempts c,
     V_ExpiresAt = of_seconds (c_expires_at c), V_ConsumedAt = c_consumed_at c\<rparr>"

definition reset_abs :: "reset_row \<Rightarrow> PasswordReset" where
  "reset_abs r = \<lparr>R_UserID = r_user_id r, TokenHash = r_token_hash r,
     R_ExpiresAt = of_seconds (r_expires_at r), R_ConsumedAt = r_consumed_at r\<rparr>"

definition account_abs :: "user_row \<Rightarrow> string \<times> bool" where
  "account_abs r = (u_password_hash r, u_email_verified_at r \<noteq> None)"

definition auth_state_of :: "world \<Rightarrow> auth_state" where
  "auth_state_of w =
     \<lparr>owner = (\<lambda>e. map_option u_id (row_with (\<lambda>r. same_email w (u_email r) e) (users (db w)))),
      account = (\<lambda>i. map_option account_abs (user_row_of i (db w))),
      code = (\<lambda>i. map_option code_abs (code_of i (db w))),
      reset = (\<lambda>h. map_option reset_abs (reset_of_hash h (db w)))\<rparr>"

definition db_invar :: "world \<Rightarrow> bool" where
  "db_invar w \<longleftrightarrow> tables_ok (collation_key w) (db w)"

lemma auth_state_cong:
  "db w1 = db w \<Longrightarrow> collation_key w1 = collation_key w \<Longrightarrow> auth_state_of w1 = auth_state_of w"
  by (simp add: auth_state_of_def same_email_def)

lemma auth_state_faults [simp]: "auth_state_of (w\<lparr>faults := bs\<rparr>) = auth_state_of w"
  by (rule auth_state_cong) simp_all

lemma keeps_state_statement:
  "(\<And>w. auth_state_of (snd (f w)) = auth_state_of w) \<Longrightarrow> keeps (\<lambda>w. auth_state_of w = x) (statement f)"
  by (rule keeps_statement) simp_all

lemma row_with_update_key:
  "(\<And>r. p r \<Longrightarrow> g (f r) = g r) \<Longrightarrow> row_with (\<lambda>r. g r = k) (update_rows p f rows) =
     map_option (\<lambda>r. if p r then f r else r) (row_with (\<lambda>r. g r = k) rows)"
  by (induction rows) (auto simp: row_with_def update_rows_def)

subsection \<open>Users\<close>

text \<open>An update of the columns of one user: what it does to the accounts, and nothing else.\<close>

lemma auth_state_update_user:
  assumes "\<And>r. u_id (f r) = u_id r \<and> u_email (f r) = u_email r"
    and "\<And>r. account_abs (f r) = g (account_abs r)"
  shows "auth_state_of (on_db (\<lambda>t. t\<lparr>users := update_rows (\<lambda>r. u_id r = i \<and> f r \<noteq> r)
           (\<lambda>r. (f r)\<lparr>u_updated_at := at\<rparr>) (users t)\<rparr>) w) = on_account i g (auth_state_of w)"
    (is "auth_state_of ?w = _")
proof -
  let ?u = "\<lambda>r. (f r)\<lparr>u_updated_at := at\<rparr>" and ?p = "\<lambda>r. u_id r = i \<and> f r \<noteq> r"
  define rows where "rows = update_rows ?p ?u (users (db w))"
  have found: "row_with (\<lambda>r. k r = z) rows = map_option (\<lambda>r. if ?p r then ?u r else r) (row_with (\<lambda>r. k r = z) (users (db w)))"
    if "\<And>r. k (?u r) = k r" for k :: "user_row \<Rightarrow> 'k" and z
    unfolding rows_def using that by (rule row_with_update_key)
  have abs: "account_abs (?u r) = g (account_abs r)" for r using assms(2) by (simp add: account_abs_def)
  have same: "f r = r \<Longrightarrow> g (account_abs r) = account_abs r" for r using assms(2) [of r] by simp
  have acc: "map_option account_abs (row_with (\<lambda>r. u_id r = j) rows) =
      (if j = i then map_option g (map_option account_abs (row_with (\<lambda>r. u_id r = i) (users (db w))))
       else map_option account_abs (row_with (\<lambda>r. u_id r = j) (users (db w))))" for j
  proof (cases "row_with (\<lambda>r. u_id r = j) (users (db w))")
    case (Some r)
    then have "u_id r = j" using row_with_Some by fast
    then show ?thesis using Some abs same assms(1) by (cases "j = i") (simp_all add: found)
  qed (use assms(1) in \<open>cases "j = i"; simp add: found\<close>)
  have "map_option u_id (row_with (\<lambda>r. collation_key w (u_email r) = z) rows) =
      map_option u_id (row_with (\<lambda>r. collation_key w (u_email r) = z) (users (db w)))" for z
    using assms(1) by (cases "row_with (\<lambda>r. collation_key w (u_email r) = z) (users (db w))") (simp_all add: found)
  with acc show ?thesis
    unfolding auth_state_of_def on_account_def user_row_of_def same_email_def
    by (simp add: rows_def fun_eq_iff code_of_def reset_of_hash_def)
qed

lemma keeps_state_update_user:
  assumes "\<And>r. u_id (f r) = u_id r \<and> u_email (f r) = u_email r" "\<And>r. account_abs (f r) = account_abs r"
  shows "keeps (\<lambda>w. auth_state_of w = x) (update_user i f)"
proof -
  have "on_account i (\<lambda>a. a) a = a" for a by (cases a) (simp add: on_account_def option.map_ident)
  then show ?thesis
    unfolding update_user_def
    by (intro keeps_state_statement) (simp add: auth_state_update_user [OF assms(1), of "\<lambda>a. a"] assms(2))
qed

lemma update_user_spec:
  assumes "update_user i f w = (r, w1)" "\<And>r. u_id (f r) = u_id r \<and> u_email (f r) = u_email r"
    "\<And>r. account_abs (f r) = g (account_abs r)"
  shows "auth_state_of w1 = (if is_Ok r then on_account i g (auth_state_of w) else auth_state_of w)"
    and "r = Ok n \<Longrightarrow> 0 < n \<Longrightarrow> account (auth_state_of w) i \<noteq> None"
proof -
  show "auth_state_of w1 = (if is_Ok r then on_account i g (auth_state_of w) else auth_state_of w)"
    using assms(1) unfolding update_user_def
  proof (cases rule: statementE)
    case (run bs)
    then show ?thesis
      using auth_state_update_user [OF assms(2,3), of i "current_timestamp (w\<lparr>faults := bs\<rparr>)" "w\<lparr>faults := bs\<rparr>"] by auto
  qed simp
  show "account (auth_state_of w) i \<noteq> None" if "r = Ok n" "0 < n"
  proof -
    have "n = length (filter (\<lambda>r. u_id r = i \<and> f r \<noteq> r) (users (db w)))"
      using assms(1) that unfolding update_user_def by (elim statementE) auto
    with that(2) have "filter (\<lambda>r. u_id r = i \<and> f r \<noteq> r) (users (db w)) \<noteq> []" by auto
    then have "\<not> (\<forall>x \<in> set (users (db w)). u_id x \<noteq> i)" unfolding filter_empty_conv by blast
    then have "row_with (\<lambda>r. u_id r = i) (users (db w)) \<noteq> None" unfolding row_with_None .
    then show ?thesis by (simp add: auth_state_of_def user_row_of_def)
  qed
qed

lemma user_of_row_Ok:
  "user_of_row lib r = Ok u \<Longrightarrow> User_ID u = u_id r \<and> account_abs r = (PasswordHash u, EmailVerified u)"
  by (auto simp: user_of_row_def account_abs_def EmailVerified_def)

lemma queryOne_spec:
  assumes "queryOne lib p w = (r, w1)"
  obtains (fault) bs e where "w1 = w\<lparr>faults := bs\<rparr>" "r = Err e" "\<not> errors_Is e ErrUserNotFound"
    | (none) bs where "w1 = w\<lparr>faults := bs\<rparr>" "r = Err (Sentinel ErrUserNotFound)"
        "row_with (p (w\<lparr>faults := bs\<rparr>)) (users (db w)) = None"
    | (row) bs row where "w1 = w\<lparr>faults := bs\<rparr>" "r = user_of_row lib row"
        "row_with (p (w\<lparr>faults := bs\<rparr>)) (users (db w)) = Some row"
proof -
  let ?f = "\<lambda>w. (case row_with (p w) (users (db w)) of None \<Rightarrow> Err (Sentinel SqlErrNoRows) | Some r \<Rightarrow> Ok r, w)"
  obtain s w2 where st: "statement ?f w = (s, w2)" by fastforce
  from st show thesis
  proof (cases rule: statementE)
    case (fault bs)
    with assms st show thesis
      by (intro that(1) [of bs "Errorf ''select user'' [LibError ''driver'']"]) (simp_all add: queryOne_def andThen_def onErr_def)
  next
    case (run bs)
    show thesis
    proof (cases "row_with (p (w\<lparr>faults := bs\<rparr>)) (users (db w))")
      case None
      with assms st run show thesis by (intro that(2) [of bs]) (auto simp: queryOne_def andThen_def onErr_def)
    next
      case (Some row)
      with assms st run show thesis by (intro that(3) [of bs row]) (auto simp: queryOne_def andThen_def onErr_def)
    qed
  qed
qed

lemma state_queryOne: "keeps (\<lambda>w. auth_state_of w = x) (queryOne lib p)"
  by (rule keepsI) (metis auth_state_faults prod.collapse queryOne_spec)

lemma user_of_row_Err: "user_of_row lib r = Err e \<Longrightarrow> \<not> errors_Is e ErrUserNotFound"
proof -
  have that: "NewEmail l raw = Err x \<Longrightarrow> \<not> errors_Is x ErrUserNotFound" for l raw x
    by (auto simp: NewEmail_def Let_def apperror_defs split: if_splits sum.splits)
  show "user_of_row lib r = Err e \<Longrightarrow> \<not> errors_Is e ErrUserNotFound"
    by (cases "NewID (u_id r)"; cases "NewEmail (mail_lib.truncate lib) (u_email r)")
      (use that in \<open>auto simp: user_of_row_def NewID_def apperror_defs split: if_splits\<close>)
qed

lemmas mysql_users_defs = mysql_users_def UserRepository.simps mysql_Create_def mysql_FindByEmail_def mysql_FindByID_def
  mysql_TouchActivity_def mysql_MarkEmailVerified_def mysql_UpdatePassword_def mysql_SaveProfile_def

lemma mysql_find_id:
  assumes "mysql_FindByID lib i w = (r, w1)"
  shows "auth_state_of w1 = auth_state_of w" "r = Ok u \<Longrightarrow> User_ID u = i \<and>
    account (auth_state_of w) i = Some (PasswordHash u, EmailVerified u)"
proof -
  show "auth_state_of w1 = auth_state_of w"
    using keepsD [OF state_queryOne, of w "auth_state_of w" lib "\<lambda>w r. u_id r = i"] assms by (simp add: mysql_FindByID_def)
  show "User_ID u = i \<and> account (auth_state_of w) i = Some (PasswordHash u, EmailVerified u)" if "r = Ok u"
    using assms that unfolding mysql_FindByID_def
  proof (cases rule: queryOne_spec)
    case (row bs x)
    then have "u_id x = i" using row_with_Some by fast
    with row that show ?thesis using user_of_row_Ok [of lib x u] by (simp add: auth_state_of_def user_row_of_def)
  qed simp_all
qed

lemma mysql_find_email:
  assumes "mysql_FindByEmail lib e w = (r, w1)"
  shows "auth_state_of w1 = auth_state_of w"
    and "db_invar w \<Longrightarrow> r = Ok u \<Longrightarrow> owner (auth_state_of w) e = Some (User_ID u) \<and>
      account (auth_state_of w) (User_ID u) = Some (PasswordHash u, EmailVerified u)"
    and "r = Err err \<Longrightarrow> errors_Is err ErrUserNotFound \<Longrightarrow> owner (auth_state_of w) e = None"
proof -
  show "auth_state_of w1 = auth_state_of w"
    using keepsD [OF state_queryOne, of w "auth_state_of w" lib "\<lambda>w r. same_email w (u_email r) e"] assms
    by (simp add: mysql_FindByEmail_def)
  have se: "same_email (w\<lparr>faults := bs\<rparr>) = same_email w" for bs by (simp add: same_email_def fun_eq_iff)
  show "owner (auth_state_of w) e = Some (User_ID u) \<and>
      account (auth_state_of w) (User_ID u) = Some (PasswordHash u, EmailVerified u)" if "db_invar w" "r = Ok u"
    using assms that(2) unfolding mysql_FindByEmail_def
  proof (cases rule: queryOne_spec)
    case (row bs x)
    then have x: "x \<in> set (users (db w))" using row_with_Some by fast
    have "user_row_of (u_id x) (db w) = Some x"
      using that(1) x unfolding user_row_of_def db_invar_def tables_ok_def by (intro row_with_key) auto
    then show ?thesis using row that(2) user_of_row_Ok [of lib x u] by (simp add: auth_state_of_def se)
  qed simp_all
  show "owner (auth_state_of w) e = None" if "r = Err err" "errors_Is err ErrUserNotFound"
    using assms that unfolding mysql_FindByEmail_def
  proof (cases rule: queryOne_spec)
    case (none bs)
    then show ?thesis by (simp add: auth_state_of_def se)
  next
    case (row bs x)
    then show ?thesis using that user_of_row_Err by blast
  qed simp
qed

text \<open>An update followed by the SELECT of the user.\<close>

lemma update_then_find:
  assumes "andThen (onErr ef (update_user i f)) (\<lambda>n. andThen (lift (g n)) (\<lambda>_. mysql_FindByID lib i)) w = (r, w1)"
    and "\<And>r. u_id (f r) = u_id r \<and> u_email (f r) = u_email r" "\<And>r. account_abs (f r) = h (account_abs r)"
  shows "auth_state_of w1 = auth_state_of w \<or> auth_state_of w1 = on_account i h (auth_state_of w)"
    and "r = Ok u \<Longrightarrow> User_ID u = i \<and> auth_state_of w1 = on_account i h (auth_state_of w)"
proof -
  obtain s w2 where u: "update_user i f w = (s, w2)" by fastforce
  note up = update_user_spec(1) [OF u assms(2,3)]
  have "(auth_state_of w1 = auth_state_of w \<and> \<not> is_Ok r) \<or>
      (auth_state_of w1 = on_account i h (auth_state_of w) \<and> (r = Ok u \<longrightarrow> User_ID u = i))"
  proof (cases s)
    case (Ok n)
    then have run: "andThen (lift (g n)) (\<lambda>_. mysql_FindByID lib i) w2 = (r, w1)"
      using assms(1) u by (simp add: andThen_def onErr_def)
    show ?thesis
    proof (cases "g n")
      case (Ok x)
      then have "mysql_FindByID lib i w2 = (r, w1)" using run by simp
      then show ?thesis using mysql_find_id [of lib i w2 r w1] up \<open>s = Ok n\<close> by simp
    qed (use run up \<open>s = Ok n\<close> in auto)
  qed (use assms(1) u up in \<open>auto simp: andThen_def onErr_def\<close>)
  then show "auth_state_of w1 = auth_state_of w \<or> auth_state_of w1 = on_account i h (auth_state_of w)"
    and "r = Ok u \<Longrightarrow> User_ID u = i \<and> auth_state_of w1 = on_account i h (auth_state_of w)" by auto
qed

lemma mark_abs: "account_abs (r\<lparr>u_email_verified_at := Some t\<rparr>) = (\<lambda>(h, v). (h, True)) (account_abs r)"
  by (simp add: account_abs_def)

lemma password_abs: "account_abs (r\<lparr>u_password_hash := h\<rparr>) = (\<lambda>(g, v). (h, v)) (account_abs r)"
  by (simp add: account_abs_def)

lemma mysql_password_spec:
  assumes "mysql_UpdatePassword i h w = (Ok y, w1)"
  shows "account (auth_state_of w) i \<noteq> None \<and> auth_state_of w1 = on_account i (\<lambda>(g, v). (h, v)) (auth_state_of w)"
proof -
  obtain n where u: "update_user i (\<lambda>r. r\<lparr>u_password_hash := h\<rparr>) w = (Ok n, w1)" "requireOneRow n = Ok y"
    using assms by (auto simp: mysql_UpdatePassword_def andThen_Ok_iff)
  then have "0 < n" by (auto simp: requireOneRow_def split: if_splits)
  then show ?thesis
    using update_user_spec(1) [OF u(1) _ password_abs] update_user_spec(2) [OF u(1) _ password_abs] by simp
qed

lemma state_touch: "keeps (\<lambda>w. auth_state_of w = x) (update_user i (touch_row d))"
  by (rule keeps_state_update_user) (simp_all add: touch_row_def account_abs_def Let_def)

lemma state_profile: "keeps (\<lambda>w. auth_state_of w = x) (update_user i (profile_row p))"
  by (rule keeps_state_update_user) (simp_all add: profile_row_def account_abs_def)

lemma insert_user_spec:
  assumes "insert_user u w = (Ok i, w1)" "db_invar w"
  shows "owner (auth_state_of w) (Email u) = None" "owner (auth_state_of w1) (Email u) = Some i"
    "account (auth_state_of w) i = None"
    "account (auth_state_of w1) = (account (auth_state_of w))(i \<mapsto> (PasswordHash u, False))"
proof -
  let ?row = "\<lambda>i at. \<lparr>u_id = i, u_email = Email u, u_password_hash = PasswordHash u, u_email_verified_at = None, u_name = None,
     u_gender = None, u_birth_date = None, u_timezone = None, u_last_active_date = LastActiveDate (Activity_of u),
     u_distinct_login_days = DistinctLoginDays (Activity_of u), u_streak_days = StreakDays (Activity_of u),
     u_created_at = at, u_updated_at = at\<rparr>"
  obtain bs where new: "\<forall>r \<in> set (users (db w)). collation_key w (u_email r) \<noteq> collation_key w (Email u)"
    and i: "i = next_user_id (db w)"
    and w1: "w1 = w\<lparr>faults := bs, db := (db w)\<lparr>users := users (db w) @ [?row i (current_timestamp (w\<lparr>faults := bs\<rparr>))],
      next_user_id := i + 1\<rparr>\<rparr>"
    using assms(1) unfolding insert_user_def
    by (elim statementE) (auto simp: same_email_def split: if_splits)
  have fresh: "\<forall>r \<in> set (users (db w)). u_id r \<noteq> i" using assms(2) i by (auto simp: db_invar_def tables_ok_def)
  have none: "row_with (\<lambda>r. u_id r = i) (users (db w)) = None"
    "row_with (\<lambda>r. collation_key w (u_email r) = collation_key w (Email u)) (users (db w)) = None"
    using fresh new by (auto simp: row_with_None)
  have app: "row_with p (xs @ [x]) = (case row_with p xs of None \<Rightarrow> if p x then Some x else None | Some y \<Rightarrow> Some y)" for p xs and x :: user_row
    by (simp add: row_with_def find_append split: option.splits)
  show "owner (auth_state_of w) (Email u) = None" "account (auth_state_of w) i = None"
    using none by (simp_all add: auth_state_of_def same_email_def user_row_of_def)
  show "owner (auth_state_of w1) (Email u) = Some i"
    using none unfolding w1 by (simp add: auth_state_of_def same_email_def app)
  show "account (auth_state_of w1) = (account (auth_state_of w))(i \<mapsto> (PasswordHash u, False))"
    using none unfolding w1
    by (auto simp: auth_state_of_def user_row_of_def app account_abs_def fun_eq_iff split: option.splits)
qed

lemma mysql_create_spec:
  assumes "mysql_Create lib u w = (Ok c, w1)" "db_invar w"
  shows "owner (auth_state_of w) (Email u) = None \<and> owner (auth_state_of w1) (Email u) = Some (User_ID c) \<and>
    account (auth_state_of w) (User_ID c) = None \<and>
    account (auth_state_of w1) = (account (auth_state_of w))(User_ID c \<mapsto> (PasswordHash u, False))"
proof -
  obtain i w2 where i: "insert_user u w = (Ok i, w2)" and f: "mysql_FindByID lib i w2 = (Ok c, w1)"
    using assms(1) by (auto simp: mysql_Create_def andThen_Ok_iff)
  from mysql_find_id [OF f] have "auth_state_of w1 = auth_state_of w2" "User_ID c = i" by simp_all
  then show ?thesis using insert_user_spec [OF i assms(2)] by simp
qed

lemma mysql_users_sel [simp]:
  "Create (mysql_users lib) = mysql_Create lib" "FindByEmail (mysql_users lib) = mysql_FindByEmail lib"
  "FindByID (mysql_users lib) = mysql_FindByID lib" "TouchActivity (mysql_users lib) = mysql_TouchActivity lib"
  "MarkEmailVerified (mysql_users lib) = mysql_MarkEmailVerified lib"
  "UpdatePassword (mysql_users lib) = mysql_UpdatePassword" "PutProfile (mysql_users lib) = mysql_SaveProfile lib"
  by (simp_all add: mysql_users_def)

interpretation mysql_user_store: user_store "mysql_users lib" auth_state_of db_invar for lib
proof
  fix x e i d p w w1 and u c :: User and err t r h y
  note q = state_queryOne [of x lib]
  show "keeps (\<lambda>w. auth_state_of w = x) (FindByEmail (mysql_users lib) e)"
    "keeps (\<lambda>w. auth_state_of w = x) (FindByID (mysql_users lib) i)"
    using q by (simp_all add: mysql_FindByEmail_def mysql_FindByID_def)
  show "keeps (\<lambda>w. auth_state_of w = x) (TouchActivity (mysql_users lib) i d)"
    "keeps (\<lambda>w. auth_state_of w = x) (PutProfile (mysql_users lib) i p)"
    unfolding mysql_users_sel mysql_TouchActivity_def mysql_SaveProfile_def mysql_FindByID_def
    by (intro keeps_intros q state_touch state_profile)+
  show "FindByEmail (mysql_users lib) e w = (Ok u, w1) \<Longrightarrow> owner (auth_state_of w) e = Some (User_ID u) \<and>
      account (auth_state_of w) (User_ID u) = Some (PasswordHash u, EmailVerified u)" if "db_invar w"
    using mysql_find_email(2) [of lib e w "Ok u" w1 u] that by simp
  show "FindByEmail (mysql_users lib) e w = (Err err, w1) \<Longrightarrow> errors_Is err ErrUserNotFound \<Longrightarrow>
      owner (auth_state_of w) e = None"
    using mysql_find_email(3) [of lib e w "Err err" w1 err] by simp
  show "FindByID (mysql_users lib) i w = (Ok u, w1) \<Longrightarrow> User_ID u = i"
    using mysql_find_id(2) [of lib i w "Ok u" w1 u] by simp
  show "TouchActivity (mysql_users lib) i d w = (Ok u, w1) \<Longrightarrow> User_ID u = i"
    using mysql_find_id(2) [of lib i _ "Ok u" w1 u] by (auto simp: mysql_TouchActivity_def andThen_Ok_iff)
  show "MarkEmailVerified (mysql_users lib) i t w = (Ok u, w1) \<Longrightarrow>
      User_ID u = i \<and> auth_state_of w1 = on_account i (\<lambda>(h, v). (h, True)) (auth_state_of w)"
    unfolding mysql_users_sel mysql_MarkEmailVerified_def
    by (drule update_then_find(2) [where h = "\<lambda>(h, v). (h, True)"]) (simp_all only: mark_abs, simp_all)
  show "MarkEmailVerified (mysql_users lib) i t w = (r, w1) \<Longrightarrow>
      auth_state_of w1 = auth_state_of w \<or> auth_state_of w1 = on_account i (\<lambda>(h, v). (h, True)) (auth_state_of w)"
    unfolding mysql_users_sel mysql_MarkEmailVerified_def
    by (drule update_then_find(1) [where h = "\<lambda>(h, v). (h, True)"]) (simp_all only: mark_abs, simp_all)
  show "UpdatePassword (mysql_users lib) i h w = (Ok y, w1) \<Longrightarrow>
      account (auth_state_of w) i \<noteq> None \<and> auth_state_of w1 = on_account i (\<lambda>(g, v). (h, v)) (auth_state_of w)"
    using mysql_password_spec by simp
  show "Create (mysql_users lib) u w = (Ok c, w1) \<Longrightarrow>
      owner (auth_state_of w) (Email u) = None \<and> owner (auth_state_of w1) (Email u) = Some (User_ID c) \<and>
      account (auth_state_of w) (User_ID c) = None \<and>
      account (auth_state_of w1) = (account (auth_state_of w))(User_ID c \<mapsto> (PasswordHash u, False))" if "db_invar w"
    using mysql_create_spec [OF _ that] by simp
qed

section \<open>Codes\<close>

lemma is_Ok_map_err [simp]: "is_Ok (result_map_err f r) = is_Ok r"
  by (cases r) simp_all

lemma auth_state_codes:
  assumes "\<And>i. map_option code_abs (row_with (\<lambda>c. c_user_id c = i) cs) = g i"
  shows "auth_state_of (w\<lparr>faults := bs, db := (db w)\<lparr>codes := cs\<rparr>\<rparr>) = (auth_state_of w)\<lparr>code := g\<rparr>"
  using assms by (simp add: auth_state_of_def same_email_def user_row_of_def code_of_def reset_of_hash_def fun_eq_iff)

lemma update_code_spec:
  assumes "update_code i f w = (r, w1)" "\<And>c. c_user_id (f c) = c_user_id c" "\<And>c. code_abs (f c) = g (code_abs c)"
  shows "auth_state_of w1 = (if is_Ok r then on_code i g (auth_state_of w) else auth_state_of w)"
  using assms(1) unfolding update_code_def
proof (cases rule: statementE)
  case (run bs)
  have "map_option code_abs (row_with (\<lambda>c. c_user_id c = j) (update_rows (\<lambda>c. c_user_id c = i) f (codes (db w)))) =
      ((code (auth_state_of w))(i := map_option g (code (auth_state_of w) i))) j" for j
  proof (cases "row_with (\<lambda>c. c_user_id c = j) (codes (db w))")
    case (Some c)
    then have "c_user_id c = j" using row_with_Some by fast
    then show ?thesis using Some assms(2,3)
      by (cases "j = i") (simp_all add: row_with_update_key auth_state_of_def code_of_def)
  qed (use assms(2) in \<open>cases "j = i"; simp add: row_with_update_key auth_state_of_def code_of_def\<close>)
  note cs = auth_state_codes [OF this, of w bs]
  have r: "r = Ok ()" and w1: "w1 = w\<lparr>faults := bs, db := (db w)\<lparr>codes := update_rows (\<lambda>c. c_user_id c = i) f (codes (db w))\<rparr>\<rparr>"
    using run by simp_all
  show ?thesis unfolding r w1 cs on_code_def by simp
qed simp

lemma mysql_put_code_spec:
  assumes "mysql_PutVerification v w = (r, w1)"
  shows "if is_Ok r then auth_state_of w1 = (auth_state_of w)\<lparr>code := (code (auth_state_of w))(V_UserID v \<mapsto>
           v\<lparr>Attempts := 0, V_ExpiresAt := of_seconds (seconds (V_ExpiresAt v)), V_ConsumedAt := None\<rparr>)\<rparr>
       else auth_state_of w1 = auth_state_of w"
proof -
  let ?row = "\<lparr>c_user_id = V_UserID v, c_code_hash = CodeHash v, c_attempts = 0,
     c_expires_at = seconds (V_ExpiresAt v), c_consumed_at = None\<rparr>"
  have abs: "code_abs ?row = v\<lparr>Attempts := 0, V_ExpiresAt := of_seconds (seconds (V_ExpiresAt v)), V_ConsumedAt := None\<rparr>"
    by (simp add: code_abs_def)
  define cs where "cs = (if code_of (V_UserID v) (db w) = None then codes (db w) @ [?row]
             else update_rows (\<lambda>c. c_user_id c = V_UserID v) (\<lambda>_. ?row) (codes (db w)))"
  have cs: "map_option code_abs (row_with (\<lambda>c. c_user_id c = j) cs) =
      ((code (auth_state_of w))(V_UserID v \<mapsto> code_abs ?row)) j" for j
  proof (cases "code_of (V_UserID v) (db w)")
    case None
    then have "cs = codes (db w) @ [?row]" by (simp add: cs_def)
    with None show ?thesis
      by (auto simp: auth_state_of_def code_of_def row_with_def find_append split: option.splits)
  next
    case (Some c)
    have "row_with (\<lambda>c. c_user_id c = j) (update_rows (\<lambda>c. c_user_id c = V_UserID v) (\<lambda>_. ?row) (codes (db w))) =
        (if j = V_UserID v then Some ?row else row_with (\<lambda>c. c_user_id c = j) (codes (db w)))"
    proof (cases "row_with (\<lambda>c. c_user_id c = j) (codes (db w))")
      case (Some c')
      then have "c_user_id c' = j" using row_with_Some by fast
      with Some show ?thesis
        using row_with_update_key [of "\<lambda>c. c_user_id c = V_UserID v" c_user_id "\<lambda>_. ?row" j "codes (db w)"] by simp
    next
      case None
      with Some show ?thesis
        using row_with_update_key [of "\<lambda>c. c_user_id c = V_UserID v" c_user_id "\<lambda>_. ?row" j "codes (db w)"]
        by (auto simp: code_of_def)
    qed
    with Some show ?thesis by (simp add: cs_def auth_state_of_def code_of_def)
  qed
  obtain s where s: "statement (\<lambda>w.
          let row = ?row in
          if user_row_of (V_UserID v) (db w) = None then (Err (MySQLError 1452), w)
          else (Ok (), on_db (\<lambda>t. t\<lparr>codes :=
                 (if code_of (V_UserID v) t = None then codes t @ [row]
                  else update_rows (\<lambda>c. c_user_id c = V_UserID v) (\<lambda>_. row) (codes t))\<rparr>) w)) w = (s, w1)"
      and r: "r = result_map_err (\<lambda>err. Errorf ''store verification code'' [err]) s"
    using assms unfolding mysql_PutVerification_def by (elim onErrE)
  from s show ?thesis
  proof (cases rule: statementE)
    case (run bs)
    show ?thesis
    proof (cases "user_row_of (V_UserID v) (db w) = None")
      case False
      then obtain y where "user_row_of (V_UserID v) (db w) = Some y" by auto
      then have "s = Ok ()" "w1 = w\<lparr>faults := bs, db := (db w)\<lparr>codes := cs\<rparr>\<rparr>"
        using run by (auto simp: Let_def cs_def)
      with r auth_state_codes [OF cs, of w bs] abs show ?thesis by (simp add: fun_upd_def)
    qed (use run r in auto)
  qed (use r in simp)
qed

lemma missed_abs: "code_abs (c\<lparr>c_attempts := c_attempts c + 1\<rparr>) = missed (code_abs c)"
  by (simp add: code_abs_def missed_def)

lemma used_abs:
  "code_abs (if c_consumed_at c = None then c\<lparr>c_consumed_at := Some (seconds t)\<rparr> else c) = used_code t (code_abs c)"
  by (simp add: code_abs_def used_code_def)

lemma mysql_verifications_sel [simp]:
  "PutVerification mysql_verifications = mysql_PutVerification"
  "FindVerification mysql_verifications = mysql_FindVerification"
  "RecordVerificationAttempt mysql_verifications = mysql_RecordVerificationAttempt"
  "ConsumeVerification mysql_verifications = mysql_ConsumeVerification"
  by (simp_all add: mysql_verifications_def)

interpretation mysql_verification_store: verification_store mysql_verifications auth_state_of
proof
  fix x i v w w1 r t
  show "keeps (\<lambda>w. auth_state_of w = x) (FindVerification mysql_verifications i)"
    unfolding mysql_verifications_sel mysql_FindVerification_def
    by (intro keeps_intros keeps_state_statement) simp
  show "FindVerification mysql_verifications i w = (Ok v, w1) \<Longrightarrow> code (auth_state_of w) i = Some v"
    by (auto simp: mysql_FindVerification_def andThen_Ok_iff verification_of_row_def auth_state_of_def code_abs_def
        elim!: statementE split: option.splits)
  show "RecordVerificationAttempt mysql_verifications i w = (r, w1) \<Longrightarrow>
      auth_state_of w1 = (if is_Ok r then on_code i missed (auth_state_of w) else auth_state_of w)"
    unfolding mysql_verifications_sel mysql_RecordVerificationAttempt_def
    by (elim onErrE, drule update_code_spec [where g = missed]) (simp_all only: missed_abs is_Ok_map_err, simp)
  show "ConsumeVerification mysql_verifications i t w = (r, w1) \<Longrightarrow>
      auth_state_of w1 = (if is_Ok r then on_code i (used_code t) (auth_state_of w) else auth_state_of w)"
    unfolding mysql_verifications_sel mysql_ConsumeVerification_def
    by (elim onErrE, drule update_code_spec [where g = "used_code t"]) (simp_all only: used_abs is_Ok_map_err, simp)
  show "PutVerification mysql_verifications v w = (r, w1) \<Longrightarrow>
      (if is_Ok r then auth_state_of w1 = (auth_state_of w)\<lparr>code := (code (auth_state_of w))(V_UserID v \<mapsto>
           v\<lparr>Attempts := 0, V_ExpiresAt := of_seconds (seconds (V_ExpiresAt v)), V_ConsumedAt := None\<rparr>)\<rparr>
       else auth_state_of w1 = auth_state_of w)"
    using mysql_put_code_spec by simp
qed

section \<open>Reset tokens\<close>

lemma auth_state_resets:
  assumes "\<And>h. map_option reset_abs (row_with (\<lambda>r. r_token_hash r = h) rs) = g h"
  shows "auth_state_of (w\<lparr>faults := bs, db := (db w)\<lparr>resets := rs\<rparr>\<rparr>) = (auth_state_of w)\<lparr>reset := g\<rparr>"
  using assms by (simp add: auth_state_of_def same_email_def user_row_of_def code_of_def reset_of_hash_def fun_eq_iff)

lemma mysql_consume_reset_spec:
  assumes "mysql_ConsumeReset i t w = (r, w1)"
  shows "auth_state_of w1 = (if is_Ok r then (auth_state_of w)\<lparr>reset := (\<lambda>h. map_option (used_reset i t) (reset (auth_state_of w) h))\<rparr>
    else auth_state_of w)"
proof -
  let ?p = "\<lambda>r. r_user_id r = i \<and> r_consumed_at r = None" and ?f = "\<lambda>r. r\<lparr>r_consumed_at := Some (seconds t)\<rparr>"
  have abs: "reset_abs (if ?p r then ?f r else r) = used_reset i t (reset_abs r)" for r
    by (simp add: reset_abs_def used_reset_def)
  have rs: "map_option reset_abs (row_with (\<lambda>r. r_token_hash r = h) (update_rows ?p ?f (resets (db w)))) =
      map_option (used_reset i t) (reset (auth_state_of w) h)" for h
    by (cases "row_with (\<lambda>r. r_token_hash r = h) (resets (db w))")
      (simp_all add: row_with_update_key auth_state_of_def reset_of_hash_def abs [symmetric])
  obtain s where s: "statement (\<lambda>w. (Ok (), on_db (\<lambda>t. t\<lparr>resets := update_rows ?p ?f (resets t)\<rparr>) w)) w = (s, w1)"
      and r: "r = result_map_err (\<lambda>err. Errorf ''consume reset token'' [err]) s"
    using assms unfolding mysql_ConsumeReset_def by (elim onErrE)
  from s show ?thesis
  proof (cases rule: statementE)
    case (run bs)
    with r auth_state_resets [OF rs, of w bs] show ?thesis by auto
  qed (use r in simp)
qed

lemma renewed_rows:
  assumes "keys_ok k rows" "keys_ok g rows" "\<forall>r \<in> set rows. g r \<noteq> z"
    and f: "\<And>r. k (f r) = k r" "\<And>r. g (f r) = z"
  shows "row_with (\<lambda>r. g r = h) (update_rows (\<lambda>r. k r = u) f rows) =
    (if h = z then map_option f (row_with (\<lambda>r. k r = u) rows)
     else case row_with (\<lambda>r. g r = h) rows of None \<Rightarrow> None | Some x \<Rightarrow> if k x = u then None else Some x)"
  using assms(1-3)
proof (induction rows)
  case (Cons r rows)
  then have IH: "row_with (\<lambda>r. g r = h) (update_rows (\<lambda>r. k r = u) f rows) =
    (if h = z then map_option f (row_with (\<lambda>r. k r = u) rows)
     else case row_with (\<lambda>r. g r = h) rows of None \<Rightarrow> None | Some x \<Rightarrow> if k x = u then None else Some x)"
    by (auto simp: keys_ok_def)
  show ?case
  proof (cases "k r = u")
    case True
    have "k r \<notin> k ` set rows" "g r \<notin> g ` set rows" using Cons.prems(1,2) by (simp_all add: keys_ok_def)
    with True have others: "\<forall>x \<in> set rows. k x \<noteq> u" and one: "\<forall>x \<in> set rows. g x \<noteq> g r"
      by (metis imageI)+
    then have same: "update_rows (\<lambda>r. k r = u) f rows = rows" by (simp add: update_rows_def map_idI)
    have none: "row_with (\<lambda>x. g x = g r) rows = None" using one by (simp add: row_with_None)
    show ?thesis using True Cons.prems(3) others same none row_with_Some [of "\<lambda>r. g r = h" rows] f
      by (cases "row_with (\<lambda>x. g x = h) rows") (auto simp: row_with_def update_rows_def)
  next
    case False
    with IH Cons.prems(3) show ?thesis by (auto simp: row_with_def update_rows_def)
  qed
qed (simp add: row_with_def update_rows_def)

lemma mysql_put_reset_spec:
  assumes "mysql_PutReset v w = (r, w1)" "db_invar w" "reset (auth_state_of w) (TokenHash v) = None"
  shows "auth_state_of w1 = (if is_Ok r
    then with_reset (v\<lparr>R_ExpiresAt := of_seconds (seconds (R_ExpiresAt v)), R_ConsumedAt := None\<rparr>) (auth_state_of w)
    else auth_state_of w)"
proof -
  let ?u = "R_UserID v" and ?h = "TokenHash v" and ?rs = "resets (db w)"
  define renew where "renew = (\<lambda>r::reset_row. r\<lparr>r_token_hash := ?h, r_expires_at := seconds (R_ExpiresAt v), r_consumed_at := None\<rparr>)"
  define row where "row = \<lparr>r_user_id = ?u, r_token_hash = ?h, r_expires_at = seconds (R_ExpiresAt v), r_consumed_at = None\<rparr>"
  define new where "new = v\<lparr>R_ExpiresAt := of_seconds (seconds (R_ExpiresAt v)), R_ConsumedAt := None\<rparr>"
  define rs' where "rs' = (if reset_of_user ?u (db w) \<noteq> None then update_rows (\<lambda>r. r_user_id r = ?u) renew ?rs else ?rs @ [row])"
  have none: "reset_of_hash ?h (db w) = None" using assms(3) by (simp add: auth_state_of_def)
  have keys: "keys_ok r_user_id ?rs" "keys_ok r_token_hash ?rs" using assms(2) by (auto simp: db_invar_def tables_ok_def)
  have new: "reset_abs row = new" "r_user_id r = ?u \<Longrightarrow> reset_abs (renew r) = new" for r
    by (simp_all add: reset_abs_def row_def renew_def new_def)
  have fresh: "\<forall>r \<in> set ?rs. r_token_hash r \<noteq> ?h" using none by (simp add: reset_of_hash_def row_with_None)
  have rs: "map_option reset_abs (row_with (\<lambda>r. r_token_hash r = h) rs') = reset (with_reset new (auth_state_of w)) h" for h
  proof (cases "row_with (\<lambda>r. r_user_id r = ?u) ?rs")
    case None
    then have "\<forall>x \<in> set ?rs. r_user_id x \<noteq> ?u" by (simp add: row_with_None)
    then have other: "row_with (\<lambda>r. r_token_hash r = h) ?rs = Some x \<Longrightarrow> r_user_id x \<noteq> ?u" for x
      using row_with_Some by fast
    have "rs' = ?rs @ [row]" using None by (simp add: rs'_def reset_of_user_def)
    then show ?thesis using new(1) none other
      by (cases "row_with (\<lambda>r. r_token_hash r = h) ?rs")
        (auto simp: with_reset_def auth_state_of_def reset_of_hash_def row_with_def find_append row_def reset_abs_def new_def)
  next
    case (Some y)
    then have y: "r_user_id y = ?u" using row_with_Some by fast
    have "rs' = update_rows (\<lambda>r. r_user_id r = ?u) renew ?rs" using Some by (simp add: rs'_def reset_of_user_def)
    then have "row_with (\<lambda>r. r_token_hash r = h) rs' = (if h = ?h then Some (renew y)
        else case row_with (\<lambda>r. r_token_hash r = h) ?rs of None \<Rightarrow> None | Some x \<Rightarrow> if r_user_id x = ?u then None else Some x)"
      using renewed_rows [OF keys fresh, of renew h ?u] Some by (simp add: renew_def)
    then show ?thesis using new(2) [OF y]
      by (cases "row_with (\<lambda>r. r_token_hash r = h) ?rs")
        (auto simp: with_reset_def auth_state_of_def reset_of_hash_def new_def reset_abs_def)
  qed
  obtain s where s: "statement (\<lambda>w.
          if user_row_of ?u (db w) = None then (Err (MySQLError 1452), w)
          else (Ok (), on_db (\<lambda>t. t\<lparr>resets :=
                 (if reset_of_hash ?h t \<noteq> None then update_rows (\<lambda>r. r_token_hash r = ?h) renew (resets t)
                  else if reset_of_user ?u t \<noteq> None then update_rows (\<lambda>r. r_user_id r = ?u) renew (resets t)
                  else resets t @ [row])\<rparr>) w)) w = (s, w1)"
      and r: "r = result_map_err (\<lambda>err. Errorf ''store reset token'' [err]) s"
    using assms(1) unfolding mysql_PutReset_def Let_def renew_def row_def by (elim onErrE)
  have a: "auth_state_of (w\<lparr>faults := bs, db := (db w)\<lparr>resets := rs'\<rparr>\<rparr>) = with_reset new (auth_state_of w)" for bs
    using auth_state_resets [OF rs, of w bs] by (simp add: with_reset_def)
  from s show ?thesis
  proof (cases rule: statementE)
    case (run bs)
    show ?thesis
    proof (cases "user_row_of ?u (db w) = None")
      case False
      then obtain y where "user_row_of ?u (db w) = Some y" by auto
      then have "s = Ok ()" "w1 = w\<lparr>faults := bs, db := (db w)\<lparr>resets := rs'\<rparr>\<rparr>"
        using run none by (auto simp: rs'_def)
      with r a show ?thesis by (simp add: new_def)
    qed (use run r in auto)
  qed (use r in simp)
qed

lemma mysql_resets_sel [simp]:
  "PutReset mysql_resets = mysql_PutReset" "FindResetByHash mysql_resets = mysql_FindResetByHash"
  "ConsumeReset mysql_resets = mysql_ConsumeReset"
  by (simp_all add: mysql_resets_def)

interpretation mysql_reset_store: reset_store mysql_resets auth_state_of db_invar
proof
  fix x h v w w1 r i t
  show "keeps (\<lambda>w. auth_state_of w = x) (FindResetByHash mysql_resets h)"
    unfolding mysql_resets_sel mysql_FindResetByHash_def
    by (intro keeps_intros keeps_state_statement) simp
  show "FindResetByHash mysql_resets h w = (Ok v, w1) \<Longrightarrow> reset (auth_state_of w) h = Some v \<and> TokenHash v = h"
    by (auto simp: mysql_FindResetByHash_def andThen_Ok_iff reset_of_row_def auth_state_of_def reset_abs_def
        reset_of_hash_def elim!: statementE dest: row_with_Some split: option.splits)
  show "ConsumeReset mysql_resets i t w = (r, w1) \<Longrightarrow> auth_state_of w1 =
      (if is_Ok r then (auth_state_of w)\<lparr>reset := (\<lambda>h. map_option (used_reset i t) (reset (auth_state_of w) h))\<rparr>
       else auth_state_of w)"
    using mysql_consume_reset_spec by simp
  show "PutReset mysql_resets v w = (r, w1) \<Longrightarrow> auth_state_of w1 = (if is_Ok r
      then with_reset (v\<lparr>R_ExpiresAt := of_seconds (seconds (R_ExpiresAt v)), R_ConsumedAt := None\<rparr>) (auth_state_of w)
      else auth_state_of w)" if "db_invar w" "reset (auth_state_of w) (TokenHash v) = None"
    using mysql_put_reset_spec [OF _ that] by simp
qed

end
