(* ===== verification/PlatformAuth.thy ===== *)
theory PlatformAuth
  imports World
begin

text \<open>
  The cryptographic primitives the services are wired with (\<^verbatim>\<open>internal/platform/auth\<close>): passwords
  (\<^verbatim>\<open>password.go\<close>), secrets (\<^verbatim>\<open>secrets.go\<close>) and access tokens (\<^verbatim>\<open>jwt.go\<close>). bcrypt and the JWT
  library are third party: they are the fields of \<open>crypto_lib\<close>. \<open>crypto/rand\<close> draws from the entropy
  of the world, \<open>base64.RawURLEncoding\<close> is modelled.

  Lemmas: the six digits of a code, the encoding of a reset token loses nothing, what a token
  that verifies guarantees.
\<close>

section \<open>Randomness\<close>

text \<open>A random number, or the error of the reader when there is none.\<close>

definition draw :: "(world, nat) proc" where
  "draw w = (case entropy w of
       [] \<Rightarrow> (Err (LibError ''rand''), w)
     | n # ns \<Rightarrow> (Ok n, w\<lparr>entropy := ns\<rparr>))"

text \<open>\<open>rand.Int(rand.Reader, limit)\<close> and \<open>rand.Read\<close> on a buffer of a given length.\<close>

definition rand_Int :: "nat \<Rightarrow> (world, nat) proc" where
  "rand_Int limit = andThen draw (\<lambda>n. ret (n mod limit))"

definition rand_Read :: "nat \<Rightarrow> (world, nat list) proc" where
  "rand_Read len = andThen draw (\<lambda>n. ret (map (\<lambda>i. n div 256 ^ i mod 256) [0..<len]))"

section \<open>base64.RawURLEncoding\<close>

definition b64_alphabet :: string where
  "b64_alphabet = ''ABCDEFGHIJKLMNOPQRSTUVWXYZabcdefghijklmnopqrstuvwxyz0123456789-_''"

definition b64_char :: "nat \<Rightarrow> char" where
  "b64_char n = b64_alphabet ! (n mod 64)"

fun b64_encode :: "nat list \<Rightarrow> string" where
  "b64_encode [] = []"
| "b64_encode [a] = [b64_char (a div 4), b64_char (a mod 4 * 16)]"
| "b64_encode [a, b] = [b64_char (a div 4), b64_char (a mod 4 * 16 + b div 16), b64_char (b mod 16 * 4)]"
| "b64_encode (a # b # c # bs) =
     b64_char (a div 4) # b64_char (a mod 4 * 16 + b div 16) # b64_char (b mod 16 * 4 + c div 64)
       # b64_char (c mod 64) # b64_encode bs"

text \<open>The inverse, for the statement that nothing is lost.\<close>

definition b64_val :: "char \<Rightarrow> nat" where
  "b64_val c = (case List.find (\<lambda>i. b64_alphabet ! i = c) [0..<64] of None \<Rightarrow> 0 | Some i \<Rightarrow> i)"

fun b64_decode :: "string \<Rightarrow> nat list" where
  "b64_decode (p # q # r # s # cs) =
     (b64_val p * 4 + b64_val q div 16) # (b64_val q mod 16 * 16 + b64_val r div 4)
       # (b64_val r mod 4 * 64 + b64_val s) # b64_decode cs"
| "b64_decode [p, q, r] = [b64_val p * 4 + b64_val q div 16, b64_val q mod 16 * 16 + b64_val r div 4]"
| "b64_decode [p, q] = [b64_val p * 4 + b64_val q div 16]"
| "b64_decode cs = []"

section \<open>Secrets\<close>

definition verificationCodeDigits :: nat where "verificationCodeDigits = 6"
definition resetTokenBytes :: nat where "resetTokenBytes = 32"

definition secret_VerificationCode :: "(world, string) proc" where
  "secret_VerificationCode =
     (let limit = ((\<lambda>l. l * 10) ^^ verificationCodeDigits) 1 in
      andThen (onErr (\<lambda>err. Errorf ''draw verification code'' [err]) (rand_Int limit)) (\<lambda>value.
        ret (pad verificationCodeDigits (int value))))"

definition secret_ResetToken :: "(world, string) proc" where
  "secret_ResetToken =
     andThen (onErr (\<lambda>err. Errorf ''draw reset token'' [err]) (rand_Read resetTokenBytes)) (\<lambda>buffer.
       ret (b64_encode buffer))"

section \<open>Passwords\<close>

record Claims =
  Claims_UserID :: int
  Claims_Subject :: string
  Claims_Issuer :: string
  IssuedAt :: "int option"
  NotBefore :: "int option"
  Claims_ExpiresAt :: "int option"

text \<open>The third party: bcrypt (with the salt it draws) and the JWT library. \<open>jwt_Parse\<close> gets the key
  function, the methods and the issuer it must insist on, whether an expiry is required, and the time;
  \<open>jwt_Signed\<close> is its signature check of a token with a method and a key.\<close>

record crypto_lib =
  bcrypt_Generate :: "int \<Rightarrow> nat \<Rightarrow> string \<Rightarrow> string result"
  bcrypt_Compare :: "string \<Rightarrow> string \<Rightarrow> unit result"
  jwt_Sign :: "string \<Rightarrow> string \<Rightarrow> Claims \<Rightarrow> string result"
  jwt_Signed :: "string \<Rightarrow> string \<Rightarrow> string \<Rightarrow> bool"
  jwt_Parse :: "(string \<Rightarrow> string result) \<Rightarrow> string list \<Rightarrow> string \<Rightarrow> bool \<Rightarrow> gotime \<Rightarrow> string \<Rightarrow> Claims result"

definition bcrypt_MinCost :: int where "bcrypt_MinCost = 4"
definition bcrypt_MaxCost :: int where "bcrypt_MaxCost = 31"
definition bcrypt_DefaultCost :: int where "bcrypt_DefaultCost = 10"
definition bcryptMaxPasswordLength :: nat where "bcryptMaxPasswordLength = 72"

text \<open>A hasher is its cost.\<close>

definition NewPasswordHasher :: "int \<Rightarrow> int" where
  "NewPasswordHasher cost =
     (if cost < bcrypt_MinCost \<or> cost > bcrypt_MaxCost then bcrypt_DefaultCost else cost)"

definition hasher_Hash :: "crypto_lib \<Rightarrow> int \<Rightarrow> string \<Rightarrow> (world, string) proc" where
  "hasher_Hash lib cost plain =
     (if length plain > bcryptMaxPasswordLength
      then fail (Errorf ''hash password: longer than 72 bytes'' [])
      else andThen draw (\<lambda>salt.
        onErr (\<lambda>err. Errorf ''hash password'' [err]) (lift (bcrypt_Generate lib cost salt plain))))"

definition hasher_Compare :: "crypto_lib \<Rightarrow> string \<Rightarrow> string \<Rightarrow> unit result" where
  "hasher_Compare lib hash plain =
     result_map_err
       (\<lambda>err. if errors_Is err BcryptErrMismatchedHashAndPassword then Sentinel ErrPasswordMismatch
              else Errorf ''compare password'' [err])
       (bcrypt_Compare lib hash plain)"

section \<open>Access tokens\<close>

record JWTManager =
  secret :: string
  issuer :: string
  ttl :: int

definition NewJWTManager :: "string \<Rightarrow> string \<Rightarrow> int \<Rightarrow> JWTManager" where
  "NewJWTManager k i d = \<lparr>secret = k, issuer = i, ttl = d\<rparr>"

definition HS256 :: string where "HS256 = ''HS256''"

text \<open>The methods of the library whose type is \<open>*SigningMethodHMAC\<close>.\<close>

definition is_HMAC :: "string \<Rightarrow> bool" where
  "is_HMAC alg \<longleftrightarrow> alg \<in> {''HS256'', ''HS384'', ''HS512''}"

definition claims_for :: "JWTManager \<Rightarrow> int \<Rightarrow> gotime \<Rightarrow> Claims" where
  "claims_for m userID t =
     \<lparr>Claims_UserID = userID, Claims_Subject = Itoa userID, Claims_Issuer = issuer m,
      IssuedAt = Some (seconds t), NotBefore = Some (seconds t),
      Claims_ExpiresAt = Some (seconds (t\<lparr>Nanos := Nanos t + ttl m\<rparr>))\<rparr>"

definition jwt_Issue :: "crypto_lib \<Rightarrow> JWTManager \<Rightarrow> int \<Rightarrow> (world, string \<times> gotime) proc" where
  "jwt_Issue lib m userID =
     andThen read_clock (\<lambda>t.
       let t = UTC t; expiresAt = t\<lparr>Nanos := Nanos t + ttl m\<rparr> in
       andThen (onErr (\<lambda>err. Errorf ''sign access token'' [err])
                 (lift (jwt_Sign lib HS256 (secret m) (claims_for m userID t))))
         (\<lambda>signed. ret (signed, expiresAt)))"

definition key_function :: "JWTManager \<Rightarrow> string \<Rightarrow> string result" where
  "key_function m alg =
     (if \<not> is_HMAC alg then Err (Errorf ''unexpected signing method'' [Sentinel ErrInvalidToken])
      else Ok (secret m))"

definition jwt_VerifyAt :: "crypto_lib \<Rightarrow> JWTManager \<Rightarrow> gotime \<Rightarrow> string \<Rightarrow> Claims result" where
  "jwt_VerifyAt lib m t token =
     result_bind
       (result_map_err
          (\<lambda>err. if errors_Is err JwtErrTokenExpired then Sentinel ErrTokenExpired
                 else Errorf ''invalid token'' [Sentinel ErrInvalidToken, err])
          (jwt_Parse lib (key_function m) [HS256] (issuer m) True t token)) (\<lambda>claims.
       if Claims_UserID claims \<le> 0
       then (case ParseInt (Claims_Subject claims) of
               None \<Rightarrow> Err (Errorf ''missing user identifier'' [Sentinel ErrInvalidToken])
             | Some i \<Rightarrow> (if i \<le> 0 then Err (Errorf ''missing user identifier'' [Sentinel ErrInvalidToken])
                          else Ok (claims\<lparr>Claims_UserID := i\<rparr>)))
       else Ok claims)"

text \<open>The library reads the clock to compare the times of a token.\<close>

definition jwt_Verify :: "crypto_lib \<Rightarrow> JWTManager \<Rightarrow> string \<Rightarrow> (world, Claims) proc" where
  "jwt_Verify lib m token = andThen read_clock (\<lambda>t. lift (jwt_VerifyAt lib m t token))"

section \<open>Lemmas\<close>

lemma b64_val_char [simp]: "b64_val (b64_char n) = n mod 64"
proof -
  have "list_all (\<lambda>k. b64_val (b64_alphabet ! k) = k) [0..<64]" by code_simp
  then have "b64_val (b64_alphabet ! k) = k" if "k < 64" for k using that by (simp add: list_all_iff)
  then show ?thesis by (simp add: b64_char_def)
qed

lemma digit_pair:
  fixes x y :: nat
  assumes "x < h" "y < l"
  shows "(x * l + y) mod (h * l) div l = x" "(x * l + y) mod (h * l) mod l = y"
proof -
  have "(x + 1) * l \<le> h * l" using assms(1) by (intro mult_le_mono1) simp
  then have "x * l + y < h * l" using assms(2) by (simp add: algebra_simps)
  then show "(x * l + y) mod (h * l) div l = x" "(x * l + y) mod (h * l) mod l = y" using assms(2) by simp_all
qed

lemma b64_carry:
  fixes a b :: nat
  assumes "b < 256"
  shows "(a mod 4 * 16 + b div 16) mod 64 div 16 = a mod 4"
    "(a mod 4 * 16 + b div 16) mod 64 mod 16 = b div 16"
    "(a mod 16 * 4 + b div 64) mod 64 div 4 = a mod 16"
    "(a mod 16 * 4 + b div 64) mod 64 mod 4 = b div 64"
    "b div 4 mod 64 = b div 4"
  using digit_pair [of "a mod 4" 4 "b div 16" 16] digit_pair [of "a mod 16" 16 "b div 64" 4] assms
  by simp_all

lemma b64_decode_encode: "\<forall>b \<in> set bs. b < 256 \<Longrightarrow> b64_decode (b64_encode bs) = bs"
proof (induction bs rule: b64_encode.induct)
  case (2 a)
  then show ?case by simp
next
  case (3 a b)
  then have "a < 256" "b < 256" by simp_all
  then show ?case by simp
next
  case (4 a b c bs)
  then have "a < 256" "b < 256" "c < 256" by simp_all
  then show ?case using 4 by (simp add: b64_carry)
qed simp

lemma length_nat_digits_le: "0 < k \<Longrightarrow> n < 10 ^ k \<Longrightarrow> length (nat_digits n) \<le> k"
proof (induction k arbitrary: n)
  case (Suc k)
  show ?case
  proof (cases "n < 10")
    case False
    then have "0 < k" using Suc.prems by (cases k) auto
    moreover have "n div 10 < 10 ^ k" by (rule less_mult_imp_div_less) (use Suc.prems in \<open>simp add: mult.commute\<close>)
    ultimately show ?thesis using Suc.IH [of "n div 10"] False by (subst nat_digits.simps) simp
  qed (subst nat_digits.simps, simp)
qed simp

lemma pad_digits: "list_all is_digit (pad k n)"
  by (auto simp: pad_def Let_def list_all_iff is_digit_def digit_char_def dest: nat_digits_digits [unfolded list_all_iff, rule_format])

lemma length_pad: "0 < k \<Longrightarrow> n < 10 ^ k \<Longrightarrow> length (pad k (int n)) = k"
  using length_nat_digits_le [of k n] by (simp add: pad_def Let_def)

section \<open>What the JWT library documents\<close>

text \<open>A token that parses has a good signature under the key of an allowed method, the issuer asked
  for and, where an expiry is required, one; an expiry it has is still to come. A token it signed parses while it is valid and is reported as
  expired from its expiry on.\<close>

definition jwt_checks :: "crypto_lib \<Rightarrow> bool" where
  "jwt_checks lib \<longleftrightarrow> (\<forall>kf methods iss required t token c. jwt_Parse lib kf methods iss required t token = Ok c \<longrightarrow>
     Claims_Issuer c = iss \<and> (required \<longrightarrow> Claims_ExpiresAt c \<noteq> None) \<and>
     (\<forall>e. Claims_ExpiresAt c = Some e \<longrightarrow> Nanos t < e * 1000000000) \<and>
     (\<exists>alg \<in> set methods. \<exists>k. kf alg = Ok k \<and> jwt_Signed lib alg k token))"

definition jwt_accepts :: "crypto_lib \<Rightarrow> bool" where
  "jwt_accepts lib \<longleftrightarrow> (\<forall>kf methods iss required t token c alg k i e.
     jwt_Sign lib alg k c = Ok token \<and> alg \<in> set methods \<and> kf alg = Ok k \<and> Claims_Issuer c = iss \<and>
     NotBefore c = Some i \<and> i * 1000000000 \<le> Nanos t \<and> Claims_ExpiresAt c = Some e \<longrightarrow>
     (if Nanos t < e * 1000000000 then jwt_Parse lib kf methods iss required t token = Ok c
      else \<exists>err. jwt_Parse lib kf methods iss required t token = Err err \<and> errors_Is err JwtErrTokenExpired))"

text \<open>A library that signs one set of claims.\<close>

definition sample_manager :: JWTManager where
  "sample_manager = NewJWTManager ''key'' ''japo'' 3600000000000"

definition sample_claims :: Claims where
  "sample_claims = claims_for sample_manager 1 (of_seconds 1700000000)"

definition sample_crypto :: crypto_lib where
  "sample_crypto =
     \<lparr>bcrypt_Generate = (\<lambda>cost salt plain. Ok (''$'' @ plain)),
      bcrypt_Compare = (\<lambda>hash plain. if hash = ''$'' @ plain then Ok () else Err (Sentinel BcryptErrMismatchedHashAndPassword)),
      jwt_Sign = (\<lambda>alg k c. if alg = HS256 \<and> k = ''key'' \<and> c = sample_claims then Ok ''token'' else Err (LibError ''sign'')),
      jwt_Signed = (\<lambda>alg k token. alg = HS256 \<and> k = ''key'' \<and> token = ''token''),
      jwt_Parse = (\<lambda>kf methods iss required t token.
        if token \<noteq> ''token'' \<or> HS256 \<notin> set methods \<or> kf HS256 \<noteq> Ok ''key'' then Err (LibError ''signature'')
        else if Nanos t \<ge> 1700003600 * 1000000000 then Err (Sentinel JwtErrTokenExpired)
        else if iss \<noteq> ''japo'' \<or> Nanos t < 1700000000 * 1000000000 then Err (LibError ''claims'')
        else Ok sample_claims)\<rparr>"

lemma sample_crypto_ok: "jwt_checks sample_crypto" "jwt_accepts sample_crypto"
proof -
  have c: "Claims_Issuer sample_claims = ''japo''" "Claims_ExpiresAt sample_claims = Some 1700003600"
    "NotBefore sample_claims = Some 1700000000"
    by (simp_all add: sample_claims_def claims_for_def sample_manager_def NewJWTManager_def of_seconds_def seconds_def)
  show "jwt_checks sample_crypto"
    unfolding jwt_checks_def sample_crypto_def crypto_lib.simps using c by (auto split: if_splits)
  show "jwt_accepts sample_crypto"
    unfolding jwt_accepts_def sample_crypto_def crypto_lib.simps using c by (auto split: if_splits)
qed

lemma funpow_numeral: "(f ^^ numeral k) x = f ((f ^^ pred_numeral k) x)"
  by (simp add: numeral_eq_Suc)

lemma replicate_numeral: "replicate (numeral k) x = x # replicate (pred_numeral k) x"
  by (simp add: numeral_eq_Suc)

lemma code_limit: "((\<lambda>l. l * 10) ^^ verificationCodeDigits) 1 = (1000000 :: nat)"
  by (simp add: verificationCodeDigits_def funpow_numeral)

lemma secret_VerificationCode_eq:
  "secret_VerificationCode =
     andThen (onErr (\<lambda>err. Errorf ''draw verification code'' [err]) (rand_Int 1000000)) (\<lambda>value. ret (pad 6 (int value)))"
  unfolding secret_VerificationCode_def code_limit Let_def by (simp add: verificationCodeDigits_def)

section \<open>Properties\<close>

text \<open>A verification code is always six decimal digits, leading zeros included, and as a number it
  is the one that was drawn, so each of the million codes is the text of exactly one draw.\<close>

lemma code_is_six_digits:
  assumes "secret_VerificationCode w = (Ok code, w1)"
  shows "length code = 6 \<and> list_all is_digit code \<and>
    (\<exists>n ns. entropy w = n # ns \<and> digits_value code = n mod 1000000)"
proof -
  obtain n ns where n: "entropy w = n # ns" "code = pad 6 (int (n mod 1000000))"
    using assms by (auto simp: secret_VerificationCode_eq rand_Int_def draw_def andThen_Ok_iff split: list.splits)
  have z: "digits_value (replicate k CHR ''0'' @ s) = digits_value s" for k s
    by (induction k) (simp_all add: digits_value_def)
  have "digits_value code = n mod 1000000" unfolding n(2) pad_def Let_def by (simp add: z)
  with n length_pad [of 6 "n mod 1000000"] pad_digits show ?thesis by auto
qed

lemma code_is_six_digits_witness: "\<exists>code w1. secret_VerificationCode (sample_world\<lparr>entropy := [42]\<rparr>) = (Ok code, w1) \<and>
    code = ''000042'' \<and> digits_value code = 42"
proof -
  have "pad 6 42 = ''000042''"
    by (simp add: pad_def Let_def replicate_numeral nat_digits.simps digit_char_def char_of_eq_iff take_bit_eq_mod)
  then have "fst (secret_VerificationCode (sample_world\<lparr>entropy := [42]\<rparr>)) = Ok ''000042''"
    by (simp add: secret_VerificationCode_eq rand_Int_def draw_def andThen_def onErr_def)
  then obtain w1 where r: "secret_VerificationCode (sample_world\<lparr>entropy := [42]\<rparr>) = (Ok ''000042'', w1)"
    by (metis prod.collapse)
  from code_is_six_digits [OF r] r show ?thesis by (auto simp: sample_world_def)
qed

lemma reset_token_chars:
  assumes "secret_ResetToken w = (Ok token, w1)"
  shows "set token \<subseteq> set b64_alphabet"
proof -
  obtain bs where t: "token = b64_encode bs"
    using assms by (auto simp: secret_ResetToken_def rand_Read_def andThen_Ok_iff)
  have c: "b64_char k \<in> set b64_alphabet" for k
    unfolding b64_char_def by (rule nth_mem) (simp add: b64_alphabet_def)
  show ?thesis unfolding t by (induction bs rule: b64_encode.induct) (simp_all add: c)
qed

text \<open>C35: A reset token carries all of its 256 random bits: it is 43 URL-safe characters from which the
  32 random bytes are read back, so two tokens are equal only if the same bytes were drawn.\<close>

theorem reset_token_keeps_entropy:
  assumes "secret_ResetToken w = (Ok token, w1)"
  shows "length token = 43 \<and> set token \<subseteq> set b64_alphabet \<and>
    (\<exists>n ns. entropy w = n # ns \<and> b64_decode token = map (\<lambda>i. n div 256 ^ i mod 256) [0..<32])"
proof -
  obtain n ns where n: "entropy w = n # ns" "token = b64_encode (map (\<lambda>i. n div 256 ^ i mod 256) [0..<32])"
    using assms by (auto simp: secret_ResetToken_def rand_Read_def draw_def resetTokenBytes_def
        andThen_Ok_iff split: list.splits)
  have l: "length (b64_encode bs) = (4 * length bs + 2) div 3" for bs
    by (induction bs rule: b64_encode.induct) simp_all
  have "b64_decode token = map (\<lambda>i. n div 256 ^ i mod 256) [0..<32]"
    unfolding n(2) by (rule b64_decode_encode) auto
  then show ?thesis using n reset_token_chars [OF assms] l [of "map (\<lambda>i. n div 256 ^ i mod 256) [0..<32]"] by simp
qed

theorem reset_token_keeps_entropy_witness:
  "b64_decode (''Kg'' @ replicate 41 CHR ''A'') = 42 # replicate 31 0"
proof -
  have bytes: "map (\<lambda>i. (42::nat) div 256 ^ i mod 256) [0..<32] = 42 # replicate 31 0"
  proof (rule nth_equalityI)
    fix i assume "i < length (map (\<lambda>i. (42::nat) div 256 ^ i mod 256) [0..<32])"
    moreover have "(42::nat) div (256 * 256 ^ j) = 0" for j
      by (rule div_less) (use one_le_power [of "256::nat" j] in linarith)
    ultimately show "map (\<lambda>i. (42::nat) div 256 ^ i mod 256) [0..<32] ! i = (42 # replicate 31 0) ! i"
      by (cases i) simp_all
  qed simp
  have "b64_encode (42 # replicate 31 0) = ''Kg'' @ replicate 41 CHR ''A''"
    by (simp add: replicate_numeral b64_char_def b64_alphabet_def)
  then have "fst (secret_ResetToken (sample_world\<lparr>entropy := [42]\<rparr>)) = Ok (''Kg'' @ replicate 41 CHR ''A'')"
    by (simp add: secret_ResetToken_def rand_Read_def draw_def andThen_def onErr_def resetTokenBytes_def bytes)
  then obtain w1 where r: "secret_ResetToken (sample_world\<lparr>entropy := [42]\<rparr>) = (Ok (''Kg'' @ replicate 41 CHR ''A''), w1)"
    by (metis prod.collapse)
  from reset_token_keeps_entropy [OF r] show ?thesis by (simp add: sample_world_def bytes del: b64_decode.simps)
qed

text \<open>C30: A token issued for an account verifies to that account from the moment it is issued until its
  expiry, and is answered with the token-expired error from then on, given what the JWT library
  documents.\<close>

theorem issued_token_verifies:
  assumes "jwt_accepts lib" "jwt_Issue lib m uid w = (Ok (token, expiry), w1)" "0 < uid" "Nanos (now w) \<le> Nanos t"
  shows "(Nanos t < seconds expiry * 1000000000 \<longrightarrow> (\<exists>c. jwt_VerifyAt lib m t token = Ok c \<and> Claims_UserID c = uid)) \<and>
    (seconds expiry * 1000000000 \<le> Nanos t \<longrightarrow> jwt_VerifyAt lib m t token = Err (Sentinel ErrTokenExpired))"
proof -
  let ?c = "claims_for m uid (UTC (now w))"
  have s: "jwt_Sign lib HS256 (secret m) ?c = Ok token" and e: "Claims_ExpiresAt ?c = Some (seconds expiry)"
    using assms(2) by (auto simp: jwt_Issue_def read_clock_def Let_def claims_for_def andThen_Ok_iff)
  have n: "NotBefore ?c = Some (seconds (now w))" "seconds (now w) * 1000000000 \<le> Nanos t"
    "Claims_Issuer ?c = issuer m" "Claims_UserID ?c = uid"
    using assms(4) seconds_le [of "now w"] by (simp_all add: claims_for_def UTC_def seconds_def)
  have k: "key_function m HS256 = Ok (secret m)" by (simp add: key_function_def is_HMAC_def HS256_def)
  note p = assms(1) [unfolded jwt_accepts_def, rule_format, of HS256 "secret m" ?c token "[HS256]" "key_function m" "issuer m"
      "seconds (now w)" t "seconds expiry" True]
  show ?thesis using p s e n k assms(3) by (auto simp: jwt_VerifyAt_def split: if_splits)
qed

theorem issued_token_verifies_witness:
  "\<exists>c. jwt_VerifyAt sample_crypto sample_manager (of_seconds 1700000100) ''token'' = Ok c \<and> Claims_UserID c = 1"
proof -
  have "jwt_Issue sample_crypto sample_manager 1 sample_world = (Ok (''token'', of_seconds 1700003600), sample_world)"
    by (simp add: jwt_Issue_def andThen_def onErr_def read_clock_def sample_world_def sample_crypto_def sample_claims_def Let_def UTC_def
        of_seconds_def sample_manager_def NewJWTManager_def)
  from issued_token_verifies [OF sample_crypto_ok(2) this, of "of_seconds 1700000100"]
  show ?thesis by (simp add: of_seconds_def seconds_def sample_world_def)
qed

text \<open>C31: Only genuine tokens verify: whatever the bytes are, a token that verifies was signed with the
  manager's own secret under HS256, was issued by this API, has an expiry that has not passed, and
  names an account with a positive id. No other algorithm is ever given the key.\<close>

theorem only_genuine_tokens_verify:
  assumes "jwt_checks lib" "jwt_VerifyAt lib m t token = Ok c"
  shows "0 < Claims_UserID c \<and> Claims_Issuer c = issuer m \<and>
    (\<exists>e. Claims_ExpiresAt c = Some e \<and> Nanos t < e * 1000000000) \<and>
    jwt_Signed lib HS256 (secret m) token \<and> (\<forall>alg. \<not> is_HMAC alg \<longrightarrow> \<not> is_Ok (key_function m alg))"
proof -
  obtain d where d: "jwt_Parse lib (key_function m) [HS256] (issuer m) True t token = Ok d"
    and r: "(if Claims_UserID d \<le> 0
       then (case ParseInt (Claims_Subject d) of
               None \<Rightarrow> Err (Errorf ''missing user identifier'' [Sentinel ErrInvalidToken])
             | Some i \<Rightarrow> (if i \<le> 0 then Err (Errorf ''missing user identifier'' [Sentinel ErrInvalidToken])
                          else Ok (d\<lparr>Claims_UserID := i\<rparr>)))
       else Ok d) = Ok c"
    using assms(2) unfolding jwt_VerifyAt_def result_bind_Ok_iff result_map_err_Ok_iff by blast
  have c: "0 < Claims_UserID c" "Claims_Issuer c = Claims_Issuer d" "Claims_ExpiresAt c = Claims_ExpiresAt d"
    using r by (cases "Claims_UserID d \<le> 0"; auto split: option.splits if_splits)+
  note l = assms(1) [unfolded jwt_checks_def, rule_format, OF d]
  then have "jwt_Signed lib HS256 (secret m) token" by (auto simp: key_function_def is_HMAC_def HS256_def)
  moreover have "\<exists>e. Claims_ExpiresAt d = Some e \<and> Nanos t < e * 1000000000" using l by auto
  ultimately show ?thesis using l c by (auto simp: key_function_def)
qed

theorem only_genuine_tokens_verify_witness:
  "Claims_Issuer sample_claims = ''japo'' \<and> jwt_Signed sample_crypto HS256 ''key'' ''token''"
proof -
  have "jwt_VerifyAt sample_crypto sample_manager (of_seconds 1700000100) ''token'' = Ok sample_claims"
    by (simp add: jwt_VerifyAt_def sample_crypto_def of_seconds_def key_function_def is_HMAC_def HS256_def
        sample_manager_def NewJWTManager_def sample_claims_def claims_for_def)
  from only_genuine_tokens_verify [OF sample_crypto_ok(1) this]
  show ?thesis by (simp add: sample_manager_def NewJWTManager_def)
qed

end
