(* ===== verification/Mail.thy ===== *)
theory Mail
  imports PlatformAuth
begin

text \<open>
  The mail transport and the messages (\<^verbatim>\<open>internal/platform/mail\<close>): the validation of a message and the
  log mailer (\<^verbatim>\<open>mail.go\<close>), the SMTP conversation and the rendered message (\<^verbatim>\<open>smtp.go\<close>), the wording,
  the reset link and the duration in it (\<^verbatim>\<open>notifier.go\<close>). Each network call of the conversation may
  fail (\<open>net_faults\<close>); a message counts as delivered, with the data handed to the DATA writer, when the
  close of that writer succeeds. What the server does with it, and TLS, are out of the model.
\<close>

section \<open>Messages\<close>

definition CR :: char where "CR = CHR 0x0D"
definition LF :: char where "LF = CHR 0x0A"
definition CRLF :: string where "CRLF = [CR, LF]"

definition has_line_break :: "string \<Rightarrow> bool" where
  "has_line_break s \<longleftrightarrow> CR \<in> set s \<or> LF \<in> set s"

definition Message_Validate :: "mail_message \<Rightarrow> unit result" where
  "Message_Validate m =
     (if TrimSpace (M_To m) = [] then Err (Errorf ''message has no recipient'' [])
      else if TrimSpace (M_Subject m) = [] then Err (Errorf ''message has no subject'' [])
      else if has_line_break (M_To m) \<or> has_line_break (M_Subject m)
      then Err (Errorf ''message headers must not contain line breaks'' [])
      else Ok ())"

definition LogMailer_Send :: "mail_message \<Rightarrow> (world, unit) proc" where
  "LogMailer_Send m =
     andThen (lift (Message_Validate m)) (\<lambda>_ w. (Ok (), w\<lparr>mail_log := mail_log w @ [m]\<rparr>))"

section \<open>SMTP\<close>

text \<open>\<open>strings.ReplaceAll\<close> with a pattern that is not empty.\<close>

function replace_all :: "string \<Rightarrow> string \<Rightarrow> string \<Rightarrow> string" where
  "replace_all old new s =
     (if old = [] \<or> s = [] then s
      else if starts_with old s then new @ replace_all old new (drop (length old) s)
      else hd s # replace_all old new (tl s))"
  by pat_completeness auto
termination
  by (relation "measure (\<lambda>(old, new, s). length s)") auto

declare replace_all.simps [simp del]

record SMTPConfig =
  Host :: string
  Port :: int
  Username :: string
  SMTP_Password :: string
  From_addr :: string
  TLS :: string
  Timeout :: int

definition TLSStartTLS :: string where "TLSStartTLS = ''starttls''"
definition TLSImplicit :: string where "TLSImplicit = ''tls''"
definition TLSNone :: string where "TLSNone = ''none''"

definition NewSMTPMailer :: "SMTPConfig \<Rightarrow> SMTPConfig" where
  "NewSMTPMailer cfg = (if Timeout cfg \<le> 0 then cfg\<lparr>Timeout := 10000000000\<rparr> else cfg)"

definition headers_of :: "SMTPConfig \<Rightarrow> mail_message \<Rightarrow> string list" where
  "headers_of cfg m =
     [''From: '' @ From_addr cfg, ''To: '' @ M_To m, ''Subject: '' @ M_Subject m,
      ''MIME-Version: 1.0'', ''Content-Type: text/plain; charset=UTF-8'']"

definition render_message :: "SMTPConfig \<Rightarrow> mail_message \<Rightarrow> string" where
  "render_message cfg m =
     concat (map (\<lambda>h. h @ CRLF) (headers_of cfg m)) @ CRLF @
     replace_all (CRLF @ ''.'' @ CRLF) (CRLF @ ''..'' @ CRLF) (M_Body m) @ CRLF"

text \<open>One call on the connection.\<close>

definition net_step :: "string \<Rightarrow> (world, unit) proc" where
  "net_step what w =
     (case net_faults w of
        [] \<Rightarrow> (Ok (), w)
      | f # fs \<Rightarrow> (if f then Err (Errorf what [LibError ''smtp'']) else Ok (), w\<lparr>net_faults := fs\<rparr>))"

definition deliver :: "string \<Rightarrow> string \<Rightarrow> (world, unit) proc" where
  "deliver rcpt data w = (Ok (), w\<lparr>delivered := delivered w @ [(rcpt, data)]\<rparr>)"

definition when_step :: "bool \<Rightarrow> string \<Rightarrow> (world, unit) proc" where
  "when_step b what = (if b then net_step what else ret ())"

definition SMTPMailer_Send :: "SMTPConfig \<Rightarrow> mail_message \<Rightarrow> (world, unit) proc" where
  "SMTPMailer_Send cfg m =
     andThen (lift (Message_Validate m)) (\<lambda>_.
     andThen (net_step ''dial smtp server'') (\<lambda>_.
     andThen (net_step ''set smtp deadline'') (\<lambda>_.
     andThen (net_step ''open smtp session'') (\<lambda>_.
     andThen (when_step (TLS cfg = TLSStartTLS) ''start tls'') (\<lambda>_.
     andThen (when_step (Username cfg \<noteq> []) ''authenticate against smtp server'') (\<lambda>_.
     andThen (net_step ''set sender'') (\<lambda>_.
     andThen (net_step ''set recipient'') (\<lambda>_.
     andThen (net_step ''open message body'') (\<lambda>_.
     andThen (net_step ''write message body'') (\<lambda>_.
     andThen (net_step ''close message body'') (\<lambda>_.
     andThen (deliver (M_To m) (render_message cfg m)) (\<lambda>_.
       net_step ''close smtp session''))))))))))))"

section \<open>The notifier\<close>

record Notifier =
  mailer :: "mail_message \<Rightarrow> (world, unit) proc"
  appURL :: string
  resetPath :: string
  codeTTL :: int
  linkTTL :: int

definition trim_char_left :: "char \<Rightarrow> string \<Rightarrow> string" where
  "trim_char_left c s = dropWhile (\<lambda>x. x = c) s"

definition trim_char_right :: "char \<Rightarrow> string \<Rightarrow> string" where
  "trim_char_right c s = rev (dropWhile (\<lambda>x. x = c) (rev s))"

definition DefaultResetPath :: string where "DefaultResetPath = ''/reset-password''"

definition NewNotifier :: "(mail_message \<Rightarrow> (world, unit) proc) \<Rightarrow> string \<Rightarrow> string \<Rightarrow> int \<Rightarrow> int \<Rightarrow> Notifier" where
  "NewNotifier mlr url path cttl lttl =
     (let path = (if path = [] then DefaultResetPath else path) in
      \<lparr>mailer = mlr, appURL = trim_char_right (CHR ''/'') url,
       resetPath = CHR ''/'' # trim_char_left (CHR ''/'') path, codeTTL = cttl, linkTTL = lttl\<rparr>)"

text \<open>\<open>url.QueryEscape\<close>.\<close>

definition url_unreserved :: "char \<Rightarrow> bool" where
  "url_unreserved c \<longleftrightarrow> (0x41 \<le> byte c \<and> byte c \<le> 0x5A) \<or> (0x61 \<le> byte c \<and> byte c \<le> 0x7A) \<or>
     is_digit c \<or> c \<in> set ''-_.~''"

definition upper_hex :: "nat \<Rightarrow> char" where
  "upper_hex n = ''0123456789ABCDEF'' ! n"

definition query_escape :: "string \<Rightarrow> string" where
  "query_escape s = concat (map (\<lambda>c.
     if url_unreserved c then [c] else if c = CHR '' '' then ''+''
     else [CHR ''%'', upper_hex (byte c div 16), upper_hex (byte c mod 16)]) s)"

definition resetURL :: "Notifier \<Rightarrow> string \<Rightarrow> string" where
  "resetURL n token = appURL n @ resetPath n @ ''?token='' @ query_escape token"

text \<open>Quotients of a duration in nanoseconds; the code divides in floating point, which gives the same
  whole number for any lifetime a code or a link has.\<close>

definition ns_minute :: int where "ns_minute = 60000000000"
definition ns_hour :: int where "ns_hour = 3600000000000"

definition humanDuration :: "int \<Rightarrow> string" where
  "humanDuration d =
     (if d \<le> 0 then ''a moment''
      else if d < ns_hour then Itoa (d div ns_minute) @ '' minutes''
      else if d < 24 * ns_hour then
        (let hours = d div ns_hour in if hours = 1 then ''1 hour'' else Itoa hours @ '' hours'')
      else Itoa (d div ns_hour div 24) @ '' days'')"

definition notifier_SendVerificationCode :: "Notifier \<Rightarrow> string \<Rightarrow> string \<Rightarrow> (world, unit) proc" where
  "notifier_SendVerificationCode n email code =
     mailer n
       \<lparr>M_To = email, M_Subject = ''Your Nihongo verification code'',
        M_Body = ''Welcome to Nihongo.'' @ [LF, LF] @ ''Your verification code is:'' @ [LF, LF] @ ''    '' @ code @
          [LF, LF] @ ''It expires in '' @ humanDuration (codeTTL n) @
          ''. If you did not create an account, ignore this message.'' @ [LF]\<rparr>"

definition notifier_SendPasswordReset :: "Notifier \<Rightarrow> string \<Rightarrow> string \<Rightarrow> (world, unit) proc" where
  "notifier_SendPasswordReset n email token =
     mailer n
       \<lparr>M_To = email, M_Subject = ''Reset your Nihongo password'',
        M_Body = ''Someone asked to reset the password of this Nihongo account.'' @ [LF, LF] @
          ''Open this link to choose a new one:'' @ [LF, LF] @ ''    '' @ resetURL n token @ [LF, LF] @
          ''It expires in '' @ humanDuration (linkTTL n) @
          '' and can only be used once. If it was not you, ignore this'' @ [LF] @
          ''message: nothing has changed.'' @ [LF]\<rparr>"

section \<open>Lemmas\<close>

lemma Message_Validate_Ok:
  "Message_Validate m = Ok () \<Longrightarrow> \<not> has_line_break (M_To m) \<and> \<not> has_line_break (M_Subject m)"
  by (auto simp: Message_Validate_def split: if_splits)

lemma query_escape_unreserved: "list_all url_unreserved s \<Longrightarrow> query_escape s = s"
  by (induction s) (simp_all add: query_escape_def)

lemma b64_unreserved: "set s \<subseteq> set b64_alphabet \<Longrightarrow> list_all url_unreserved s"
proof -
  have "list_all url_unreserved b64_alphabet"
    by (simp add: b64_alphabet_def url_unreserved_def is_digit_def)
  then show "set s \<subseteq> set b64_alphabet \<Longrightarrow> list_all url_unreserved s" by (auto simp: list_all_iff)
qed

text \<open>The lines of a message up to the empty one, as a mail server reads its header.\<close>

fun first_line :: "string \<Rightarrow> string \<times> string" where
  "first_line [] = ([], [])"
| "first_line [c] = ([c], [])"
| "first_line (c # d # s) =
     (if c = CR \<and> d = LF then ([], s) else (case first_line (d # s) of (l, rest) \<Rightarrow> (c # l, rest)))"

lemma first_line_shorter: "s \<noteq> [] \<Longrightarrow> length (snd (first_line s)) < length s"
  by (induction s rule: first_line.induct) (auto split: prod.splits)

function header_lines :: "string \<Rightarrow> string list" where
  "header_lines s =
     (if s = [] then [] else
      case first_line s of (l, rest) \<Rightarrow> if l = [] then [] else l # header_lines rest)"
  by pat_completeness auto
termination
  by (relation "measure length") (use first_line_shorter in \<open>auto, metis snd_conv\<close>)

declare header_lines.simps [simp del]

lemma first_line_append:
  "\<not> has_line_break l \<Longrightarrow> first_line (l @ CRLF @ s) = (l, s)"
proof (induction l)
  case (Cons c l)
  then have "c \<noteq> CR" "\<not> has_line_break l" by (auto simp: has_line_break_def)
  moreover from this Cons have "first_line (l @ CRLF @ s) = (l, s)" by simp
  moreover obtain d r where "l @ CRLF @ s = d # r" by (cases l) (auto simp: CRLF_def)
  ultimately show ?case by simp
qed (simp add: CRLF_def)

lemma header_lines_append:
  assumes "\<forall>h \<in> set hs. h \<noteq> [] \<and> \<not> has_line_break h"
  shows "header_lines (concat (map (\<lambda>h. h @ CRLF) hs) @ CRLF @ body) = hs"
  using assms
proof (induction hs)
  case Nil
  have "first_line (CRLF @ body) = ([], body)" using first_line_append [of "[]"] by (simp add: has_line_break_def)
  then show ?case by (simp add: header_lines.simps [of "CRLF @ body"])
next
  case (Cons h hs)
  let ?rest = "concat (map (\<lambda>h. h @ CRLF) hs) @ CRLF @ body"
  have "first_line (h @ CRLF @ ?rest) = (h, ?rest)" using Cons.prems by (intro first_line_append) simp
  then show ?case using Cons by (subst header_lines.simps) simp
qed

lemma net_step_delivered: "net_step what w = (r, w1) \<Longrightarrow> delivered w1 = delivered w"
  by (auto simp: net_step_def split: list.splits)

lemma keeps_net_step [keeps_intros]:
  "(\<And>w fs. I w \<Longrightarrow> I (w\<lparr>net_faults := fs\<rparr>)) \<Longrightarrow> keeps I (net_step what)"
  by (rule keepsI) (auto simp: net_step_def split: list.splits)

section \<open>Properties\<close>

text \<open>C32: No header can be injected through a message: however the recipient, the subject and the body
  are chosen, a message that is sent has exactly the five header lines the code writes, and it is
  delivered once, to the recipient of its own \<open>To\<close> line.\<close>

theorem no_header_injection:
  assumes "SMTPMailer_Send cfg m w = (Ok (), w1)" "\<not> has_line_break (From_addr cfg)"
  shows "\<exists>data. delivered w1 = delivered w @ [(M_To m, data)] \<and>
    header_lines data = [''From: '' @ From_addr cfg, ''To: '' @ M_To m, ''Subject: '' @ M_Subject m,
      ''MIME-Version: 1.0'', ''Content-Type: text/plain; charset=UTF-8'']"
proof (intro exI conjI)
  have v: "Message_Validate m = Ok ()" and d: "delivered w1 = delivered w @ [(M_To m, render_message cfg m)]"
    using assms(1)
    by (auto simp: SMTPMailer_Send_def andThen_Ok_iff when_step_def deliver_def dest!: net_step_delivered split: if_splits)
  show "delivered w1 = delivered w @ [(M_To m, render_message cfg m)]" by (rule d)
  have "\<forall>h \<in> set (headers_of cfg m). h \<noteq> [] \<and> \<not> has_line_break h"
    using Message_Validate_Ok [OF v] assms(2) by (simp add: headers_of_def has_line_break_def CR_def LF_def)
  from header_lines_append [OF this]
  show "header_lines (render_message cfg m) = [''From: '' @ From_addr cfg, ''To: '' @ M_To m, ''Subject: '' @ M_Subject m,
      ''MIME-Version: 1.0'', ''Content-Type: text/plain; charset=UTF-8'']"
    unfolding render_message_def by (simp add: headers_of_def)
qed


text \<open>A relay on localhost, and a message.\<close>

definition sample_smtp :: SMTPConfig where
  "sample_smtp = \<lparr>Host = ''localhost'', Port = 25, Username = [], SMTP_Password = [], From_addr = ''a@b.c'',
     TLS = TLSNone, Timeout = 0\<rparr>"

theorem no_header_injection_witness:
  "\<exists>data. delivered (snd (SMTPMailer_Send sample_smtp \<lparr>M_To = ''x@y.z'', M_Subject = ''S'', M_Body = CRLF @ ''Bcc: e@v.l''\<rparr> sample_world)) =
     [(''x@y.z'', data)] \<and> length (header_lines data) = 5"
proof -
  let ?m = "\<lparr>M_To = ''x@y.z'', M_Subject = ''S'', M_Body = CRLF @ ''Bcc: e@v.l''\<rparr>"
  have "TrimSpace ''x@y.z'' = ''x@y.z''" "TrimSpace ''S'' = ''S''" by (simp_all add: TrimSpace_graphic graphic_def)
  then have "Message_Validate ?m = Ok ()" by (simp add: Message_Validate_def has_line_break_def CR_def LF_def)
  then have "SMTPMailer_Send sample_smtp ?m sample_world =
      (Ok (), sample_world\<lparr>delivered := [(''x@y.z'', render_message sample_smtp ?m)]\<rparr>)"
    by (simp add: SMTPMailer_Send_def sample_smtp_def TLSNone_def TLSStartTLS_def when_step_def net_step_def deliver_def
        andThen_def sample_world_def)
  from no_header_injection [OF this] this show ?thesis
    by (auto simp: sample_world_def sample_smtp_def has_line_break_def CR_def LF_def)
qed

text \<open>C36: The link in a reset mail carries the token as it was drawn: every character of a generated
  token survives the query escaping, and the address of the client and the path are joined by exactly
  one slash, however many the configuration has there.\<close>

theorem reset_link_carries_token:
  assumes "secret_ResetToken w = (Ok token, w1)"
  shows "\<exists>base path. resetURL (NewNotifier mlr url conf c l) token = base @ ''/'' @ path @ ''?token='' @ token \<and>
    (base = [] \<or> last base \<noteq> CHR ''/'') \<and> (path = [] \<or> hd path \<noteq> CHR ''/'')"
proof (intro exI conjI)
  let ?conf = "if conf = [] then DefaultResetPath else conf"
  have "list_all url_unreserved token"
    by (rule b64_unreserved) (use assms reset_token_chars in blast)
  then show "resetURL (NewNotifier mlr url conf c l) token =
      trim_char_right (CHR ''/'') url @ ''/'' @ trim_char_left (CHR ''/'') ?conf @ ''?token='' @ token"
    by (simp add: resetURL_def NewNotifier_def Let_def query_escape_unreserved)
  show "trim_char_right (CHR ''/'') url = [] \<or> last (trim_char_right (CHR ''/'') url) \<noteq> CHR ''/''"
    using hd_dropWhile [of "\<lambda>x. x = CHR ''/''" "rev url"] unfolding trim_char_right_def by (auto simp: last_rev)
  show "trim_char_left (CHR ''/'') ?conf = [] \<or> hd (trim_char_left (CHR ''/'') ?conf) \<noteq> CHR ''/''"
    using hd_dropWhile [of "\<lambda>x. x = CHR ''/''" ?conf] unfolding trim_char_left_def by blast
qed

theorem reset_link_carries_token_witness:
  "\<exists>token base path. fst (secret_ResetToken sample_world) = Ok token \<and>
     resetURL (NewNotifier LogMailer_Send ''https://x.y//'' [] 0 0) token = base @ ''/'' @ path @ ''?token='' @ token \<and>
     last base \<noteq> CHR ''/''"
proof -
  obtain token w1 where r: "secret_ResetToken sample_world = (Ok token, w1)"
    by (simp add: secret_ResetToken_def rand_Read_def draw_def andThen_def onErr_def sample_world_def)
  from reset_link_carries_token [OF r, of LogMailer_Send "''https://x.y//''" "[]" 0 0]
  obtain base path where b: "resetURL (NewNotifier LogMailer_Send ''https://x.y//'' [] 0 0) token = base @ ''/'' @ path @ ''?token='' @ token"
      "base = [] \<or> last base \<noteq> CHR ''/''" by blast
  have h: "hd (resetURL (NewNotifier LogMailer_Send ''https://x.y//'' [] 0 0) token) = CHR ''h''"
    by (simp add: resetURL_def NewNotifier_def Let_def trim_char_right_def)
  have "base \<noteq> []"
  proof
    assume "base = []"
    with b(1) have "hd (resetURL (NewNotifier LogMailer_Send ''https://x.y//'' [] 0 0) token) = CHR ''/''"
      by (simp only: append_Nil append_Cons list.sel)
    with h show False by simp
  qed
  with b r show ?thesis by (intro exI conjI) (simp_all only: fst_conv simp_thms)
qed

end
