(* ===== verification/Config.thy ===== *)
theory Config
  imports AuthService GoTime
begin

text \<open>
  The configuration (\<^verbatim>\<open>internal/platform/config/config.go\<close>): reading the process environment with
  fallbacks, and the validation that runs before anything is wired. The environment is a function
  from names to values. \<open>strconv.ParseBool\<close> and \<open>time.ParseDuration\<close> are modelled; the fraction of a
  duration is cut to whole nanoseconds.
\<close>

section \<open>Reading values\<close>

type_synonym environment = "string \<Rightarrow> string option"

definition ParseBool :: "string \<Rightarrow> bool option" where
  "ParseBool s =
     (if s \<in> {''1'', ''t'', ''T'', ''TRUE'', ''true'', ''True''} then Some True
      else if s \<in> {''0'', ''f'', ''F'', ''FALSE'', ''false'', ''False''} then Some False
      else None)"

text \<open>\<open>time.ParseDuration\<close>: a sign, then numbers with a unit; the magnitude is at most \<open>2 ^ 63\<close>.\<close>

definition duration_units :: "(string \<times> nat) list" where
  "duration_units =
     [(''ns'', 1), (''us'', 1000), ([CHR 0xC2, CHR 0xB5] @ ''s'', 1000), ([CHR 0xCE, CHR 0xBC] @ ''s'', 1000),
      (''ms'', 1000000), (''s'', 1000000000), (''m'', 60000000000), (''h'', 3600000000000)]"

text \<open>The digits of a fraction as a number and its scale; digits that would overflow are skipped.\<close>

fun leading_fraction :: "string \<Rightarrow> nat \<Rightarrow> nat \<Rightarrow> nat \<times> nat" where
  "leading_fraction [] x scale = (x, scale)"
| "leading_fraction (c # cs) x scale =
     (let y = x * 10 + (byte c - 0x30) in
      if x > (2 ^ 63 - 1) div 10 \<or> y > 2 ^ 63 then (x, scale)
      else leading_fraction cs y (scale * 10))"

text \<open>One number with its unit: the nanoseconds and the rest of the text.\<close>

definition duration_part :: "string \<Rightarrow> (nat \<times> string) option" where
  "duration_part s =
     (let int_digits = takeWhile is_digit s; s1 = dropWhile is_digit s;
          point = (s1 \<noteq> [] \<and> hd s1 = CHR ''.'');
          s2 = (if point then tl s1 else s1);
          frac_digits = (if point then takeWhile is_digit s2 else []);
          s3 = (if point then dropWhile is_digit s2 else s2);
          name = takeWhile (\<lambda>c. c \<noteq> CHR ''.'' \<and> \<not> is_digit c) s3;
          rest = dropWhile (\<lambda>c. c \<noteq> CHR ''.'' \<and> \<not> is_digit c) s3;
          v = digits_value int_digits
      in if int_digits = [] \<and> frac_digits = [] \<or> v > 2 ^ 63 \<or> name = [] then None
         else case map_of duration_units name of
                None \<Rightarrow> None
              | Some unit \<Rightarrow>
                  (if v > 2 ^ 63 div unit then None
                   else (case leading_fraction frac_digits 0 1 of (f, scale) \<Rightarrow>
                     let total = v * unit + f * unit div scale in
                     if total > 2 ^ 63 then None else Some (total, rest))))"

lemma duration_part_shorter: "duration_part s = Some (v, rest) \<Longrightarrow> length rest < length s"
proof -
  assume a: "duration_part s = Some (v, rest)"
  define s1 where "s1 = dropWhile is_digit s"
  define s3 where "s3 = (if s1 \<noteq> [] \<and> hd s1 = CHR ''.'' then dropWhile is_digit (tl s1) else s1)"
  have "rest = dropWhile (\<lambda>c. c \<noteq> CHR ''.'' \<and> \<not> is_digit c) s3" "takeWhile (\<lambda>c. c \<noteq> CHR ''.'' \<and> \<not> is_digit c) s3 \<noteq> []"
    using a unfolding duration_part_def Let_def s3_def s1_def
    by (auto split: if_splits option.splits prod.splits)
  then have "length rest < length s3"
    by (metis length_append length_greater_0_conv less_add_same_cancel2 takeWhile_dropWhile_id)
  moreover have "length s3 \<le> length s1"
    using length_dropWhile_le [of is_digit "tl s1"] by (auto simp: s3_def)
  moreover have "length s1 \<le> length s" unfolding s1_def by (rule length_dropWhile_le)
  ultimately show ?thesis by linarith
qed

function duration_sum :: "string \<Rightarrow> nat \<Rightarrow> nat option" where
  "duration_sum s d =
     (if s = [] then Some d
      else case duration_part s of
             None \<Rightarrow> None
           | Some (v, rest) \<Rightarrow> (if d + v > 2 ^ 63 then None else duration_sum rest (d + v)))"
  by pat_completeness auto
termination
  by (relation "measure (\<lambda>(s, d). length s)") (auto dest: duration_part_shorter)

declare duration_sum.simps [simp del]

definition ParseDuration :: "string \<Rightarrow> int option" where
  "ParseDuration s =
     (let neg = (s \<noteq> [] \<and> hd s = CHR ''-'');
          s = (if s \<noteq> [] \<and> (hd s = CHR ''-'' \<or> hd s = CHR ''+'') then tl s else s)
      in if s = ''0'' then Some 0
         else if s = [] then None
         else case duration_sum s 0 of
                None \<Rightarrow> None
              | Some d \<Rightarrow> if neg then Some (- int d) else if d > 2 ^ 63 - 1 then None else Some (int d))"

definition env :: "environment \<Rightarrow> string \<Rightarrow> string \<Rightarrow> string" where
  "env e key fallback = (case e key of Some v \<Rightarrow> if v \<noteq> [] then v else fallback | None \<Rightarrow> fallback)"

definition envInt :: "environment \<Rightarrow> string \<Rightarrow> int \<Rightarrow> int" where
  "envInt e key fallback =
     (case e key of
        None \<Rightarrow> fallback
      | Some raw \<Rightarrow> if raw = [] then fallback else case ParseInt raw of None \<Rightarrow> fallback | Some v \<Rightarrow> v)"

definition envBool :: "environment \<Rightarrow> string \<Rightarrow> bool \<Rightarrow> bool" where
  "envBool e key fallback =
     (case e key of
        None \<Rightarrow> fallback
      | Some raw \<Rightarrow> if raw = [] then fallback else case ParseBool raw of None \<Rightarrow> fallback | Some v \<Rightarrow> v)"

fun split_on :: "char \<Rightarrow> string \<Rightarrow> string list" where
  "split_on c [] = [[]]"
| "split_on c (x # xs) =
     (if x = c then [] # split_on c xs
      else case split_on c xs of [] \<Rightarrow> [[x]] | p # ps \<Rightarrow> (x # p) # ps)"

definition envList :: "environment \<Rightarrow> string \<Rightarrow> string list" where
  "envList e key =
     (case e key of
        None \<Rightarrow> []
      | Some raw \<Rightarrow>
          (if TrimSpace raw = [] then []
           else filter (\<lambda>p. p \<noteq> []) (map TrimSpace (split_on (CHR '','') raw))))"

definition envDuration :: "environment \<Rightarrow> string \<Rightarrow> int \<Rightarrow> int" where
  "envDuration e key fallback =
     (case e key of
        None \<Rightarrow> fallback
      | Some raw \<Rightarrow> if raw = [] then fallback else case ParseDuration raw of None \<Rightarrow> fallback | Some v \<Rightarrow> v)"

definition Require :: "environment \<Rightarrow> string \<Rightarrow> string result" where
  "Require e key =
     (case e key of
        None \<Rightarrow> Err (Errorf key [Sentinel ErrMissing])
      | Some v \<Rightarrow> if v = [] then Err (Errorf key [Sentinel ErrMissing]) else Ok v)"

section \<open>The configuration tree\<close>

definition EnvDevelopment :: string where "EnvDevelopment = ''development''"
definition EnvProduction :: string where "EnvProduction = ''production''"
definition MailDriverLog :: string where "MailDriverLog = ''log''"
definition MailDriverSMTP :: string where "MailDriverSMTP = ''smtp''"
definition minJWTSecretLength :: nat where "minJWTSecretLength = 32"

text \<open>Durations are nanoseconds.\<close>

definition second :: int where "second = 1000000000"

record AppConfig =
  app_Name :: "string"
  app_Env :: "string"

record HTTPConfig =
  http_Host :: "string"
  http_Port :: "int"
  http_ReadTimeout :: "int"
  http_WriteTimeout :: "int"
  http_IdleTimeout :: "int"
  http_ShutdownTimeout :: "int"
  http_BodyLimit :: "int"
  http_Concurrency :: "int"
  http_TrustedProxies :: "string list"

record DatabaseConfig =
  db_Host :: "string"
  db_Port :: "int"
  db_Name :: "string"
  db_User :: "string"
  db_Password :: "string"
  db_MaxOpenConns :: "int"
  db_MaxIdleConns :: "int"
  db_ConnMaxLifetime :: "int"
  db_ConnMaxIdleTime :: "int"
  db_DialTimeout :: "int"
  db_ReadTimeout :: "int"
  db_WriteTimeout :: "int"
  db_ConnectRetries :: "int"
  db_ConnectBackoff :: "int"
  db_AutoMigrate :: "bool"

record AuthConfig =
  auth_JWTSecret :: "string"
  auth_JWTIssuer :: "string"
  auth_JWTTTL :: "int"
  auth_BcryptCost :: "int"
  auth_RequireVerifiedEmail :: "bool"
  auth_VerificationCodeTTL :: "int"
  auth_MaxVerificationAttempts :: "int"
  auth_ResetTokenTTL :: "int"

record MailConfig =
  mail_Driver :: "string"
  mail_From :: "string"
  mail_Host :: "string"
  mail_Port :: "int"
  mail_Username :: "string"
  mail_Password :: "string"
  mail_TLS :: "string"
  mail_Timeout :: "int"
  mail_AppURL :: "string"
  mail_ResetPath :: "string"

record CORSConfig =
  cors_AllowOrigins :: "string"
  cors_AllowMethods :: "string"
  cors_AllowHeaders :: "string"
  cors_AllowCredentials :: "bool"

record LogConfig =
  log_Level :: "string"
  log_Format :: "string"

record RateLimitConfig =
  limit_Enabled :: "bool"
  limit_LoginMax :: "int"
  limit_LoginWindow :: "int"
  limit_RegisterMax :: "int"
  limit_RegisterWindow :: "int"
  limit_EmailMax :: "int"
  limit_EmailWindow :: "int"

record Config =
  cfg_App :: AppConfig
  cfg_HTTP :: HTTPConfig
  cfg_Database :: DatabaseConfig
  cfg_Auth :: AuthConfig
  cfg_Mail :: MailConfig
  cfg_CORS :: CORSConfig
  cfg_Log :: LogConfig
  cfg_RateLimit :: RateLimitConfig

definition IsProduction :: "AppConfig \<Rightarrow> bool" where
  "IsProduction a \<longleftrightarrow> app_Env a = EnvProduction"

definition HTTP_Address :: "HTTPConfig \<Rightarrow> string" where
  "HTTP_Address h = http_Host h @ '':'' @ Itoa (http_Port h)"

text \<open>What \<open>Load\<close> reads, before the validation.\<close>

definition read_config :: "environment \<Rightarrow> Config" where
  "read_config e =
     \<lparr>cfg_App =
        \<lparr>app_Name = env e ''APP_NAME'' ''japo-api'',
         app_Env = env e ''APP_ENV'' EnvDevelopment\<rparr>,
      cfg_HTTP =
        \<lparr>http_Host = env e ''HTTP_HOST'' ''0.0.0.0'',
         http_Port = envInt e ''HTTP_PORT'' 8080,
         http_ReadTimeout = envDuration e ''HTTP_READ_TIMEOUT'' (10 * second),
         http_WriteTimeout = envDuration e ''HTTP_WRITE_TIMEOUT'' (10 * second),
         http_IdleTimeout = envDuration e ''HTTP_IDLE_TIMEOUT'' (60 * second),
         http_ShutdownTimeout = envDuration e ''HTTP_SHUTDOWN_TIMEOUT'' (15 * second),
         http_BodyLimit = envInt e ''HTTP_BODY_LIMIT'' (512 * 1024),
         http_Concurrency = envInt e ''HTTP_CONCURRENCY'' 256,
         http_TrustedProxies = envList e ''HTTP_TRUSTED_PROXIES''\<rparr>,
      cfg_Database =
        \<lparr>db_Host = env e ''DB_HOST'' ''localhost'',
         db_Port = envInt e ''DB_PORT'' 3306,
         db_Name = env e ''DB_NAME'' ''japo'',
         db_User = env e ''DB_USER'' ''japo'',
         db_Password = env e ''DB_PASSWORD'' [],
         db_MaxOpenConns = envInt e ''DB_MAX_OPEN_CONNS'' 10,
         db_MaxIdleConns = envInt e ''DB_MAX_IDLE_CONNS'' 5,
         db_ConnMaxLifetime = envDuration e ''DB_CONN_MAX_LIFETIME'' (5 * minute),
         db_ConnMaxIdleTime = envDuration e ''DB_CONN_MAX_IDLE_TIME'' (2 * minute),
         db_DialTimeout = envDuration e ''DB_DIAL_TIMEOUT'' (5 * second),
         db_ReadTimeout = envDuration e ''DB_READ_TIMEOUT'' (10 * second),
         db_WriteTimeout = envDuration e ''DB_WRITE_TIMEOUT'' (10 * second),
         db_ConnectRetries = envInt e ''DB_CONNECT_RETRIES'' 10,
         db_ConnectBackoff = envDuration e ''DB_CONNECT_BACKOFF'' (2 * second),
         db_AutoMigrate = envBool e ''DB_AUTO_MIGRATE'' True\<rparr>,
      cfg_Auth =
        \<lparr>auth_JWTSecret = env e ''JWT_SECRET'' [],
         auth_JWTIssuer = env e ''JWT_ISSUER'' ''japo-api'',
         auth_JWTTTL = envDuration e ''JWT_TTL'' hour,
         auth_BcryptCost = envInt e ''BCRYPT_COST'' 10,
         auth_RequireVerifiedEmail = envBool e ''AUTH_REQUIRE_VERIFIED_EMAIL'' False,
         auth_VerificationCodeTTL = envDuration e ''AUTH_VERIFICATION_CODE_TTL'' (15 * minute),
         auth_MaxVerificationAttempts = envInt e ''AUTH_MAX_VERIFICATION_ATTEMPTS'' 5,
         auth_ResetTokenTTL = envDuration e ''AUTH_RESET_TOKEN_TTL'' hour\<rparr>,
      cfg_Mail =
        \<lparr>mail_Driver = env e ''MAIL_DRIVER'' MailDriverLog,
         mail_From = env e ''MAIL_FROM'' ''japo-api@localhost'',
         mail_Host = env e ''SMTP_HOST'' [],
         mail_Port = envInt e ''SMTP_PORT'' 587,
         mail_Username = env e ''SMTP_USERNAME'' [],
         mail_Password = env e ''SMTP_PASSWORD'' [],
         mail_TLS = env e ''SMTP_TLS'' ''starttls'',
         mail_Timeout = envDuration e ''MAIL_TIMEOUT'' (10 * second),
         mail_AppURL = env e ''APP_PUBLIC_URL'' ''http://localhost:4400'',
         mail_ResetPath = env e ''APP_RESET_PATH'' ''/reset-password''\<rparr>,
      cfg_CORS =
        \<lparr>cors_AllowOrigins = env e ''CORS_ALLOW_ORIGINS'' ''*'',
         cors_AllowMethods = env e ''CORS_ALLOW_METHODS'' ''GET,POST,PUT,DELETE,OPTIONS'',
         cors_AllowHeaders = env e ''CORS_ALLOW_HEADERS'' ''Origin,Content-Type,Accept,Authorization'',
         cors_AllowCredentials = envBool e ''CORS_ALLOW_CREDENTIALS'' False\<rparr>,
      cfg_Log =
        \<lparr>log_Level = env e ''LOG_LEVEL'' ''info'',
         log_Format = env e ''LOG_FORMAT'' ''json''\<rparr>,
      cfg_RateLimit =
        \<lparr>limit_Enabled = envBool e ''RATE_LIMIT_ENABLED'' True,
         limit_LoginMax = envInt e ''RATE_LIMIT_LOGIN_MAX'' 10,
         limit_LoginWindow = envDuration e ''RATE_LIMIT_LOGIN_WINDOW'' (15 * minute),
         limit_RegisterMax = envInt e ''RATE_LIMIT_REGISTER_MAX'' 5,
         limit_RegisterWindow = envDuration e ''RATE_LIMIT_REGISTER_WINDOW'' hour,
         limit_EmailMax = envInt e ''RATE_LIMIT_EMAIL_MAX'' 5,
         limit_EmailWindow = envDuration e ''RATE_LIMIT_EMAIL_WINDOW'' hour\<rparr>\<rparr>"

definition problem :: "bool \<Rightarrow> string \<Rightarrow> string list" where
  "problem bad message = (if bad then [message] else [])"

definition mail_problems :: "MailConfig \<Rightarrow> string list" where
  "mail_problems m =
     (if mail_Driver m = MailDriverLog then []
      else if mail_Driver m = MailDriverSMTP then
        problem (mail_Host m = []) ''SMTP_HOST is required when MAIL_DRIVER=smtp'' @
        problem (mail_Port m \<le> 0 \<or> mail_Port m > 65535) ''SMTP_PORT must be between 1 and 65535'' @
        problem (mail_From m = []) ''MAIL_FROM is required when MAIL_DRIVER=smtp''
      else [''MAIL_DRIVER must be \"log\" or \"smtp\"''])"

definition limit_problems :: "RateLimitConfig \<Rightarrow> string list" where
  "limit_problems r =
     (if limit_Enabled r then
        problem (limit_LoginMax r \<le> 0 \<or> limit_RegisterMax r \<le> 0 \<or> limit_EmailMax r \<le> 0)
          ''the RATE_LIMIT_*_MAX values must be greater than 0'' @
        problem (limit_LoginWindow r \<le> 0 \<or> limit_RegisterWindow r \<le> 0 \<or> limit_EmailWindow r \<le> 0)
          ''the RATE_LIMIT_*_WINDOW values must be positive durations''
      else [])"

definition config_problems :: "Config \<Rightarrow> string list" where
  "config_problems c =
     problem (http_Port (cfg_HTTP c) \<le> 0 \<or> http_Port (cfg_HTTP c) > 65535)
       ''HTTP_PORT must be between 1 and 65535'' @
     problem (http_Concurrency (cfg_HTTP c) \<le> 0)
       ''HTTP_CONCURRENCY must be greater than 0'' @
     problem (http_BodyLimit (cfg_HTTP c) \<le> 0)
       ''HTTP_BODY_LIMIT must be greater than 0'' @
     problem (db_Host (cfg_Database c) = [])
       ''DB_HOST is required'' @
     problem (db_Name (cfg_Database c) = [])
       ''DB_NAME is required'' @
     problem (db_User (cfg_Database c) = [])
       ''DB_USER is required'' @
     problem (db_MaxOpenConns (cfg_Database c) \<le> 0)
       ''DB_MAX_OPEN_CONNS must be greater than 0'' @
     problem (db_MaxIdleConns (cfg_Database c) < 0 \<or> db_MaxIdleConns (cfg_Database c) > db_MaxOpenConns (cfg_Database c))
       ''DB_MAX_IDLE_CONNS must be between 0 and DB_MAX_OPEN_CONNS'' @
     problem (length (auth_JWTSecret (cfg_Auth c)) < minJWTSecretLength)
       ''JWT_SECRET is required and must be at least 32 characters'' @
     problem (auth_JWTTTL (cfg_Auth c) \<le> 0)
       ''JWT_TTL must be a positive duration'' @
     problem (auth_BcryptCost (cfg_Auth c) < 4 \<or> auth_BcryptCost (cfg_Auth c) > 31)
       ''BCRYPT_COST must be between 4 and 31'' @
     problem (IsProduction (cfg_App c) \<and> db_Password (cfg_Database c) = [])
       ''DB_PASSWORD is required when APP_ENV=production'' @
     problem (log_Format (cfg_Log c) \<noteq> ''json'' \<and> log_Format (cfg_Log c) \<noteq> ''text'')
       ''LOG_FORMAT must be \"json\" or \"text\"'' @
     mail_problems (cfg_Mail c) @
     problem (IsProduction (cfg_App c) \<and> mail_Driver (cfg_Mail c) = MailDriverLog \<and>
         auth_RequireVerifiedEmail (cfg_Auth c))
       ''MAIL_DRIVER=log cannot be used in production while AUTH_REQUIRE_VERIFIED_EMAIL=true'' @
     problem (auth_VerificationCodeTTL (cfg_Auth c) \<le> 0 \<or> auth_ResetTokenTTL (cfg_Auth c) \<le> 0)
       ''AUTH_VERIFICATION_CODE_TTL and AUTH_RESET_TOKEN_TTL must be positive'' @
     problem (auth_MaxVerificationAttempts (cfg_Auth c) \<le> 0)
       ''AUTH_MAX_VERIFICATION_ATTEMPTS must be greater than 0'' @
     limit_problems (cfg_RateLimit c)"

definition validate_config :: "Config \<Rightarrow> unit result" where
  "validate_config c =
     (let problems = config_problems c in
      if problems \<noteq> []
      then Err (Errorf (''invalid configuration:'' @ concat (map (\<lambda>p. [CHR 0x0A] @ ''  - '' @ p) problems)) [])
      else Ok ())"

definition Load :: "environment \<Rightarrow> Config result" where
  "Load e =
     (let cfg = read_config e in
      result_bind (validate_config cfg) (\<lambda>_. Ok cfg))"

end
