(* ===== verification/ActivityRules.thy ===== *)
theory ActivityRules
  imports AuthRepository
begin

text \<open>
  What \<open>touchActivityQuery\<close> makes of the activity counters: it is idempotent within a day, a day
  behind the stored one changes nothing, and over any non-decreasing sequence of days the counters
  are the number of distinct days and the length of the run of consecutive days that ends with the
  last one. The reference is stated on the set of the days alone (\<open>run_of_days\<close>).
\<close>

section \<open>The reference\<close>

definition run_of_days :: "int set \<Rightarrow> int \<Rightarrow> int \<Rightarrow> bool" where
  "run_of_days S d k \<longleftrightarrow> 0 < k \<and> (\<forall>i. 0 \<le> i \<and> i < k \<longrightarrow> d - i \<in> S) \<and> d - k \<notin> S"

definition activity_matches :: "int list \<Rightarrow> user_row \<Rightarrow> bool" where
  "activity_matches days r \<longleftrightarrow>
     u_last_active_date r = Some (last days) \<and>
     u_distinct_login_days r = int (card (set days)) \<and>
     run_of_days (set days) (last days) (u_streak_days r)"

definition touch_all :: "int list \<Rightarrow> user_row \<Rightarrow> user_row" where
  "touch_all days r = fold touch_row days r"

section \<open>Lemmas\<close>

lemma touch_row_behind:
  "u_last_active_date r = Some d \<Longrightarrow> today \<le> d \<Longrightarrow> touch_row today r = r"
  by (simp add: touch_row_def max_def)

lemma touch_row_last: "u_last_active_date (touch_row today r) =
    Some (max today (case u_last_active_date r of None \<Rightarrow> today | Some d \<Rightarrow> d))"
  by (auto simp: touch_row_def Let_def max_def split: option.splits)

lemma touch_row_same_user [simp]:
  "u_id (touch_row d r) = u_id r" "u_email (touch_row d r) = u_email r"
  "u_password_hash (touch_row d r) = u_password_hash r"
  "u_email_verified_at (touch_row d r) = u_email_verified_at r"
  by (simp_all add: touch_row_def Let_def)

lemma run_of_days_unique: "run_of_days S d j \<Longrightarrow> run_of_days S d k \<Longrightarrow> j = k"
proof (rule ccontr)
  assume a: "run_of_days S d j" "run_of_days S d k" "j \<noteq> k"
  then consider "j < k" | "k < j" by linarith
  then show False using a unfolding run_of_days_def by cases force+
qed

lemma touch_row_matches:
  assumes "activity_matches days r" "days \<noteq> []" "\<forall>x \<in> set days. x \<le> last days" "last days \<le> d"
  shows "activity_matches (days @ [d]) (touch_row d r)"
proof (cases "d = last days")
  case True
  then have "d \<in> set days" using assms(2) by simp
  then have S: "set (days @ [d]) = set days" by auto
  have "touch_row d r = r" using assms(1) True touch_row_behind by (auto simp: activity_matches_def)
  then show ?thesis using assms(1) True unfolding activity_matches_def S by simp
next
  case False
  let ?l = "last days"
  have new: "d \<notin> set days" "?l < d" using assms(3,4) False by force+
  have r: "u_last_active_date r = Some ?l" "u_distinct_login_days r = int (card (set days))"
    "run_of_days (set days) ?l (u_streak_days r)"
    using assms(1) by (simp_all add: activity_matches_def)
  have above: "x \<notin> set days" if "?l < x" for x using assms(3) that by force
  have "run_of_days (insert d (set days)) d (if ?l = d - 1 then u_streak_days r + 1 else 1)"
  proof (cases "?l = d - 1")
    case True
    have "d - i \<in> insert d (set days)" if "0 \<le> i" "i < u_streak_days r + 1" for i
    proof (cases "i = 0")
      case False
      then have "?l - (i - 1) \<in> set days" using r(3) that unfolding run_of_days_def by simp
      then show ?thesis using True by simp
    qed simp
    moreover have "d - (u_streak_days r + 1) \<notin> insert d (set days)"
      using r(3) True unfolding run_of_days_def by (auto simp: algebra_simps)
    ultimately show ?thesis using True r(3) by (simp add: run_of_days_def)
  next
    case False
    then have "d - 1 \<notin> set days" using new(2) by (intro above) simp
    then show ?thesis using False by (auto simp: run_of_days_def)
  qed
  then show ?thesis
    using r new by (auto simp: activity_matches_def touch_row_def Let_def)
qed

lemma sorted_le_last: "sorted xs \<Longrightarrow> x \<in> set xs \<Longrightarrow> x \<le> last xs"
  by (induction xs) auto

lemma touch_all_matches:
  "sorted (d0 # days) \<Longrightarrow> activity_matches [d0] r \<Longrightarrow> activity_matches (d0 # days) (touch_all days r)"
proof (induction days rule: rev_induct)
  case (snoc d days)
  have s: "sorted (d0 # days)" using snoc.prems(1) by (auto simp: sorted_append)
  have "activity_matches ((d0 # days) @ [d]) (touch_row d (touch_all days r))"
  proof (rule touch_row_matches)
    show "activity_matches (d0 # days) (touch_all days r)" using snoc s by blast
    show "\<forall>x \<in> set (d0 # days). x \<le> last (d0 # days)"
      using sorted_le_last [OF s] by blast
    show "last (d0 # days) \<le> d" using snoc.prems(1) by (auto simp: sorted_append)
  qed simp
  then show ?case by (simp add: touch_all_def)
qed (simp add: touch_all_def)

section \<open>Properties\<close>

text \<open>C28: The counters of an account are those of its active days: touched on any non-decreasing
  sequence of days after the day it was created on, \<open>distinct_login_days\<close> is the number of different
  days, \<open>streak_days\<close> the length of the run of consecutive days ending with the last one, however
  often each day is repeated.\<close>

theorem activity_counts_days:
  assumes "sorted (d0 # days)"
    and "u_last_active_date r = Some d0" "u_distinct_login_days r = 1" "u_streak_days r = 1"
  shows "u_distinct_login_days (touch_all days r) = int (card (set (d0 # days))) \<and>
    run_of_days (set (d0 # days)) (last (d0 # days)) (u_streak_days (touch_all days r)) \<and>
    u_streak_days (touch_all days r) \<le> u_distinct_login_days (touch_all days r)"
proof -
  have "activity_matches [d0] r" using assms(2-4) by (auto simp: activity_matches_def run_of_days_def)
  then have m: "activity_matches (d0 # days) (touch_all days r)" by (rule touch_all_matches [OF assms(1)])
  let ?S = "set (d0 # days)" and ?D = "last (d0 # days)" and ?k = "u_streak_days (touch_all days r)"
  have k: "0 < ?k" "\<forall>i. 0 \<le> i \<and> i < ?k \<longrightarrow> ?D - i \<in> ?S"
    using m by (simp_all add: activity_matches_def run_of_days_def)
  have "(\<lambda>i. ?D - i) ` {0..<?k} \<subseteq> ?S"
  proof (rule image_subsetI)
    fix i assume "i \<in> {0..<?k}"
    then show "?D - i \<in> ?S" using k(2) unfolding atLeastLessThan_iff by blast
  qed
  then have "card ((\<lambda>i. ?D - i) ` {0..<?k}) \<le> card ?S" by (intro card_mono) auto
  moreover have "card ((\<lambda>i. ?D - i) ` {0..<?k}) = nat ?k" by (subst card_image) (auto simp: inj_on_def)
  ultimately have "?k \<le> int (card ?S)" using k(1) by linarith
  then show ?thesis using m by (simp add: activity_matches_def)
qed

text \<open>An account created on day 100, then active on days 100, 101, 101, 105 and 106.\<close>

definition sample_row :: user_row where
  "sample_row = \<lparr>u_id = 1, u_email = ''a@b.c'', u_password_hash = ''h'', u_email_verified_at = None,
     u_name = None, u_gender = None, u_birth_date = None, u_timezone = None,
     u_last_active_date = Some 100, u_distinct_login_days = 1, u_streak_days = 1,
     u_created_at = 0, u_updated_at = 0\<rparr>"

theorem activity_counts_days_witness:
  "u_distinct_login_days (touch_all [100, 101, 101, 105, 106] sample_row) = 4 \<and>
   run_of_days {100, 101, 105, 106} 106 (u_streak_days (touch_all [100, 101, 101, 105, 106] sample_row))"
  using activity_counts_days [of 100 "[100, 101, 101, 105, 106]" sample_row]
  by (simp add: sample_row_def)

text \<open>A touch on the stored day or on one behind it (a traveller, an edited time zone) changes
  nothing; any touch moves the day only forward, adds at most one distinct day and keeps the streak
  between 1 and the number of distinct days.\<close>

theorem touch_is_conservative:
  assumes "0 \<le> u_streak_days r" "u_streak_days r \<le> u_distinct_login_days r"
    and "u_last_active_date r \<noteq> None \<Longrightarrow> 1 \<le> u_streak_days r"
  shows "1 \<le> u_streak_days (touch_row d r) \<and> u_streak_days (touch_row d r) \<le> u_distinct_login_days (touch_row d r) \<and>
    u_distinct_login_days (touch_row d r) - u_distinct_login_days r \<in> {0, 1} \<and>
    touch_row d (touch_row d r) = touch_row d r \<and>
    (\<forall>l. u_last_active_date r = Some l \<and> d \<le> l \<longrightarrow> touch_row d r = r)"
proof (intro conjI)
  show "touch_row d (touch_row d r) = touch_row d r"
    by (rule touch_row_behind [OF touch_row_last]) simp
  show "\<forall>l. u_last_active_date r = Some l \<and> d \<le> l \<longrightarrow> touch_row d r = r"
    by (simp add: touch_row_behind)
qed (use assms in \<open>auto simp: touch_row_def Let_def split: option.splits\<close>)

theorem touch_is_conservative_witness:
  "1 \<le> u_streak_days (touch_row 103 sample_row) \<and> touch_row 99 sample_row = sample_row"
  using touch_is_conservative [of sample_row 103] touch_is_conservative [of sample_row 99]
  by (simp add: sample_row_def)

end
