(* ===== verification/JsonCodec.thy ===== *)
theory JsonCodec
  imports AppErrors JsonText GoTime
begin

text \<open>
  Decoding and encoding of typed values by \<^verbatim>\<open>encoding/json\<close>, as the program uses it: strings,
  booleans, 64 bit integers, times, slices, maps with string keys and structs.

  A decoder takes the value the variable has and a JSON value, and gives the new value or no value
  when \<open>json.Unmarshal\<close> returns an error (every caller discards the variable then). A JSON null
  leaves a string, number, boolean, time or struct as it is, and makes a map nil: a Go map is
  therefore \<open>NilMap\<close> or \<open>GMap\<close>, reading a nil map finds nothing and writing to it panics. Struct
  fields match their key exactly or else by \<open>encoding/json\<close>'s case folding, other keys are skipped,
  and of several members with one key the last one wins.

  Lemmas: an encoded value decodes to itself, also after \<open>render\<close> has escaped it (\<open>norm\<close>).
\<close>

section \<open>Go maps that may be nil\<close>

datatype 'v gmap = NilMap | GMap "(string \<times> 'v) list"

primrec gmap_entries :: "'v gmap \<Rightarrow> (string \<times> 'v) list" where
  "gmap_entries NilMap = []"
| "gmap_entries (GMap m) = m"

text \<open>\<open>m[k]\<close> with the zero value of the element type, and the assignment \<open>m[k] = v\<close>.\<close>

definition gmap_get :: "'v \<Rightarrow> 'v gmap \<Rightarrow> string \<Rightarrow> 'v" where
  "gmap_get zero m k = (case map_of (gmap_entries m) k of None \<Rightarrow> zero | Some v \<Rightarrow> v)"

primrec gmap_put :: "string \<Rightarrow> 'v \<Rightarrow> 'v gmap \<Rightarrow> 'v gmap result" where
  "gmap_put k v NilMap = Panic ''assignment to entry in nil map''"
| "gmap_put k v (GMap m) = Ok (GMap (mput k v m))"

section \<open>Decoding\<close>

fun dec_string :: "string \<Rightarrow> json \<Rightarrow> string option" where
  "dec_string cur JNull = Some cur"
| "dec_string cur (JStr raw) = Some (unquote raw)"
| "dec_string cur j = None"

fun dec_bool :: "bool \<Rightarrow> json \<Rightarrow> bool option" where
  "dec_bool cur JNull = Some cur"
| "dec_bool cur (JBool b) = Some b"
| "dec_bool cur j = None"

fun dec_int :: "int \<Rightarrow> json \<Rightarrow> int option" where
  "dec_int cur JNull = Some cur"
| "dec_int cur (JNum lit) = ParseInt lit"
| "dec_int cur j = None"

text \<open>A pointer field: null makes it nil, anything else decodes into a fresh element.\<close>

definition dec_pointer :: "(json \<Rightarrow> 'v option) \<Rightarrow> json \<Rightarrow> 'v option option" where
  "dec_pointer dec j = (if j = JNull then Some None else map_option Some (dec j))"

text \<open>\<open>Time.UnmarshalJSON\<close> reads the bytes between the quotes as they are written.\<close>

fun dec_time :: "gotime \<Rightarrow> json \<Rightarrow> gotime option" where
  "dec_time cur JNull = Some cur"
| "dec_time cur (JStr raw) = parse_RFC3339 raw"
| "dec_time cur j = None"

fun dec_all :: "('a \<Rightarrow> 'b option) \<Rightarrow> 'a list \<Rightarrow> 'b list option" where
  "dec_all dec [] = Some []"
| "dec_all dec (x # xs) =
     (case dec x of None \<Rightarrow> None
      | Some y \<Rightarrow> (case dec_all dec xs of None \<Rightarrow> None | Some ys \<Rightarrow> Some (y # ys)))"

fun dec_list :: "(json \<Rightarrow> 'v option) \<Rightarrow> json \<Rightarrow> 'v list option" where
  "dec_list dec JNull = Some []"
| "dec_list dec (JArr vs) = dec_all dec vs"
| "dec_list dec j = None"

definition dec_member :: "(json \<Rightarrow> 'v option) \<Rightarrow> string \<times> json \<Rightarrow> (string \<times> 'v) option" where
  "dec_member dec kv = map_option (\<lambda>v. (unquote (fst kv), v)) (dec (snd kv))"

fun dec_map :: "(json \<Rightarrow> 'v option) \<Rightarrow> json \<Rightarrow> 'v gmap option" where
  "dec_map dec JNull = Some NilMap"
| "dec_map dec (JObj ms) = map_option (\<lambda>es. GMap (mput_all es [])) (dec_all (dec_member dec) ms)"
| "dec_map dec j = None"

text \<open>\<open>foldName\<close>: the two letters outside ASCII whose case fold is an ASCII letter are the Kelvin
  sign and the long s.\<close>

definition fold_rune :: "nat \<Rightarrow> nat" where
  "fold_rune r = (if 0x61 \<le> r \<and> r \<le> 0x7A then r - 0x20 else if r = 0x212A then 0x4B
                  else if r = 0x017F then 0x53 else r)"

definition fold_name :: "string \<Rightarrow> nat list" where
  "fold_name s = map fold_rune (to_runes s)"

type_synonym 'r fields = "(string \<times> ('r \<Rightarrow> json \<Rightarrow> 'r option)) list"

definition find_field :: "'r fields \<Rightarrow> string \<Rightarrow> ('r \<Rightarrow> json \<Rightarrow> 'r option) option" where
  "find_field fs key =
     (case map_of fs key of
        Some d \<Rightarrow> Some d
      | None \<Rightarrow> map_of (map (\<lambda>f. (fold_name (fst f), snd f)) fs) (fold_name key))"

fun dec_fields :: "'r fields \<Rightarrow> (string \<times> json) list \<Rightarrow> 'r \<Rightarrow> 'r option" where
  "dec_fields fs [] r = Some r"
| "dec_fields fs (m # ms) r =
     (case find_field fs (unquote (fst m)) of
        None \<Rightarrow> dec_fields fs ms r
      | Some d \<Rightarrow> (case d r (snd m) of None \<Rightarrow> None | Some r' \<Rightarrow> dec_fields fs ms r'))"

fun dec_struct :: "'r fields \<Rightarrow> 'r \<Rightarrow> json \<Rightarrow> 'r option" where
  "dec_struct fs cur JNull = Some cur"
| "dec_struct fs cur (JObj ms) = dec_fields fs ms cur"
| "dec_struct fs cur j = None"

text \<open>A field of a struct from the decoder of its type.\<close>

definition field :: "('r \<Rightarrow> 'v) \<Rightarrow> (('v \<Rightarrow> 'v) \<Rightarrow> 'r \<Rightarrow> 'r) \<Rightarrow> ('v \<Rightarrow> json \<Rightarrow> 'v option) \<Rightarrow> 'r \<Rightarrow> json \<Rightarrow> 'r option"
  where "field get upd dec r j = map_option (\<lambda>v. upd (\<lambda>_. v) r) (dec (get r) j)"

section \<open>Encoding\<close>

definition enc_string :: "string \<Rightarrow> json" where "enc_string s = JStr (quote s)"
definition enc_int :: "int \<Rightarrow> json" where "enc_int i = JNum (Itoa i)"

text \<open>\<open>Time.MarshalJSON\<close> fails outside the years 0 to 9999.\<close>

definition enc_time :: "gotime \<Rightarrow> json option" where
  "enc_time t = map_option JStr (format_RFC3339 t)"

definition enc_list :: "('v \<Rightarrow> json) \<Rightarrow> 'v list \<Rightarrow> json" where
  "enc_list enc vs = JArr (map enc vs)"

primrec enc_map :: "('v \<Rightarrow> json) \<Rightarrow> 'v gmap \<Rightarrow> json" where
  "enc_map enc NilMap = JNull"
| "enc_map enc (GMap m) = JObj (map (\<lambda>kv. (quote (fst kv), enc (snd kv))) m)"

section \<open>Lemmas\<close>

lemma gmap_put_Ok [simp]: "gmap_put k v m = Ok m' \<longleftrightarrow> (\<exists>es. m = GMap es \<and> m' = GMap (mput k v es))"
  by (cases m) auto

lemma num_ok_nat_digits: "num_ok (nat_digits n)"
proof (cases "n = 0")
  case True
  then show ?thesis by (simp add: num_ok_def nat_digits.simps is_digit_def digit_char_def char_of_eq_iff take_bit_eq_mod)
next
  case False
  have run: "list_all is_digit ds \<Longrightarrow> num_run NInt ds = Some NInt" for ds
    by (induction ds) (auto simp: is_digit_def)
  have hd: "hd (nat_digits n) \<noteq> CHR ''0''" if "0 < n" for n
    using that
  proof (induction n rule: nat_digits.induct)
    case (1 n)
    show ?case
    proof (cases "n < 10")
      case True
      have "digit_char n \<noteq> CHR ''0''"
      proof
        assume "digit_char n = CHR ''0''"
        then have "byte (digit_char n) = byte CHR ''0''" by (rule arg_cong)
        then show False using True 1 by simp
      qed
      with True show ?thesis by (subst nat_digits.simps) simp
    next
      case False
      then show ?thesis using 1 by (subst nat_digits.simps) (simp add: hd_append)
    qed
  qed
  obtain c cs where c: "nat_digits n = c # cs" by (cases "nat_digits n") (use nat_digits_nonempty in auto)
  then have "c \<noteq> CHR ''0''" "is_digit c" "list_all is_digit cs"
    using hd [of n] False nat_digits_digits [of n] by auto
  then show ?thesis using c run [of cs] digit_not_sign [of c] by (auto simp: num_ok_def)
qed

lemma num_ok_Itoa [simp]: "num_ok (Itoa i)"
proof -
  have "num_run NStart (CHR ''-'' # ds) = num_run NNeg ds" for ds by simp
  moreover have "num_run NNeg ds = num_run NStart ds" if "ds \<noteq> []" "is_digit (hd ds)" for ds
    using that by (cases ds) (auto dest: digit_not_sign)
  ultimately show ?thesis
    using num_ok_nat_digits [of "nat i"] num_ok_nat_digits [of "nat (- i)"] hd_nat_digits [of "nat (- i)"]
    by (simp add: Itoa_def num_ok_def)
qed

lemma json_ok_enc [simp]: "json_ok (enc_string s)" "json_ok (enc_int i)" "depth (enc_string s) = 0" "depth (enc_int i) = 0"
  by (simp_all add: enc_string_def enc_int_def)

lemma dec_enc_string [simp]: "valid_utf8 s \<Longrightarrow> dec_string cur (enc_string s) = Some s"
  by (simp add: enc_string_def)

lemma dec_enc_int [simp]: "- (2 ^ 63) \<le> i \<Longrightarrow> i < 2 ^ 63 \<Longrightarrow> dec_int cur (enc_int i) = Some i"
  by (simp add: enc_int_def ParseInt_Itoa)

lemma raw_ok_time: "format_RFC3339 t = Some s \<Longrightarrow> raw_ok s"
  by (rule raw_ok_plain_chars) (rule format_RFC3339_plain)

lemma json_ok_enc_time: "enc_time t = Some j \<Longrightarrow> json_ok j \<and> depth j = 0"
  by (auto simp: enc_time_def raw_ok_time)

lemma dec_all_map: "(\<And>x. x \<in> set xs \<Longrightarrow> dec (f x) = Some (g x)) \<Longrightarrow> dec_all dec (map f xs) = Some (map g xs)"
  by (induction xs) auto

lemma dec_all_length: "dec_all dec xs = Some ys \<Longrightarrow> length ys = length xs"
  by (induction xs arbitrary: ys) (auto split: option.splits)

lemma dec_enc_list:
  "(\<And>v. v \<in> set vs \<Longrightarrow> dec (enc v) = Some v) \<Longrightarrow> dec_list dec (enc_list enc vs) = Some vs"
  using dec_all_map [of vs dec enc id] by (simp add: enc_list_def)

lemma dec_enc_map:
  assumes "gomap_ok m" "\<forall>kv \<in> set m. valid_utf8 (fst kv) \<and> dec (enc (snd kv)) = Some (snd kv)"
  shows "dec_map dec (enc_map enc (GMap m)) = Some (GMap m)"
proof -
  have "dec_all (dec_member dec) (map (\<lambda>kv. (quote (fst kv), enc (snd kv))) m) = Some (map id m)"
    by (rule dec_all_map) (use assms(2) in \<open>auto simp: dec_member_def\<close>)
  then show ?thesis using assms(1) by simp
qed

text \<open>Decoding does not see the escaping of \<open>render\<close>.\<close>

lemma dec_scalar_norm [simp]:
  "json_ok j \<Longrightarrow> dec_string cur (norm j) = dec_string cur j"
  "dec_bool b (norm j) = dec_bool b j"
  "dec_int i (norm j) = dec_int i j"
  by (cases j; simp)+

lemma dec_time_norm [simp]: "json_ok j \<Longrightarrow> dec_time cur (norm j) = dec_time cur j"
proof (cases j)
  case (JStr raw)
  show ?thesis
  proof (cases "list_all plain_char raw")
    case True
    then show ?thesis by (simp add: JStr html_esc_plain_chars)
  next
    case False
    then have "parse_RFC3339 raw = None" by (rule parse_RFC3339_not_plain)
    moreover have "\<not> list_all plain_char (html_esc raw)"
      using False plain_chars_html_esc by blast
    then have "parse_RFC3339 (html_esc raw) = None" by (rule parse_RFC3339_not_plain)
    ultimately show ?thesis by (simp add: JStr)
  qed
qed auto

lemma dec_all_cong: "(\<And>x. x \<in> set xs \<Longrightarrow> dec (f x) = dec x) \<Longrightarrow> dec_all dec (map f xs) = dec_all dec xs"
  by (induction xs) (auto split: option.splits)

lemma dec_list_norm:
  assumes "\<And>v. json_ok v \<Longrightarrow> dec (norm v) = dec v" "json_ok j"
  shows "dec_list dec (norm j) = dec_list dec j"
  using assms by (cases j) (auto intro!: dec_all_cong)

lemma dec_map_norm:
  assumes "\<And>v. json_ok v \<Longrightarrow> dec (norm v) = dec v" "json_ok j"
  shows "dec_map dec (norm j) = dec_map dec j"
proof (cases j)
  case (JObj ms)
  have "dec_all (dec_member dec) (map (\<lambda>kv. (html_esc (fst kv), norm (snd kv))) ms) = dec_all (dec_member dec) ms"
    by (rule dec_all_cong) (use assms JObj in \<open>auto simp: dec_member_def\<close>)
  then show ?thesis using JObj by simp
qed auto

lemma dec_struct_norm:
  assumes "\<And>k d r v. (k, d) \<in> set fs \<Longrightarrow> json_ok v \<Longrightarrow> d r (norm v) = d r v" "json_ok j"
  shows "dec_struct fs cur (norm j) = dec_struct fs cur j"
proof (cases j)
  case (JObj ms)
  have ff: "find_field fs key = Some d \<Longrightarrow> \<exists>k. (k, d) \<in> set fs" for key d
    by (fastforce simp: find_field_def split: option.splits dest!: map_of_SomeD)
  have "dec_fields fs (map (\<lambda>kv. (html_esc (fst kv), norm (snd kv))) ms) r = dec_fields fs ms r"
    if "\<forall>kv \<in> set ms. raw_ok (fst kv) \<and> json_ok (snd kv)" for r
    using that
  proof (induction ms arbitrary: r)
    case (Cons m ms)
    then show ?case using ff assms(1) by (auto split: option.splits) (metis option.inject option.distinct(1))+
  qed simp
  then show ?thesis using JObj assms(2) by simp
qed auto

end
