(* ===== verification/Mastery.thy ===== *)
theory Mastery
  imports JsonText
begin

text \<open>
  The scoring rules of \<^verbatim>\<open>internal/modules/progress/mastery.go\<close>: the four skills of a kana
  (\<open>Skills\<close>), how one answer moves a score, how the mastery state follows from the scores, and
  which strings are one character of the syllabary (\<open>validKana\<close>). Go's \<open>int\<close> has 64 bits here,
  so every sum is followed by \<open>int64\<close>.

  Lemmas: scores stay in 0..100 under any sequence of answers, mastery is decided by the exact sum
  of the scores when they are in range, and \<open>validKana\<close> accepts exactly the character units.
\<close>

section \<open>Skills and mastery states\<close>

type_synonym Skill = string

definition SkillRecognition :: Skill where "SkillRecognition = ''recognition''"
definition SkillWriting :: Skill where "SkillWriting = ''writing''"
definition SkillListening :: Skill where "SkillListening = ''listening''"
definition SkillReading :: Skill where "SkillReading = ''reading''"

lemmas skill_names [code_defs] =
  SkillRecognition_def SkillWriting_def SkillListening_def SkillReading_def

definition Skill_Valid :: "Skill \<Rightarrow> bool" where
  "Skill_Valid s \<longleftrightarrow>
     s = SkillRecognition \<or> s = SkillWriting \<or> s = SkillListening \<or> s = SkillReading"

definition MasteryLocked :: string where "MasteryLocked = ''locked''"
definition MasteryDiscovered :: string where "MasteryDiscovered = ''discovered''"
definition MasteryLearning :: string where "MasteryLearning = ''learning''"
definition MasteryFamiliar :: string where "MasteryFamiliar = ''familiar''"
definition MasteryMastered :: string where "MasteryMastered = ''mastered''"

lemmas mastery_names [code_defs] =
  MasteryLocked_def MasteryDiscovered_def MasteryLearning_def MasteryFamiliar_def MasteryMastered_def

definition scoreOnCorrect :: int where "scoreOnCorrect = 20"
definition scoreOnMistake :: int where "scoreOnMistake = - 30"
definition minScore :: int where "minScore = 0"
definition maxScore :: int where "maxScore = 100"
definition thresholdLearning :: int where "thresholdLearning = 25"
definition thresholdFamiliar :: int where "thresholdFamiliar = 50"
definition thresholdMastered :: int where "thresholdMastered = 80"

lemmas score_consts [code_defs] =
  scoreOnCorrect_def scoreOnMistake_def minScore_def maxScore_def
  thresholdLearning_def thresholdFamiliar_def thresholdMastered_def

record Skills =
  Recognition :: int
  Writing :: int
  Listening :: int
  Reading :: int

definition zeroSkills :: Skills where
  "zeroSkills = \<lparr>Recognition = 0, Writing = 0, Listening = 0, Reading = 0\<rparr>"

definition score :: "Skills \<Rightarrow> Skill \<Rightarrow> int" where
  "score s skill =
     (if skill = SkillRecognition then Recognition s
      else if skill = SkillWriting then Writing s
      else if skill = SkillListening then Listening s
      else if skill = SkillReading then Reading s
      else 0)"

definition setScore :: "Skill \<Rightarrow> int \<Rightarrow> Skills \<Rightarrow> Skills" where
  "setScore skill value s =
     (if skill = SkillRecognition then s\<lparr>Recognition := value\<rparr>
      else if skill = SkillWriting then s\<lparr>Writing := value\<rparr>
      else if skill = SkillListening then s\<lparr>Listening := value\<rparr>
      else if skill = SkillReading then s\<lparr>Reading := value\<rparr>
      else s)"

text \<open>Go's integer division truncates towards zero: \<open>sdiv\<close>. Each sum wraps.\<close>

definition average :: "Skills \<Rightarrow> int" where
  "average s = int64 (int64 (int64 (Recognition s + Writing s) + Listening s) + Reading s) sdiv 4"

definition clamp :: "int \<Rightarrow> int" where
  "clamp n = (if n < minScore then minScore else if n > maxScore then maxScore else n)"

definition applyAnswer :: "int \<Rightarrow> bool \<Rightarrow> int" where
  "applyAnswer current correct =
     clamp (int64 (current + (if correct then scoreOnCorrect else scoreOnMistake)))"

definition masteryFor :: "Skills \<Rightarrow> string" where
  "masteryFor skills =
     (if average skills \<ge> thresholdMastered then MasteryMastered
      else if average skills \<ge> thresholdFamiliar then MasteryFamiliar
      else if average skills \<ge> thresholdLearning then MasteryLearning
      else MasteryDiscovered)"

text \<open>What \<open>RecordAnswer\<close> does to the skills of the kana, as one step and as a sequence of steps.\<close>

definition gradeSkills :: "Skill \<Rightarrow> bool \<Rightarrow> Skills \<Rightarrow> Skills" where
  "gradeSkills skill correct s = setScore skill (applyAnswer (score s skill) correct) s"

definition gradeAll :: "(Skill \<times> bool) list \<Rightarrow> Skills \<Rightarrow> Skills" where
  "gradeAll answers s = fold (\<lambda>a. gradeSkills (fst a) (snd a)) answers s"

section \<open>Characters of the syllabary\<close>

definition maxKanaRunes :: nat where "maxKanaRunes = 3"

definition choonpu :: nat where "choonpu = 0x30FC"

definition isKana :: "nat \<Rightarrow> bool" where
  "isKana r \<longleftrightarrow> 0x3041 \<le> r \<and> r \<le> 0x3096 \<or> 0x30A1 \<le> r \<and> r \<le> 0x30FA \<or> r = choonpu"

definition isSmallYaYuYo :: "nat \<Rightarrow> bool" where
  "isSmallYaYuYo r \<longleftrightarrow> r \<in> {0x3083, 0x3085, 0x3087, 0x30E3, 0x30E5, 0x30E7}"

definition isKanaBase :: "nat \<Rightarrow> bool" where
  "isKanaBase r \<longleftrightarrow> isKana r \<and> \<not> isSmallYaYuYo r \<and> r \<noteq> choonpu"

definition validKana :: "string \<Rightarrow> bool" where
  "validKana s =
     (let runes = to_runes s in
      if length runes = 0 \<or> length runes > maxKanaRunes then False
      else if \<not> isKanaBase (runes ! 0) then length runes = 1 \<and> isKana (runes ! 0)
      else
        (let rest = drop 1 runes;
             rest = (if length rest > 0 \<and> isSmallYaYuYo (rest ! 0) then drop 1 rest else rest);
             rest = (if length rest > 0 \<and> rest ! 0 = choonpu then drop 1 rest else rest)
         in length rest = 0))"

text \<open>The contract: one kana, or a base kana with an optional small ya, yu, yo and an optional
  long vowel mark.\<close>

definition characterUnit :: "nat list \<Rightarrow> bool" where
  "characterUnit rs \<longleftrightarrow>
     (\<exists>r. rs = [r] \<and> isKana r) \<or>
     (\<exists>b small long. rs = b # small @ long \<and> isKanaBase b \<and>
        (small = [] \<or> (\<exists>r. small = [r] \<and> isSmallYaYuYo r)) \<and> (long = [] \<or> long = [choonpu]))"

section \<open>Lemmas on scores\<close>

definition in_range :: "Skills \<Rightarrow> bool" where
  "in_range s \<longleftrightarrow> (\<forall>x \<in> {Recognition s, Writing s, Listening s, Reading s}. 0 \<le> x \<and> x \<le> 100)"

definition scoreSum :: "Skills \<Rightarrow> int" where
  "scoreSum s = Recognition s + Writing s + Listening s + Reading s"

lemma skill_names_distinct [simp]:
  "SkillRecognition \<noteq> SkillWriting" "SkillRecognition \<noteq> SkillListening" "SkillRecognition \<noteq> SkillReading"
  "SkillWriting \<noteq> SkillListening" "SkillWriting \<noteq> SkillReading" "SkillListening \<noteq> SkillReading"
  "SkillWriting \<noteq> SkillRecognition" "SkillListening \<noteq> SkillRecognition" "SkillReading \<noteq> SkillRecognition"
  "SkillListening \<noteq> SkillWriting" "SkillReading \<noteq> SkillWriting" "SkillReading \<noteq> SkillListening"
  by (simp_all add: skill_names)

lemma score_setScore [simp]: "Skill_Valid k \<Longrightarrow> score (setScore k v s) k = v"
  by (auto simp: Skill_Valid_def score_def setScore_def)

lemma score_setScore_other [simp]: "k \<noteq> l \<Longrightarrow> score (setScore k v s) l = score s l"
  by (auto simp: score_def setScore_def)

lemma clamp_range: "0 \<le> clamp n \<and> clamp n \<le> 100"
  by (simp add: clamp_def score_consts)

lemma applyAnswer_range: "0 \<le> applyAnswer c ok \<and> applyAnswer c ok \<le> 100"
  by (simp add: applyAnswer_def clamp_range)

lemma applyAnswer_in_range:
  "0 \<le> c \<Longrightarrow> c \<le> 100 \<Longrightarrow> applyAnswer c ok = (if ok then min 100 (c + 20) else max 0 (c - 30))"
  by (simp add: applyAnswer_def clamp_def score_consts)

lemma in_range_zero [simp]: "in_range zeroSkills"
  by (simp add: in_range_def zeroSkills_def)

lemma in_range_score: "in_range s \<Longrightarrow> 0 \<le> score s k \<and> score s k \<le> 100"
  by (simp add: in_range_def score_def)

lemma in_range_gradeSkills [simp, intro]: "in_range s \<Longrightarrow> in_range (gradeSkills k ok s)"
  using applyAnswer_range [of "score s k" ok]
  by (auto simp: in_range_def gradeSkills_def setScore_def)

lemma gradeAll_simps [simp]:
  "gradeAll [] s = s"
  "gradeAll (a # as) s = gradeAll as (gradeSkills (fst a) (snd a) s)"
  by (simp_all add: gradeAll_def)

lemma gradeAll_append [simp]: "gradeAll (as @ bs) s = gradeAll bs (gradeAll as s)"
  by (simp add: gradeAll_def)

lemma in_range_gradeAll: "in_range s \<Longrightarrow> in_range (gradeAll as s)"
  by (induction as arbitrary: s) auto

lemma sdiv_nonneg: "0 \<le> x \<Longrightarrow> 0 < y \<Longrightarrow> x sdiv y = x div (y::int)"
  by (cases "x = 0") (simp_all add: signed_divide_int_def)

lemma average_in_range: "in_range s \<Longrightarrow> average s = scoreSum s div 4"
  by (simp add: in_range_def average_def scoreSum_def sdiv_nonneg)

lemma score_gradeSkills_other [simp]: "k \<noteq> l \<Longrightarrow> score (gradeSkills k ok s) l = score s l"
  by (simp add: gradeSkills_def)

lemma score_gradeSkills [simp]:
  "Skill_Valid k \<Longrightarrow> score (gradeSkills k ok s) k = applyAnswer (score s k) ok"
  by (simp add: gradeSkills_def)

text \<open>The score of a skill depends only on the answers to that skill, in their order.\<close>

lemma score_gradeAll:
  "Skill_Valid k \<Longrightarrow>
   score (gradeAll as s) k = fold (\<lambda>ok c. applyAnswer c ok) (map snd (filter (\<lambda>a. fst a = k) as)) (score s k)"
  by (induction as arbitrary: s) auto

lemma scoreSum_scores: "scoreSum s = score s SkillRecognition + score s SkillWriting + score s SkillListening + score s SkillReading"
  by (simp add: scoreSum_def score_def)

lemma masteryFor_total:
  assumes "in_range s"
  shows "masteryFor s = (if 320 \<le> scoreSum s then MasteryMastered else if 200 \<le> scoreSum s then MasteryFamiliar
                         else if 100 \<le> scoreSum s then MasteryLearning else MasteryDiscovered)"
proof -
  have "(t div 4 \<ge> n) = (t \<ge> 4 * n)" for t n :: int by linarith
  then show ?thesis
    using average_in_range [OF assms] by (simp add: masteryFor_def score_consts)
qed

section \<open>Lemmas on kana\<close>

lemma isKana_bounds: "isKana r \<Longrightarrow> 0x800 \<le> r \<and> r < 0x10000 \<and> valid_rune r \<and> r \<noteq> rune_error"
  by (auto simp: isKana_def choonpu_def valid_rune_def rune_error_def)

lemma isSmallYaYuYo_isKana: "isSmallYaYuYo r \<Longrightarrow> isKana r"
  by (auto simp: isSmallYaYuYo_def isKana_def)

lemma validKana_characterUnit: "validKana s \<longleftrightarrow> characterUnit (to_runes s)"
proof -
  have ch: "\<not> isSmallYaYuYo choonpu" by (simp add: isSmallYaYuYo_def choonpu_def)
  obtain rs where rs: "to_runes s = rs" by blast
  consider "rs = []" | a where "rs = [a]" | a b where "rs = [a, b]" | a b c where "rs = [a, b, c]"
    | a b c d t where "rs = a # b # c # d # t"
    by (metis list.exhaust)
  then show ?thesis
    by cases
      (use ch in \<open>auto simp: rs validKana_def characterUnit_def maxKanaRunes_def isKanaBase_def Cons_eq_append_conv\<close>)
qed

lemma characterUnit_isKana: "characterUnit rs \<Longrightarrow> length rs \<le> 3 \<and> rs \<noteq> [] \<and> (\<forall>r \<in> set rs. isKana r)"
proof -
  have "isKana choonpu" by (simp add: isKana_def)
  then show "characterUnit rs \<Longrightarrow> length rs \<le> 3 \<and> rs \<noteq> [] \<and> (\<forall>r \<in> set rs. isKana r)"
    by (auto simp: characterUnit_def isKanaBase_def dest: isSmallYaYuYo_isKana)
qed

lemma of_runes_of_to_runes: "rune_error \<notin> set (to_runes s) \<Longrightarrow> of_runes (to_runes s) = s"
proof -
  assume ne: "rune_error \<notin> set (to_runes s)"
  have "\<forall>p \<in> set (split_runes s). encode_rune (fst p) = snd p"
    using ne split_runes_piece_ok [of _ s] by (force simp: to_runes_def piece_ok_def)
  then have "map encode_rune (to_runes s) = map snd (split_runes s)"
    by (simp add: to_runes_def)
  then show ?thesis by (simp add: of_runes_def)
qed

lemma length_of_kana: "\<forall>r \<in> set rs. isKana r \<Longrightarrow> length (of_runes rs) = 3 * length rs"
  by (induction rs) (auto simp: of_runes_def encode_rune_def dest!: isKana_bounds)

lemma validKana_utf8: "validKana s \<Longrightarrow> valid_utf8 s"
  using characterUnit_isKana [of "to_runes s"] of_runes_of_to_runes [of s] valid_utf8_of_runes
  by (metis isKana_bounds validKana_characterUnit)

lemma validKana_length: "validKana s \<Longrightarrow> length s \<in> {3, 6, 9}"
proof -
  assume "validKana s"
  then have "characterUnit (to_runes s)" by (simp add: validKana_characterUnit)
  then have rs: "length (to_runes s) \<le> 3" "to_runes s \<noteq> []" "\<forall>r \<in> set (to_runes s). isKana r"
    using characterUnit_isKana by blast+
  then have "of_runes (to_runes s) = s" using isKana_bounds of_runes_of_to_runes by blast
  then have "length s = 3 * length (to_runes s)" using length_of_kana rs(3) by metis
  moreover have "length (to_runes s) \<noteq> 0" using rs(2) by simp
  then have "length (to_runes s) = 1 \<or> length (to_runes s) = 2 \<or> length (to_runes s) = 3"
    using rs(1) by linarith
  ultimately show ?thesis by auto
qed

section \<open>Properties\<close>

text \<open>C26: However a learner answers, starting from a kana never practised, every score stays in
  0..100 and the mastery state is decided by the exact average of the four skills: mastered from
  80, familiar from 50, learning from 25 and otherwise discovered. It is never locked again.\<close>

theorem mastery_of_any_history:
  "let s = gradeAll answers zeroSkills in
   in_range s \<and>
   masteryFor s = (if 320 \<le> scoreSum s then MasteryMastered
                   else if 200 \<le> scoreSum s then MasteryFamiliar
                   else if 100 \<le> scoreSum s then MasteryLearning
                   else MasteryDiscovered) \<and>
   masteryFor s \<noteq> MasteryLocked"
  using in_range_gradeAll [OF in_range_zero, of answers]
  by (auto simp: Let_def masteryFor_total mastery_names)

lemma fold_applyAnswer_all:
  "0 \<le> c \<Longrightarrow> c \<le> 100 \<Longrightarrow>
   fold (\<lambda>ok c. applyAnswer c ok) (replicate n ok) c =
     (if ok then min 100 (c + 20 * int n) else max 0 (c - 30 * int n))"
  by (induction n arbitrary: c) (auto simp: applyAnswer_in_range)

text \<open>Any answer brings a score into range, whatever it was before (a client may have stored any number).\<close>

lemma applyAnswer_any: "0 \<le> applyAnswer c ok \<and> applyAnswer c ok \<le> 100"
  by (simp add: applyAnswer_def clamp_def minScore_def maxScore_def)

lemma fold_applyAnswer_any:
  assumes "if 0 \<le> c \<and> c \<le> 100 then 4 \<le> n else 5 \<le> n"
  shows "if ok then 80 \<le> fold (\<lambda>ok c. applyAnswer c ok) (replicate n ok) c \<and>
           fold (\<lambda>ok c. applyAnswer c ok) (replicate n ok) c \<le> 100
         else fold (\<lambda>ok c. applyAnswer c ok) (replicate n ok) c = 0"
proof (cases "0 \<le> c \<and> c \<le> 100")
  case True
  with assms fold_applyAnswer_all [of c n ok] show ?thesis by (cases ok) simp_all
next
  case False
  with assms obtain m where n: "n = Suc m" "4 \<le> m" by (cases n) auto
  with applyAnswer_any [of c ok] fold_applyAnswer_all [of "applyAnswer c ok" m ok] show ?thesis by (cases ok) simp_all
qed

text \<open>C33: In any order, with any number of further correct ones, four correct answers in each of the four
  skills make a kana mastered, and four mistakes in each of them make it fall back to discovered, from
  any score in 0..100; for a skill whose stored score is out of that range, which a client may have
  stored, it takes five.\<close>

theorem four_answers_per_skill_decide:
  assumes "\<forall>a \<in> set answers. snd a = ok"
    and "\<forall>k \<in> {SkillRecognition, SkillWriting, SkillListening, SkillReading}.
           (if 0 \<le> score s k \<and> score s k \<le> 100 then 4 else 5) \<le> length (filter (\<lambda>a. fst a = k) answers)"
  shows "masteryFor (gradeAll answers s) = (if ok then MasteryMastered else MasteryDiscovered)"
proof -
  let ?S = "{SkillRecognition, SkillWriting, SkillListening, SkillReading}"
  have sc: "if ok then 80 \<le> score (gradeAll answers s) k \<and> score (gradeAll answers s) k \<le> 100
            else score (gradeAll answers s) k = 0" if k: "k \<in> ?S" for k
  proof -
    let ?n = "length (filter (\<lambda>a. fst a = k) answers)"
    have "Skill_Valid k" using k by (simp add: Skill_Valid_def)
    moreover have "map snd (filter (\<lambda>a. fst a = k) answers) = replicate ?n ok"
      using assms(1) by (induction answers) auto
    ultimately have "score (gradeAll answers s) k = fold (\<lambda>ok c. applyAnswer c ok) (replicate ?n ok) (score s k)"
      using score_gradeAll [of k answers s] by simp
    moreover have "if 0 \<le> score s k \<and> score s k \<le> 100 then 4 \<le> ?n else 5 \<le> ?n"
      using assms(2) [rule_format, OF k] by (simp split: if_splits)
    ultimately show ?thesis using fold_applyAnswer_any [of "score s k" ?n ok] by (simp only:)
  qed
  note sc = sc [of SkillRecognition] sc [of SkillWriting] sc [of SkillListening] sc [of SkillReading]
  have "in_range (gradeAll answers s)"
    using sc by (cases ok) (simp_all add: in_range_def score_def)
  from masteryFor_total [OF this] sc show ?thesis
    by (cases ok) (simp_all add: scoreSum_scores)
qed

theorem four_answers_per_skill_decide_witness:
  "masteryFor (gradeAll (concat (replicate 5 [(SkillReading, True), (SkillWriting, True), (SkillListening, True), (SkillRecognition, True)]))
      \<lparr>Recognition = - 5, Writing = 1000, Listening = 0, Reading = 100\<rparr>) = MasteryMastered"
  using four_answers_per_skill_decide
      [of "concat (replicate 5 [(SkillReading, True), (SkillWriting, True), (SkillListening, True), (SkillRecognition, True)])" True
        "\<lparr>Recognition = - 5, Writing = 1000, Listening = 0, Reading = 100\<rparr>"]
  by (simp add: numeral_eq_Suc)

text \<open>Being perfect at one skill alone never takes a kana beyond learning, however many answers
  are given.\<close>

theorem one_skill_is_not_enough:
  assumes "\<forall>a \<in> set answers. fst a = skill"
  shows "masteryFor (gradeAll answers zeroSkills) \<in> {MasteryDiscovered, MasteryLearning}"
proof -
  let ?s = "gradeAll answers zeroSkills"
  have z: "score zeroSkills l = 0" for l by (simp add: score_def zeroSkills_def)
  have other: "score ?s l = 0" if "Skill_Valid l" "l \<noteq> skill" for l
    using score_gradeAll [OF that(1), of answers zeroSkills] assms that(2) z by (auto simp: filter_empty_conv)
  have r: "in_range ?s" by (simp add: in_range_gradeAll)
  have "scoreSum ?s \<le> 100"
    using other [of SkillRecognition] other [of SkillWriting] other [of SkillListening] other [of SkillReading]
      in_range_score [OF r, of SkillRecognition] in_range_score [OF r, of SkillWriting]
      in_range_score [OF r, of SkillListening] in_range_score [OF r, of SkillReading]
    by (cases "skill = SkillRecognition"; cases "skill = SkillWriting"; cases "skill = SkillListening")
      (simp_all add: scoreSum_scores Skill_Valid_def)
  then show ?thesis by (simp add: masteryFor_total [OF r])
qed

theorem one_skill_is_not_enough_witness:
  "masteryFor (gradeAll (replicate 9 (SkillReading, True)) zeroSkills) \<in> {MasteryDiscovered, MasteryLearning}"
  using one_skill_is_not_enough [of "replicate 9 (SkillReading, True)" SkillReading] by simp

text \<open>C34: \<open>validKana\<close> accepts exactly the UTF-8 encodings of one character unit: a kana on its own,
  or a base kana with an optional small ya, yu or yo and an optional long vowel mark. Words, other
  scripts and invalid UTF-8 are refused.\<close>

theorem validKana_iff: "validKana s \<longleftrightarrow> (\<exists>rs. s = of_runes rs \<and> characterUnit rs)"
proof
  assume "validKana s"
  then have u: "characterUnit (to_runes s)" by (simp add: validKana_characterUnit)
  then have "s = of_runes (to_runes s)"
    using characterUnit_isKana isKana_bounds of_runes_of_to_runes by metis
  with u show "\<exists>rs. s = of_runes rs \<and> characterUnit rs" by blast
next
  assume "\<exists>rs. s = of_runes rs \<and> characterUnit rs"
  then obtain rs where rs: "s = of_runes rs" "characterUnit rs" by blast
  then have "list_all valid_rune rs"
    using characterUnit_isKana isKana_bounds by (metis list_all_iff)
  then have "to_runes s = rs" using rs(1) to_runes_of_runes by simp
  then show "validKana s" using rs(2) by (simp add: validKana_characterUnit)
qed

text \<open>A score written by a client close to the largest integer wraps around instead of being
  clamped to 100: the learner answers right and the score becomes 0.\<close>

lemma applyAnswer_wraps: "applyAnswer (2 ^ 63 - 10) True = 0"
  by (simp add: applyAnswer_def int64_def clamp_def score_consts)

end
