(* ===== verification/Document.thy ===== *)
theory Document
  imports JsonCodec Mastery
begin

text \<open>
  The progress document of \<^verbatim>\<open>internal/modules/progress/document.go\<close> and the constants and
  values of \<^verbatim>\<open>domain.go\<close>. A document is Go's \<open>map[string]json.RawMessage\<close>: a sorted association
  list from member names to JSON values. The raw bytes a member has in a request or a row are kept
  as their parsed value; \<open>marshal\<close> renders it the way \<open>json.Marshal\<close> compacts a raw message.

  Lemmas: a parsed document is well-formed (\<open>doc_ok\<close>) and every operation keeps it so; marshalling
  and parsing are inverse up to HTML escaping and stamp schema version 2; what each operation does
  to each member.
\<close>

section \<open>Values of the domain\<close>

definition MaxDataSize :: nat where "MaxDataSize = 256 * 1024"
definition MaxLessonIDLength :: nat where "MaxLessonIDLength = 64"
definition MaxChosenLength :: nat where "MaxChosenLength = 32"

record Answer =
  Kana :: string
  ASkill :: Skill
  Correct :: bool
  Chosen :: string

record Attempt =
  atKana :: string
  atSkill :: Skill
  atCorrect :: bool
  atChosen :: string
  At :: gotime

type_synonym document = "(string \<times> json) list"

definition SupportedSchemaVersion :: int where "SupportedSchemaVersion = 2"
definition MinSupportedSchemaVersion :: int where "MinSupportedSchemaVersion = 1"
definition MaxRecentAttempts :: nat where "MaxRecentAttempts = 200"

definition fieldSchemaVersion :: string where "fieldSchemaVersion = ''schemaVersion''"
definition fieldMastery :: string where "fieldMastery = ''masteryByKana''"
definition fieldSkills :: string where "fieldSkills = ''skillsByKana''"
definition fieldLessons :: string where "fieldLessons = ''completedLessonIds''"
definition fieldAttempts :: string where "fieldAttempts = ''recentAttempts''"

lemmas field_names [code_defs] =
  fieldSchemaVersion_def fieldMastery_def fieldSkills_def fieldLessons_def fieldAttempts_def

definition protectedFields :: "string list" where
  "protectedFields = [fieldSchemaVersion, fieldMastery, fieldSkills, fieldAttempts]"

section \<open>Reading members\<close>

definition unreadable :: "string \<Rightarrow> 'a result" where
  "unreadable m = Err (Errorf m [Sentinel ErrUnreadableDocument])"

definition schemaVersion :: "document \<Rightarrow> int result" where
  "schemaVersion d =
     (case map_of d fieldSchemaVersion of
        None \<Rightarrow> Ok MinSupportedSchemaVersion
      | Some raw \<Rightarrow> (case dec_int 0 raw of
                       None \<Rightarrow> unreadable ''schemaVersion is not a number''
                     | Some version \<Rightarrow> Ok version))"

definition skills_fields :: "Skills fields" where
  "skills_fields =
     [(''recognition'', field Recognition Recognition_update dec_int),
      (''writing'', field Writing Writing_update dec_int),
      (''listening'', field Listening Listening_update dec_int),
      (''reading'', field Reading Reading_update dec_int)]"

definition dec_skills :: "json \<Rightarrow> Skills option" where
  "dec_skills j = dec_struct skills_fields zeroSkills j"

definition skills :: "document \<Rightarrow> Skills gmap result" where
  "skills d =
     (case map_of d fieldSkills of
        None \<Rightarrow> Ok (GMap [])
      | Some raw \<Rightarrow> (case dec_map dec_skills raw of
                       None \<Rightarrow> unreadable ''skillsByKana is malformed''
                     | Some m \<Rightarrow> Ok m))"

definition mastery :: "document \<Rightarrow> string gmap result" where
  "mastery d =
     (case map_of d fieldMastery of
        None \<Rightarrow> Ok (GMap [])
      | Some raw \<Rightarrow> (case dec_map (dec_string []) raw of
                       None \<Rightarrow> unreadable ''masteryByKana is malformed''
                     | Some m \<Rightarrow> Ok m))"

definition lessons :: "document \<Rightarrow> string list result" where
  "lessons d =
     (case map_of d fieldLessons of
        None \<Rightarrow> Ok []
      | Some raw \<Rightarrow> (case dec_list (dec_string []) raw of
                       None \<Rightarrow> unreadable ''completedLessonIds is malformed''
                     | Some l \<Rightarrow> Ok l))"

definition zeroAttempt :: Attempt where
  "zeroAttempt = \<lparr>atKana = [], atSkill = [], atCorrect = False, atChosen = [], At = zero_time\<rparr>"

definition attempt_fields :: "Attempt fields" where
  "attempt_fields =
     [(''kana'', field atKana atKana_update dec_string),
      (''skill'', field atSkill atSkill_update dec_string),
      (''correct'', field atCorrect atCorrect_update dec_bool),
      (''chosen'', field atChosen atChosen_update dec_string),
      (''at'', field At At_update dec_time)]"

definition dec_attempt :: "json \<Rightarrow> Attempt option" where
  "dec_attempt j = dec_struct attempt_fields zeroAttempt j"

definition attempts :: "document \<Rightarrow> Attempt list result" where
  "attempts d =
     (case map_of d fieldAttempts of
        None \<Rightarrow> Ok []
      | Some raw \<Rightarrow> (case dec_list dec_attempt raw of
                       None \<Rightarrow> unreadable ''recentAttempts is malformed''
                     | Some l \<Rightarrow> Ok l))"

section \<open>Writing members\<close>

text \<open>\<open>d.set(field, value)\<close> with the encoding of the value, or none when it cannot be encoded.\<close>

definition set_field :: "string \<Rightarrow> json option \<Rightarrow> document \<Rightarrow> document result" where
  "set_field f encoded d =
     (case encoded of
        None \<Rightarrow> Err (Errorf (''encode '' @ f) [LibError ''json''])
      | Some j \<Rightarrow> Ok (mput f j d))"

definition enc_skills :: "Skills \<Rightarrow> json" where
  "enc_skills s = JObj [(''recognition'', enc_int (Recognition s)), (''writing'', enc_int (Writing s)),
                        (''listening'', enc_int (Listening s)), (''reading'', enc_int (Reading s))]"

text \<open>\<open>omitempty\<close> leaves out the empty strings.\<close>

definition omitempty :: "string \<Rightarrow> string \<Rightarrow> (string \<times> json) list" where
  "omitempty k s = (if s = [] then [] else [(k, enc_string s)])"

definition enc_attempt :: "Attempt \<Rightarrow> json option" where
  "enc_attempt a =
     map_option (\<lambda>t. JObj (omitempty ''kana'' (atKana a) @ omitempty ''skill'' (atSkill a) @
                          [(''correct'', JBool (atCorrect a))] @ omitempty ''chosen'' (atChosen a) @
                          [(''at'', t)]))
       (enc_time (At a))"

definition enc_attempts :: "Attempt list \<Rightarrow> json option" where
  "enc_attempts as = map_option JArr (dec_all enc_attempt as)"

text \<open>The window keeps the newest \<open>MaxRecentAttempts\<close> entries.\<close>

definition newest :: "'a list \<Rightarrow> 'a list" where
  "newest as = (if length as > MaxRecentAttempts then drop (length as - MaxRecentAttempts) as else as)"

definition appendAttempt :: "Attempt \<Rightarrow> document \<Rightarrow> document result" where
  "appendAttempt a d =
     result_bind (attempts d) (\<lambda>as. set_field fieldAttempts (enc_attempts (newest (as @ [a]))) d)"

definition merge_patch :: "document \<Rightarrow> document \<Rightarrow> document result" where
  "merge_patch d patch =
     (if patch = [] then Err (Errorf ''nothing to merge'' [Sentinel ErrEmptyPatch])
      else case List.find (\<lambda>kv. fst kv \<in> set protectedFields) patch of
             Some kv \<Rightarrow> Err (Errorf (fst kv @ '' is maintained by the server'') [Sentinel ErrProtectedField])
           | None \<Rightarrow> Ok (mput_all patch d))"

fun firstOccurrences :: "string list \<Rightarrow> string list \<Rightarrow> string list" where
  "firstOccurrences seen [] = []"
| "firstOccurrences seen (v # vs) =
     (if v \<in> set seen then firstOccurrences seen vs else v # firstOccurrences (v # seen) vs)"

definition sortedUnique :: "string list \<Rightarrow> string list" where
  "sortedUnique values = sort (firstOccurrences [] values)"

section \<open>Parsing and marshalling\<close>

definition parseDocument :: "string \<Rightarrow> document result" where
  "parseDocument raw =
     (if raw = [] then Ok []
      else case Option.bind (parse_json raw) (dec_map Some) of
             None \<Rightarrow> Err (Errorf ''unreadable'' [Sentinel ErrUnreadableDocument, LibError ''json''])
           | Some NilMap \<Rightarrow> unreadable ''the document is not a JSON object''
           | Some (GMap doc) \<Rightarrow>
               result_bind (schemaVersion doc) (\<lambda>version.
                 if version < MinSupportedSchemaVersion \<or> version > SupportedSchemaVersion
                 then Err (Errorf (''got version '' @ Itoa version) [Sentinel ErrUnsupportedSchema])
                 else Ok doc))"

definition enc_document :: "document \<Rightarrow> json" where
  "enc_document d = enc_map id (GMap d)"

definition marshal :: "document \<Rightarrow> string result" where
  "marshal d =
     result_bind (set_field fieldSchemaVersion (Some (enc_int SupportedSchemaVersion)) d)
       (\<lambda>d. Ok (render (enc_document d)))"

section \<open>Well-formed documents\<close>

definition member_ok :: "json \<Rightarrow> bool" where
  "member_ok j \<longleftrightarrow> json_ok j \<and> depth j < max_depth"

definition doc_ok :: "document \<Rightarrow> bool" where
  "doc_ok d \<longleftrightarrow> gomap_ok d \<and> (\<forall>kv \<in> set d. valid_utf8 (fst kv) \<and> member_ok (snd kv))"

text \<open>The members as they are read back: the escaping of \<open>render\<close> applied.\<close>

definition norm_doc :: "document \<Rightarrow> document" where
  "norm_doc d = map (\<lambda>kv. (fst kv, norm (snd kv))) d"

lemma doc_ok_Nil [simp]: "doc_ok []"
  by (simp add: doc_ok_def)

lemma doc_ok_mput: "doc_ok d \<Longrightarrow> valid_utf8 k \<Longrightarrow> member_ok j \<Longrightarrow> doc_ok (mput k j d)"
  using set_mput [of k j d] by (fastforce simp: doc_ok_def)

lemma doc_ok_mput_all: "doc_ok p \<Longrightarrow> doc_ok d \<Longrightarrow> doc_ok (mput_all p d)"
  using set_mput_all [of p d] by (fastforce simp: doc_ok_def)

lemma doc_ok_member: "doc_ok d \<Longrightarrow> map_of d k = Some j \<Longrightarrow> member_ok j"
  by (auto simp: doc_ok_def dest!: map_of_SomeD)

lemma dec_all_member: "dec_all (dec_member Some) ms = Some (map (\<lambda>kv. (unquote (fst kv), snd kv)) ms)"
  by (induction ms) (auto simp: dec_member_def)

lemma parse_members_ok:
  assumes "parse_json raw = Some j" "dec_map Some j = Some (GMap d)"
  shows "doc_ok d"
proof -
  obtain ms where ms: "j = JObj ms" "d = mput_all (map (\<lambda>kv. (unquote (fst kv), snd kv)) ms) []"
    using assms(2) by (cases j) (auto simp: dec_all_member)
  have j: "json_ok j" "depth j \<le> max_depth" using parse_json_ok [OF assms(1)] by auto
  have "member_ok (snd kv)" if "kv \<in> set ms" for kv
  proof -
    have "depth j = Suc (fold max (map (\<lambda>kv. depth (snd kv)) ms) 0)" using ms(1) by simp
    moreover have "depth (snd kv) \<le> fold max (map (\<lambda>kv. depth (snd kv)) ms) 0"
      using that by (intro le_fold_max) force
    ultimately show ?thesis using j that ms(1) by (auto simp: member_ok_def)
  qed
  then have "\<forall>kv \<in> set (map (\<lambda>kv. (unquote (fst kv), snd kv)) ms). valid_utf8 (fst kv) \<and> member_ok (snd kv)"
    by auto
  moreover have "set d \<subseteq> set (map (\<lambda>kv. (unquote (fst kv), snd kv)) ms)"
    using set_mput_all [of "map (\<lambda>kv. (unquote (fst kv), snd kv)) ms" "[]"] ms(2) by simp
  ultimately show ?thesis unfolding doc_ok_def using ms(2) by blast
qed

lemma parseDocument_doc_ok: "parseDocument raw = Ok d \<Longrightarrow> doc_ok d"
  by (auto simp: parseDocument_def unreadable_def bind_eq_Some_conv split: if_splits option.splits gmap.splits
      dest: parse_members_ok)

lemma valid_utf8_ascii: "\<forall>c \<in> set s. byte c < 0x80 \<Longrightarrow> valid_utf8 s"
proof (induction s)
  case (Cons c s)
  have "encode_rune (byte c) = [c]" using Cons.prems by (simp add: encode_rune_def)
  moreover have "valid_rune (byte c)" using Cons.prems by (simp add: valid_rune_def)
  ultimately have "split_runes (c # s) = (byte c, [c]) # split_runes s"
    using split_runes_encode [of "byte c" s] by simp
  then show ?case using Cons \<open>encode_rune (byte c) = [c]\<close> by (simp add: valid_utf8_def)
qed (simp add: valid_utf8_def)

lemma valid_utf8_fields [simp]:
  "valid_utf8 fieldSchemaVersion" "valid_utf8 fieldMastery" "valid_utf8 fieldSkills"
  "valid_utf8 fieldLessons" "valid_utf8 fieldAttempts"
  by (rule valid_utf8_ascii; simp add: field_names)+

lemma doc_ok_set_field:
  "set_field f (Some j) d = Ok d' \<Longrightarrow> doc_ok d \<Longrightarrow> valid_utf8 f \<Longrightarrow> member_ok j \<Longrightarrow> doc_ok d'"
  by (auto simp: set_field_def doc_ok_mput)

section \<open>What is encoded is well-formed\<close>

lemma fold_max_zero: "(\<And>x. x \<in> set xs \<Longrightarrow> x \<le> n) \<Longrightarrow> fold max xs 0 \<le> (n::nat)"
  by (simp add: fold_max_le)

lemma enc_skills_ok: "json_ok (enc_skills s)" "depth (enc_skills s) \<le> 1"
  by (simp_all add: enc_skills_def enc_int_def raw_ok_def)

lemma member_okI: "json_ok j \<Longrightarrow> depth j \<le> 9 \<Longrightarrow> member_ok j"
  by (simp add: member_ok_def max_depth_def)

lemma member_ok_int [simp]: "member_ok (enc_int i)"
  by (simp add: member_okI)

lemma depth_JObj_le: "(\<And>kv. kv \<in> set ms \<Longrightarrow> depth (snd kv) \<le> n) \<Longrightarrow> depth (JObj ms) \<le> Suc n"
  by (auto intro!: fold_max_zero)

lemma depth_JArr_le: "(\<And>v. v \<in> set vs \<Longrightarrow> depth v \<le> n) \<Longrightarrow> depth (JArr vs) \<le> Suc n"
  by (auto intro!: fold_max_zero)

lemma enc_map_ok:
  assumes "\<And>v. json_ok (enc v) \<and> depth (enc v) \<le> 5"
  shows "member_ok (enc_map enc m)"
proof (cases m)
  case (GMap es)
  have "json_ok (enc_map enc m)" using assms GMap by auto
  moreover have "depth (enc_map enc m) \<le> Suc 5"
    unfolding GMap enc_map.simps by (rule depth_JObj_le) (use assms in auto)
  ultimately show ?thesis by (intro member_okI) auto
qed (simp add: member_okI)

lemma member_ok_skills [simp]: "member_ok (enc_map enc_skills m)"
  using enc_skills_ok by (intro enc_map_ok) (meson le_trans one_le_numeral)

lemma member_ok_strings [simp]: "member_ok (enc_map enc_string m)" "member_ok (enc_list enc_string vs)"
proof -
  show "member_ok (enc_map enc_string m)" by (rule enc_map_ok) simp
  have "depth (enc_list enc_string vs) \<le> Suc 0"
    unfolding enc_list_def by (rule depth_JArr_le) auto
  then show "member_ok (enc_list enc_string vs)" by (intro member_okI) (auto simp: enc_list_def)
qed

lemma enc_attempt_ok: "enc_attempt a = Some j \<Longrightarrow> json_ok j \<and> depth j \<le> 1"
proof -
  assume "enc_attempt a = Some j"
  then obtain t where t: "enc_time (At a) = Some t" and j: "j = JObj (omitempty ''kana'' (atKana a) @
      omitempty ''skill'' (atSkill a) @ [(''correct'', JBool (atCorrect a))] @ omitempty ''chosen'' (atChosen a) @ [(''at'', t)])"
    by (auto simp: enc_attempt_def)
  have raw: "raw_ok ''kana''" "raw_ok ''skill''" "raw_ok ''correct''" "raw_ok ''chosen''" "raw_ok ''at''"
    by (simp_all add: raw_ok_def)
  have "json_ok j" using json_ok_enc_time [OF t] raw by (auto simp: j omitempty_def)
  moreover have "depth j \<le> Suc 0"
    unfolding j by (rule depth_JObj_le) (use json_ok_enc_time [OF t] in \<open>auto simp: omitempty_def split: if_splits\<close>)
  ultimately show ?thesis by simp
qed

lemma dec_all_set: "dec_all f xs = Some ys \<Longrightarrow> y \<in> set ys \<Longrightarrow> \<exists>x \<in> set xs. f x = Some y"
  by (induction xs arbitrary: ys) (auto split: option.splits)

lemma member_ok_attempts: "enc_attempts as = Some j \<Longrightarrow> member_ok j"
proof -
  assume "enc_attempts as = Some j"
  then obtain vs where vs: "dec_all enc_attempt as = Some vs" "j = JArr vs"
    by (auto simp: enc_attempts_def)
  then have ok: "json_ok v \<and> depth v \<le> 1" if "v \<in> set vs" for v
    using dec_all_set [OF vs(1) that] enc_attempt_ok by blast
  have "depth j \<le> Suc 1" unfolding vs(2) by (rule depth_JArr_le) (use ok in blast)
  then show ?thesis using ok vs(2) by (intro member_okI) auto
qed

section \<open>The list of completed lessons\<close>

lemma set_firstOccurrences: "set (firstOccurrences seen vs) = set vs - set seen"
  by (induction vs arbitrary: seen) auto

lemma distinct_firstOccurrences: "distinct (firstOccurrences seen vs)"
  by (induction vs arbitrary: seen) (auto simp: set_firstOccurrences)

lemma sortedUnique_eq: "sortedUnique vs = sorted_list_of_set (set vs)"
proof -
  have "sorted_list_of_set (set (firstOccurrences [] vs)) = sort (firstOccurrences [] vs)"
    by (simp add: sorted_list_of_set_sort_remdups distinct_remdups_id distinct_firstOccurrences)
  then show ?thesis by (simp add: sortedUnique_def set_firstOccurrences)
qed

lemma set_sortedUnique [simp]: "set (sortedUnique vs) = set vs"
  by (simp add: sortedUnique_eq)

lemma length_newest: "length (newest as) = min (length as) MaxRecentAttempts"
  by (simp add: newest_def)

lemma newest_suffix: "\<exists>old. as = old @ newest as"
  unfolding newest_def by (metis append_Nil append_take_drop_id)

section \<open>Reading back what was written\<close>

lemma map_of_norm_doc: "map_of (norm_doc d) k = map_option norm (map_of d k)"
  by (induction d) (auto simp: norm_doc_def)

lemma keys_norm_doc: "map fst (norm_doc d) = map fst d"
  by (simp add: norm_doc_def comp_def)

lemma gomap_ok_norm_doc [simp]: "gomap_ok (norm_doc d) \<longleftrightarrow> gomap_ok d"
  by (simp add: gomap_ok_def keys_norm_doc)

lemma enc_document_ok:
  assumes "doc_ok d"
  shows "json_ok (enc_document d)" "depth (enc_document d) \<le> max_depth"
proof -
  show "json_ok (enc_document d)" using assms by (auto simp: enc_document_def doc_ok_def member_ok_def)
  have "depth (enc_document d) \<le> Suc (max_depth - 1)"
    unfolding enc_document_def enc_map.simps
    by (rule depth_JObj_le) (use assms in \<open>auto simp: doc_ok_def member_ok_def\<close>)
  then show "depth (enc_document d) \<le> max_depth" by (simp add: max_depth_def)
qed

lemma parse_render_document:
  assumes "doc_ok d"
  shows "Option.bind (parse_json (render (enc_document d))) (dec_map Some) = Some (GMap (norm_doc d))"
proof -
  have "parse_json (render (enc_document d)) = Some (norm (enc_document d))"
    using enc_document_ok [OF assms] by (rule parse_render)
  moreover have "dec_map Some (norm (enc_document d)) = Some (GMap (norm_doc d))"
  proof -
    have "map (\<lambda>kv. (unquote (html_esc (quote (fst kv))), norm (snd kv))) d = norm_doc d"
      using assms by (auto simp: norm_doc_def doc_ok_def)
    then show ?thesis
      using assms by (simp add: enc_document_def dec_all_member comp_def doc_ok_def)
  qed
  ultimately show ?thesis by simp
qed

lemma marshal_eq: "marshal d = Ok (render (enc_document (mput fieldSchemaVersion (enc_int 2) d)))"
  by (simp add: marshal_def set_field_def SupportedSchemaVersion_def)

lemma render_document_nonempty: "render (enc_document d) \<noteq> []"
  by (simp add: enc_document_def)

lemma parse_marshal:
  assumes "doc_ok d" "marshal d = Ok s"
  shows "parseDocument s = Ok (norm_doc (mput fieldSchemaVersion (enc_int 2) d))"
proof -
  let ?d = "mput fieldSchemaVersion (enc_int 2) d"
  have "doc_ok ?d" using assms(1) by (simp add: doc_ok_mput)
  moreover have s: "s = render (enc_document ?d)" using assms(2) by (simp add: marshal_eq)
  moreover have "schemaVersion (norm_doc ?d) = Ok 2"
    by (simp add: schemaVersion_def map_of_norm_doc)
  ultimately show ?thesis
    using render_document_nonempty [of ?d]
    by (simp add: parseDocument_def parse_render_document MinSupportedSchemaVersion_def SupportedSchemaVersion_def)
qed

text \<open>The escaping is invisible to the readers of the members.\<close>

lemma dec_skills_norm: "json_ok j \<Longrightarrow> dec_skills (norm j) = dec_skills j"
  unfolding dec_skills_def by (rule dec_struct_norm) (auto simp: skills_fields_def field_def)

lemma dec_attempt_norm: "json_ok j \<Longrightarrow> dec_attempt (norm j) = dec_attempt j"
  unfolding dec_attempt_def by (rule dec_struct_norm) (auto simp: attempt_fields_def field_def)

lemma readers_norm_doc:
  assumes "doc_ok d"
  shows "skills (norm_doc d) = skills d" "mastery (norm_doc d) = mastery d"
    "lessons (norm_doc d) = lessons d" "attempts (norm_doc d) = attempts d"
    "schemaVersion (norm_doc d) = schemaVersion d"
proof -
  have ok: "json_ok j" if "map_of d k = Some j" for j k
    using doc_ok_member [OF assms that] by (simp add: member_ok_def)
  show "skills (norm_doc d) = skills d" "mastery (norm_doc d) = mastery d"
    "lessons (norm_doc d) = lessons d" "attempts (norm_doc d) = attempts d"
    "schemaVersion (norm_doc d) = schemaVersion d"
    by (auto simp: skills_def mastery_def lessons_def attempts_def schemaVersion_def map_of_norm_doc
        dec_map_norm dec_list_norm dec_skills_norm dec_attempt_norm split: option.splits dest: ok)
qed

section \<open>Encoded members decode to the value encoded\<close>

lemma unquote_plain: "list_all plain_char s \<Longrightarrow> unquote s = s"
proof -
  have "list_all plain_char s \<Longrightarrow> unquote_runes s = map byte s"
  proof (induction s)
    case (Cons c s)
    then have "byte c < 0x80" "c \<noteq> backslash" by (auto simp: plain_char_def)
    with Cons show ?case by (simp add: Let_def)
  qed simp
  moreover have "list_all plain_char s \<Longrightarrow> of_runes (map byte s) = s"
    by (induction s) (auto simp: of_runes_def encode_rune_def plain_char_def)
  ultimately show "list_all plain_char s \<Longrightarrow> unquote s = s" by (simp add: unquote_def)
qed

lemma plain_member_names [simp]:
  "unquote ''recognition'' = ''recognition''" "unquote ''writing'' = ''writing''"
  "unquote ''listening'' = ''listening''" "unquote ''reading'' = ''reading''"
  "unquote ''kana'' = ''kana''" "unquote ''skill'' = ''skill''" "unquote ''correct'' = ''correct''"
  "unquote ''chosen'' = ''chosen''" "unquote ''at'' = ''at''"
  by (rule unquote_plain; simp add: plain_char_def)+

definition int_range :: "int \<Rightarrow> bool" where
  "int_range i \<longleftrightarrow> - (2 ^ 63) \<le> i \<and> i < 2 ^ 63"

definition skills_ok :: "Skills \<Rightarrow> bool" where
  "skills_ok s \<longleftrightarrow> int_range (Recognition s) \<and> int_range (Writing s) \<and> int_range (Listening s) \<and> int_range (Reading s)"

lemma dec_enc_skills: "skills_ok s \<Longrightarrow> dec_skills (enc_skills s) = Some s"
  by (simp add: dec_skills_def enc_skills_def skills_ok_def int_range_def find_field_def skills_fields_def
      field_def zeroSkills_def)

lemma dec_int_range: "dec_int i j = Some k \<Longrightarrow> int_range i \<Longrightarrow> int_range k"
  by (cases j) (auto simp: ParseInt_def Let_def int_range_def split: if_splits)

lemma dec_fields_invariant:
  assumes "\<And>k d r v r'. (k, d) \<in> set fs \<Longrightarrow> P r \<Longrightarrow> d r v = Some r' \<Longrightarrow> P r'"
  shows "P r \<Longrightarrow> dec_fields fs ms r = Some r' \<Longrightarrow> P r'"
proof (induction ms arbitrary: r)
  case (Cons m ms)
  have ff: "\<exists>k. (k, d) \<in> set fs" if "find_field fs key = Some d" for key d
    using that by (fastforce simp: find_field_def split: option.splits dest!: map_of_SomeD)
  show ?case
  proof (cases "find_field fs (unquote (fst m))")
    case None
    with Cons show ?thesis by simp
  next
    case (Some d)
    with Cons.prems obtain r1 where "d r (snd m) = Some r1" "dec_fields fs ms r1 = Some r'"
      by (auto split: option.splits)
    then show ?thesis using Cons ff [OF Some] assms by blast
  qed
qed simp

lemma dec_struct_invariant:
  assumes "\<And>k d r v r'. (k, d) \<in> set fs \<Longrightarrow> P r \<Longrightarrow> d r v = Some r' \<Longrightarrow> P r'" "P r"
  shows "dec_struct fs r j = Some r' \<Longrightarrow> P r'"
  using dec_fields_invariant [of fs P r _ r', OF assms(1) assms(2)] assms(2) by (cases j) auto

lemma dec_skills_ok: "dec_skills j = Some s \<Longrightarrow> skills_ok s"
  unfolding dec_skills_def
  by (erule dec_struct_invariant [rotated -1])
    (auto simp: skills_fields_def field_def skills_ok_def zeroSkills_def int_range_def [of 0]; erule (1) dec_int_range)+

lemma dec_map_ok:
  assumes "dec_map dec j = Some (GMap m)"
  shows "gomap_ok m \<and> (\<forall>kv \<in> set m. valid_utf8 (fst kv) \<and> (\<exists>v. dec v = Some (snd kv)))"
proof -
  obtain ms es where ms: "j = JObj ms" "dec_all (dec_member dec) ms = Some es" "m = mput_all es []"
    using assms by (cases j) auto
  have "valid_utf8 (fst kv) \<and> (\<exists>v. dec v = Some (snd kv))" if "kv \<in> set es" for kv
    using dec_all_set [OF ms(2) that] by (auto simp: dec_member_def)
  then show ?thesis using ms(3) set_mput_all [of es "[]"] by auto
qed

lemma skills_ok_entries:
  "skills d = Ok (GMap m) \<Longrightarrow> gomap_ok m \<and> (\<forall>kv \<in> set m. valid_utf8 (fst kv) \<and> skills_ok (snd kv))"
  by (fastforce simp: skills_def unreadable_def split: option.splits dest: dec_map_ok dec_skills_ok)

lemma dec_string_utf8: "valid_utf8 s \<Longrightarrow> dec_string s j = Some t \<Longrightarrow> valid_utf8 t"
  by (cases j) auto

lemma valid_utf8_Nil [simp]: "valid_utf8 []"
  by (simp add: valid_utf8_def)

lemma mastery_ok_entries:
  "mastery d = Ok (GMap m) \<Longrightarrow> gomap_ok m \<and> (\<forall>kv \<in> set m. valid_utf8 (fst kv) \<and> valid_utf8 (snd kv))"
  by (fastforce simp: mastery_def unreadable_def split: option.splits dest: dec_map_ok
      intro: dec_string_utf8 [OF valid_utf8_Nil])

lemma lessons_utf8: "lessons d = Ok ls \<Longrightarrow> \<forall>l \<in> set ls. valid_utf8 l"
proof -
  assume ls: "lessons d = Ok ls"
  have "\<forall>l \<in> set vs. valid_utf8 l" if "dec_list (dec_string []) j = Some vs" for j vs
    using that by (cases j) (auto dest!: dec_all_set intro: dec_string_utf8 [OF valid_utf8_Nil])
  then show ?thesis using ls by (auto simp: lessons_def unreadable_def split: option.splits)
qed

text \<open>Reading a member that was just written.\<close>

lemma skills_mput:
  assumes "gomap_ok m" "\<forall>kv \<in> set m. valid_utf8 (fst kv) \<and> skills_ok (snd kv)"
  shows "skills (mput fieldSkills (enc_map enc_skills (GMap m)) d) = Ok (GMap m)"
  using dec_enc_map [of m dec_skills enc_skills] assms by (auto simp: skills_def dec_enc_skills)

lemma mastery_mput:
  assumes "gomap_ok m" "\<forall>kv \<in> set m. valid_utf8 (fst kv) \<and> valid_utf8 (snd kv)"
  shows "mastery (mput fieldMastery (enc_map enc_string (GMap m)) d) = Ok (GMap m)"
  using dec_enc_map [of m "dec_string []" enc_string] assms by (auto simp: mastery_def)

lemma lessons_mput:
  assumes "\<forall>l \<in> set ls. valid_utf8 l"
  shows "lessons (mput fieldLessons (enc_list enc_string ls) d) = Ok ls"
  using dec_enc_list [of ls "dec_string []" enc_string] assms by (auto simp: lessons_def)

lemma field_names_distinct [simp]:
  "fieldSkills \<noteq> fieldMastery" "fieldSkills \<noteq> fieldAttempts" "fieldSkills \<noteq> fieldLessons" "fieldSkills \<noteq> fieldSchemaVersion"
  "fieldMastery \<noteq> fieldSkills" "fieldMastery \<noteq> fieldAttempts" "fieldMastery \<noteq> fieldLessons" "fieldMastery \<noteq> fieldSchemaVersion"
  "fieldAttempts \<noteq> fieldSkills" "fieldAttempts \<noteq> fieldMastery" "fieldAttempts \<noteq> fieldLessons" "fieldAttempts \<noteq> fieldSchemaVersion"
  "fieldLessons \<noteq> fieldSkills" "fieldLessons \<noteq> fieldMastery" "fieldLessons \<noteq> fieldAttempts" "fieldLessons \<noteq> fieldSchemaVersion"
  "fieldSchemaVersion \<noteq> fieldSkills" "fieldSchemaVersion \<noteq> fieldMastery" "fieldSchemaVersion \<noteq> fieldAttempts" "fieldSchemaVersion \<noteq> fieldLessons"
  by (simp_all add: field_names)

lemma readers_mput_other [simp]:
  "k \<noteq> fieldSkills \<Longrightarrow> skills (mput k j d) = skills d"
  "k \<noteq> fieldMastery \<Longrightarrow> mastery (mput k j d) = mastery d"
  "k \<noteq> fieldLessons \<Longrightarrow> lessons (mput k j d) = lessons d"
  "k \<noteq> fieldAttempts \<Longrightarrow> attempts (mput k j d) = attempts d"
  by (simp_all add: skills_def mastery_def lessons_def attempts_def)

section \<open>The attempt window reads back\<close>

definition attempt_ok :: "Attempt \<Rightarrow> bool" where
  "attempt_ok a \<longleftrightarrow> valid_utf8 (atKana a) \<and> valid_utf8 (atSkill a) \<and> valid_utf8 (atChosen a) \<and> 60 dvd Offset (At a)"

lemma parse_RFC3339_offset: "parse_RFC3339 s = Some t \<Longrightarrow> 60 dvd Offset t"
proof -
  have off: "take_offset s = Some x \<Longrightarrow> 60 dvd fst x" for s x
    by (auto simp: take_offset_def bind_eq_Some_conv split: if_splits)
  show "parse_RFC3339 s = Some t \<Longrightarrow> 60 dvd Offset t"
    unfolding parse_RFC3339_def
    by (auto simp: bind_eq_Some_conv case_prod_beta split: if_splits dest!: off)
qed

lemma dec_attempt_ok: "dec_attempt j = Some a \<Longrightarrow> attempt_ok a"
proof -
  have time: "dec_time t v = Some t' \<Longrightarrow> 60 dvd Offset t \<Longrightarrow> 60 dvd Offset t'" for t v t'
    by (cases v) (auto dest: parse_RFC3339_offset)
  show "dec_attempt j = Some a \<Longrightarrow> attempt_ok a"
    unfolding dec_attempt_def
    by (erule dec_struct_invariant [rotated -1])
      (auto simp: attempt_fields_def field_def attempt_ok_def zeroAttempt_def zero_time_def;
        (erule (1) time | erule dec_string_utf8 [rotated], assumption))+
qed

lemma attempts_ok: "attempts d = Ok as \<Longrightarrow> \<forall>a \<in> set as. attempt_ok a"
proof -
  assume as: "attempts d = Ok as"
  have "\<forall>a \<in> set vs. attempt_ok a" if "dec_list dec_attempt j = Some vs" for j vs
    using that by (cases j) (auto dest!: dec_all_set intro: dec_attempt_ok)
  then show ?thesis using as by (auto simp: attempts_def unreadable_def split: option.splits)
qed

lemma dec_enc_attempt:
  assumes "attempt_ok a" "enc_attempt a = Some j"
  shows "dec_attempt j = Some a"
proof -
  obtain s where s: "format_RFC3339 (At a) = Some s"
    and j: "j = JObj (omitempty ''kana'' (atKana a) @ omitempty ''skill'' (atSkill a) @
      [(''correct'', JBool (atCorrect a))] @ omitempty ''chosen'' (atChosen a) @ [(''at'', JStr s)])"
    using assms(2) by (auto simp: enc_attempt_def enc_time_def)
  have "dec_time cur (JStr s) = Some (At a)" for cur
    using parse_format_RFC3339 [OF s] assms(1) by (simp add: attempt_ok_def)
  then show ?thesis
    using assms(1)
    by (simp add: j dec_attempt_def find_field_def attempt_fields_def field_def omitempty_def attempt_ok_def zeroAttempt_def)
qed

lemma dec_all_map_option:
  assumes "dec_all f xs = Some ys" "\<And>x y. x \<in> set xs \<Longrightarrow> f x = Some y \<Longrightarrow> g y = Some x"
  shows "dec_all g ys = Some xs"
  using assms
proof (induction xs arbitrary: ys)
  case (Cons x xs)
  then obtain y zs where y: "f x = Some y" "dec_all f xs = Some zs" "ys = y # zs"
    by (auto split: option.splits)
  then have "g y = Some x" "dec_all g zs = Some xs" using Cons by simp_all
  then show ?case using y(3) by simp
qed simp

lemma attempts_mput:
  assumes "enc_attempts as = Some j" "\<forall>a \<in> set as. attempt_ok a"
  shows "attempts (mput fieldAttempts j d) = Ok as"
proof -
  obtain vs where vs: "dec_all enc_attempt as = Some vs" "j = JArr vs"
    using assms(1) by (auto simp: enc_attempts_def)
  have "dec_all dec_attempt vs = Some as"
    using dec_all_map_option [OF vs(1)] dec_enc_attempt assms(2) by blast
  then show ?thesis by (simp add: attempts_def vs(2))
qed

end
