(* ===== verification/ProgressService.thy ===== *)
theory ProgressService
  imports Document ProgressRepository
begin

text \<open>
  The use cases of \<^verbatim>\<open>internal/modules/progress/service.go\<close> over its ports: a \<open>Repository\<close>, an
  optional \<open>ActivityRecorder\<close> and a clock. The function handed to \<open>Mutate\<close> parses the stored
  document, applies the change, marshals it and checks it again, in that order. Logging is left out.

  The locale \<open>progress_service\<close> states what the service needs of its ports; its lemmas say what each
  use case leaves in the store when it returns, fails or panics.
\<close>

section \<open>The service\<close>

record 'w Service =
  repo :: "'w Repository"
  activity :: "(int \<Rightarrow> ('w, unit) proc) option"
  clock :: "('w, gotime) proc"

definition isKnown :: "goerr \<Rightarrow> bool" where
  "isKnown err \<longleftrightarrow>
     errors_Is err ErrProgressNotFound \<or> errors_Is err ErrUnknownOwner \<or>
     errors_Is err ErrProtectedField \<or> errors_Is err ErrEmptyPatch \<or>
     errors_Is err ErrUnreadablePatch \<or> errors_Is err ErrUnreadableDocument \<or>
     errors_Is err ErrUnsupportedSchema \<or> errors_Is err ErrInvalidAnswer \<or>
     errors_Is err ErrInvalidLesson \<or> errors_As is_AppError err \<noteq> None"

text \<open>Known errors travel untouched, the others are wrapped.\<close>

definition known_or :: "string \<Rightarrow> goerr \<Rightarrow> goerr" where
  "known_or m err = (if isKnown err then err else Errorf m [err])"

definition validateData :: "string \<Rightarrow> unit result" where
  "validateData data =
     (if length data = 0 then Err (Validation ''invalid_progress_data'' ''data is required'')
      else if length data > MaxDataSize
      then Err (Validation ''invalid_progress_data'' ''data must be at most 262144 bytes'')
      else if \<not> json_Valid data
      then Err (Validation ''invalid_progress_data'' ''data must be a valid JSON document'')
      else Ok ())"

definition validateAnswer :: "Answer \<Rightarrow> unit result" where
  "validateAnswer answer =
     (if \<not> Skill_Valid (ASkill answer)
      then Err (Errorf ''not a skill this server scores'' [Sentinel ErrInvalidAnswer])
      else if \<not> validKana (Kana answer) then Err (Errorf ''not a kana'' [Sentinel ErrInvalidAnswer])
      else if length (Chosen answer) > MaxChosenLength
      then Err (Errorf ''the chosen option is longer than 32 bytes'' [Sentinel ErrInvalidAnswer])
      else Ok ())"

definition lesson_rune :: "nat \<Rightarrow> bool" where
  "lesson_rune r \<longleftrightarrow> r = 0x2D \<or> r = 0x5F \<or> r = 0x2E \<or> (0x30 \<le> r \<and> r \<le> 0x39) \<or>
     (0x61 \<le> r \<and> r \<le> 0x7A) \<or> (0x41 \<le> r \<and> r \<le> 0x5A)"

definition validateLessonID :: "string \<Rightarrow> unit result" where
  "validateLessonID lessonID =
     (if lessonID = [] then Err (Errorf ''it is empty'' [Sentinel ErrInvalidLesson])
      else if length lessonID > MaxLessonIDLength
      then Err (Errorf ''longer than 64 characters'' [Sentinel ErrInvalidLesson])
      else if \<exists>r \<in> set (to_runes lessonID). \<not> lesson_rune r
      then Err (Errorf ''unsupported characters'' [Sentinel ErrInvalidLesson])
      else Ok ())"

definition parsePatch :: "string \<Rightarrow> document result" where
  "parsePatch patch =
     (if length patch = 0 then Err (Errorf ''the request body is empty'' [Sentinel ErrEmptyPatch])
      else if length patch > MaxDataSize
      then Err (Validation ''invalid_progress_data'' ''the patch must be at most 262144 bytes'')
      else case Option.bind (parse_json patch) (dec_map Some) of
             None \<Rightarrow> Err (Errorf ''patch'' [Sentinel ErrUnreadablePatch, LibError ''json''])
           | Some NilMap \<Rightarrow> Err (Errorf ''the patch is not a JSON object'' [Sentinel ErrUnreadablePatch])
           | Some (GMap changes) \<Rightarrow>
               (if changes = [] then Err (Errorf ''no members to merge'' [Sentinel ErrEmptyPatch])
                else Ok changes))"

text \<open>The function \<open>mutate\<close> hands to the repository, and \<open>mutate\<close> itself.\<close>

definition mutation :: "(document \<Rightarrow> ('w, document) proc) \<Rightarrow> string \<Rightarrow> ('w, string) proc" where
  "mutation apply_change current =
     andThen (lift (parseDocument current)) (\<lambda>doc.
     andThen (apply_change doc) (\<lambda>doc.
     andThen (lift (marshal doc)) (\<lambda>encoded.
     andThen (lift (validateData encoded)) (\<lambda>_.
       ret encoded))))"

definition mutate :: "'w Service \<Rightarrow> ID \<Rightarrow> (document \<Rightarrow> ('w, document) proc) \<Rightarrow> ('w, Progress) proc" where
  "mutate s uid apply_change =
     onErr (known_or ''mutate progress'') (Mutate (repo s) uid (mutation apply_change))"

text \<open>Best effort: the outcome of the recorder is dropped.\<close>

definition recordActivity :: "'w Service \<Rightarrow> ID \<Rightarrow> ('w, unit) proc" where
  "recordActivity s userID =
     (case activity s of
        None \<Rightarrow> ret ()
      | Some rec \<Rightarrow> handling (rec userID) (\<lambda>_. ret ()))"

section \<open>The use cases\<close>

definition Get :: "'w Service \<Rightarrow> int \<Rightarrow> ('w, Progress) proc" where
  "Get s userID =
     andThen (lift (NewID userID)) (\<lambda>id.
       onErr (known_or ''get progress'') (FindByUserID (repo s) id))"

definition Save :: "'w Service \<Rightarrow> int \<Rightarrow> string \<Rightarrow> ('w, Progress) proc" where
  "Save s userID data =
     andThen (lift (NewID userID)) (\<lambda>id.
     andThen (lift (validateData data)) (\<lambda>_.
     andThen (onErr (known_or ''save progress'') (Upsert (repo s) id data)) (\<lambda>saved.
     andThen (recordActivity s id) (\<lambda>_.
       ret saved))))"

text \<open>What an answer does to the scores and the mastery of its kana.\<close>

definition gradeScores :: "Answer \<Rightarrow> document \<Rightarrow> document result" where
  "gradeScores answer doc =
     result_bind (skills doc) (\<lambda>sk.
     result_bind (mastery doc) (\<lambda>ms.
       let current = gmap_get zeroSkills sk (Kana answer);
           current = setScore (ASkill answer) (applyAnswer (score current (ASkill answer)) (Correct answer)) current
       in result_bind (gmap_put (Kana answer) current sk) (\<lambda>sk.
          result_bind (gmap_put (Kana answer) (masteryFor current) ms) (\<lambda>ms.
          result_bind (set_field fieldSkills (Some (enc_map enc_skills sk)) doc) (\<lambda>doc.
            set_field fieldMastery (Some (enc_map enc_string ms)) doc)))))"

definition attempt_of :: "Answer \<Rightarrow> gotime \<Rightarrow> Attempt" where
  "attempt_of answer at =
     \<lparr>atKana = Kana answer, atSkill = ASkill answer, atCorrect = Correct answer,
      atChosen = Chosen answer, At = UTC at\<rparr>"

definition gradeAnswer :: "('w, gotime) proc \<Rightarrow> Answer \<Rightarrow> document \<Rightarrow> ('w, document) proc" where
  "gradeAnswer read_now answer doc =
     andThen (lift (gradeScores answer doc)) (\<lambda>doc.
     andThen read_now (\<lambda>at.
       lift (appendAttempt (attempt_of answer at) doc)))"

definition RecordAnswer :: "'w Service \<Rightarrow> int \<Rightarrow> Answer \<Rightarrow> ('w, Progress) proc" where
  "RecordAnswer s userID answer =
     andThen (lift (NewID userID)) (\<lambda>id.
     andThen (lift (validateAnswer answer)) (\<lambda>_.
     andThen (mutate s id (gradeAnswer (clock s) answer)) (\<lambda>saved.
     andThen (recordActivity s id) (\<lambda>_.
       ret saved))))"

definition addLesson :: "string \<Rightarrow> document \<Rightarrow> document result" where
  "addLesson lessonID doc =
     result_bind (lessons doc) (\<lambda>ls.
       set_field fieldLessons (Some (enc_list enc_string (sortedUnique (ls @ [lessonID])))) doc)"

definition CompleteLesson :: "'w Service \<Rightarrow> int \<Rightarrow> string \<Rightarrow> ('w, Progress) proc" where
  "CompleteLesson s userID lessonID =
     andThen (lift (NewID userID)) (\<lambda>id.
     let lessonID = TrimSpace lessonID in
     andThen (lift (validateLessonID lessonID)) (\<lambda>_.
     andThen (mutate s id (\<lambda>doc. lift (addLesson lessonID doc))) (\<lambda>saved.
     andThen (recordActivity s id) (\<lambda>_.
       ret saved))))"

definition Merge :: "'w Service \<Rightarrow> int \<Rightarrow> string \<Rightarrow> ('w, Progress) proc" where
  "Merge s userID patch =
     andThen (lift (NewID userID)) (\<lambda>id.
     andThen (lift (parsePatch patch)) (\<lambda>changes.
       mutate s id (\<lambda>doc. lift (merge_patch doc changes))))"

definition sortedKeys :: "document \<Rightarrow> string list" where
  "sortedKeys changes = sort (map fst changes)"

section \<open>The change functions\<close>

lemma validateData_Ok [simp]:
  "validateData d = Ok () \<longleftrightarrow> d \<noteq> [] \<and> length d \<le> MaxDataSize \<and> json_Valid d"
  by (auto simp: validateData_def)

lemma validateData_not_Panic: "validateData d \<noteq> Panic m"
  by (simp add: validateData_def)

lemma fst_andThen_Ok: "fst (andThen m k w) = Ok y \<longleftrightarrow> (\<exists>x. fst (m w) = Ok x \<and> fst (k x (snd (m w))) = Ok y)"
  by (auto simp: andThen_def split: prod.splits result.splits)

lemma mutation_Ok:
  "fst (mutation f c w) = Ok enc \<longleftrightarrow>
     (\<exists>doc doc'. parseDocument c = Ok doc \<and> fst (f doc w) = Ok doc' \<and> marshal doc' = Ok enc \<and>
        validateData enc = Ok ())"
  by (auto simp: mutation_def fst_andThen_Ok)

lemma keeps_mutation: "(\<And>doc. keeps I (f doc)) \<Longrightarrow> keeps I (mutation f c)"
  unfolding mutation_def by (intro keeps_intros)

lemma keeps_gradeAnswer: "keeps I rn \<Longrightarrow> keeps I (gradeAnswer rn a doc)"
  unfolding gradeAnswer_def by (intro keeps_intros)

lemma gradeAnswer_Ok:
  "fst (gradeAnswer rn a doc w) = Ok doc' \<longleftrightarrow>
     (\<exists>d t. gradeScores a doc = Ok d \<and> fst (rn w) = Ok t \<and> appendAttempt (attempt_of a t) d = Ok doc')"
  by (auto simp: gradeAnswer_def fst_andThen_Ok)

section \<open>The documents the changes produce\<close>

definition graded :: "Answer \<Rightarrow> (string \<times> Skills) list \<Rightarrow> Skills" where
  "graded a sk = gradeSkills (ASkill a) (Correct a) (gmap_get zeroSkills (GMap sk) (Kana a))"

lemma skills_ok_graded:
  assumes "\<forall>kv \<in> set sk. skills_ok (snd kv)"
  shows "skills_ok (graded a sk)"
proof -
  have z: "skills_ok zeroSkills" by (simp add: skills_ok_def zeroSkills_def int_range_def)
  have "skills_ok (gmap_get zeroSkills (GMap sk) (Kana a))"
    using assms z by (auto simp: gmap_get_def split: option.splits dest!: map_of_SomeD)
  moreover have "int_range (applyAnswer c ok)" for c ok
    using applyAnswer_range [of c ok] by (simp add: int_range_def)
  ultimately show ?thesis by (simp add: graded_def gradeSkills_def setScore_def skills_ok_def)
qed

lemma gradeScores_Ok:
  assumes "gradeScores a doc = Ok d"
  obtains sk ms where "skills doc = Ok (GMap sk)" "mastery doc = Ok (GMap ms)"
    "d = mput fieldMastery (enc_map enc_string (GMap (mput (Kana a) (masteryFor (graded a sk)) ms)))
          (mput fieldSkills (enc_map enc_skills (GMap (mput (Kana a) (graded a sk) sk))) doc)"
  using assms
  by (auto simp: gradeScores_def Let_def graded_def gradeSkills_def set_field_def simp del: enc_map.simps)

lemma gradeScores_effect:
  assumes "gradeScores a doc = Ok d" "validKana (Kana a)"
  obtains sk ms where "skills doc = Ok (GMap sk)" "mastery doc = Ok (GMap ms)"
    "skills d = Ok (GMap (mput (Kana a) (graded a sk) sk))"
    "mastery d = Ok (GMap (mput (Kana a) (masteryFor (graded a sk)) ms))"
    "\<And>k. k \<notin> {fieldSkills, fieldMastery} \<Longrightarrow> map_of d k = map_of doc k"
    "doc_ok doc \<Longrightarrow> doc_ok d"
  using assms(1)
proof (cases rule: gradeScores_Ok)
  case (1 sk ms)
  note sk = skills_ok_entries [OF 1(1)] and ms = mastery_ok_entries [OF 1(2)]
  have kana: "valid_utf8 (Kana a)" by (rule validKana_utf8 [OF assms(2)])
  have names: "valid_utf8 (masteryFor s)" for s
    by (rule valid_utf8_ascii) (simp add: masteryFor_def mastery_names)
  let ?sk = "mput (Kana a) (graded a sk) sk" and ?ms = "mput (Kana a) (masteryFor (graded a sk)) ms"
  have "\<forall>kv \<in> set ?sk. valid_utf8 (fst kv) \<and> skills_ok (snd kv)"
    using sk kana skills_ok_graded [of sk a] set_mput [of "Kana a" "graded a sk" sk] by fastforce
  then have "skills d = Ok (GMap ?sk)" unfolding 1(3) using sk by (simp add: skills_mput del: enc_map.simps)
  moreover have "\<forall>kv \<in> set ?ms. valid_utf8 (fst kv) \<and> valid_utf8 (snd kv)"
    using ms kana names set_mput [of "Kana a" "masteryFor (graded a sk)" ms] by fastforce
  then have "mastery d = Ok (GMap ?ms)" unfolding 1(3) using ms by (simp add: mastery_mput del: enc_map.simps)
  moreover have "map_of d k = map_of doc k" if "k \<notin> {fieldSkills, fieldMastery}" for k
    using that unfolding 1(3) by simp
  moreover have "doc_ok d" if "doc_ok doc"
    unfolding 1(3) by (intro doc_ok_mput that) (simp_all del: enc_map.simps)
  ultimately show thesis using that 1 by blast
qed

lemma appendAttempt_effect:
  assumes "appendAttempt a doc = Ok d" "attempt_ok a"
  obtains as where "attempts doc = Ok as" "attempts d = Ok (newest (as @ [a]))"
    "\<And>k. k \<noteq> fieldAttempts \<Longrightarrow> map_of d k = map_of doc k" "doc_ok doc \<Longrightarrow> doc_ok d"
proof -
  obtain as j where as: "attempts doc = Ok as" and j: "enc_attempts (newest (as @ [a])) = Some j"
    and d: "d = mput fieldAttempts j doc"
    using assms(1) by (auto simp: appendAttempt_def set_field_def split: option.splits)
  have "\<forall>x \<in> set (newest (as @ [a])). attempt_ok x"
    using attempts_ok [OF as] assms(2) newest_suffix [of "as @ [a]"]
    by (metis Un_iff empty_iff empty_set list.set_intros(1) set_ConsD set_append)
  then have "attempts d = Ok (newest (as @ [a]))" unfolding d using attempts_mput [OF j] by blast
  moreover have "doc_ok d" if "doc_ok doc" unfolding d by (intro doc_ok_mput that member_ok_attempts [OF j]) simp
  moreover have "map_of d k = map_of doc k" if "k \<noteq> fieldAttempts" for k using that unfolding d by simp
  ultimately show thesis using that as by blast
qed

lemma addLesson_effect:
  assumes "addLesson l doc = Ok d" "valid_utf8 l"
  obtains ls where "lessons doc = Ok ls" "lessons d = Ok (sorted_list_of_set (insert l (set ls)))"
    "\<And>k. k \<noteq> fieldLessons \<Longrightarrow> map_of d k = map_of doc k" "doc_ok doc \<Longrightarrow> doc_ok d"
proof -
  obtain ls where ls: "lessons doc = Ok ls"
    and d: "d = mput fieldLessons (enc_list enc_string (sortedUnique (ls @ [l]))) doc"
    using assms(1) by (auto simp: addLesson_def set_field_def)
  have "\<forall>x \<in> set (sortedUnique (ls @ [l])). valid_utf8 x" using lessons_utf8 [OF ls] assms(2) by simp
  then have "lessons d = Ok (sortedUnique (ls @ [l]))" unfolding d by (rule lessons_mput)
  moreover have "sortedUnique (ls @ [l]) = sorted_list_of_set (insert l (set ls))"
    by (simp add: sortedUnique_eq)
  moreover have "doc_ok d" if "doc_ok doc" unfolding d by (intro doc_ok_mput that) simp_all
  moreover have "map_of d k = map_of doc k" if "k \<noteq> fieldLessons" for k using that unfolding d by simp
  ultimately show thesis using that ls by simp
qed

lemma merge_patch_effect:
  assumes "merge_patch doc p = Ok d" "gomap_ok p"
  shows "map_of d k = (case map_of p k of Some v \<Rightarrow> Some v | None \<Rightarrow> map_of doc k)"
    "doc_ok doc \<Longrightarrow> doc_ok p \<Longrightarrow> doc_ok d" "p \<noteq> []" "\<forall>k \<in> set protectedFields. map_of p k = None"
proof -
  have d: "d = mput_all p doc" "p \<noteq> []" and prot: "List.find (\<lambda>kv. fst kv \<in> set protectedFields) p = None"
    using assms(1) by (auto simp: merge_patch_def split: if_splits option.splits)
  have "map_of (rev p) = map_of p"
    using gomap_ok_distinct [OF assms(2)] by (subst map_of_inject_set) (simp_all flip: rev_map)
  then show "map_of d k = (case map_of p k of Some v \<Rightarrow> Some v | None \<Rightarrow> map_of doc k)"
    unfolding d(1) by (simp add: map_of_mput_all map_add_def)
  show "doc_ok doc \<Longrightarrow> doc_ok p \<Longrightarrow> doc_ok d" unfolding d(1) by (rule doc_ok_mput_all)
  show "p \<noteq> []" by (rule d(2))
  show "\<forall>k \<in> set protectedFields. map_of p k = None"
    using prot by (auto simp: find_None_iff map_of_eq_None_iff)
qed

text \<open>What a change leaves in the store is read back member by member.\<close>

lemma stored_readers:
  assumes "parseDocument c = Ok doc" "doc_ok doc'" "marshal doc' = Ok s"
  obtains doc2 where "parseDocument s = Ok doc2" "skills doc2 = skills doc'" "mastery doc2 = mastery doc'"
    "lessons doc2 = lessons doc'" "attempts doc2 = attempts doc'" "schemaVersion doc2 = Ok 2"
    "\<And>k. k \<noteq> fieldSchemaVersion \<Longrightarrow> map_of doc2 k = map_option norm (map_of doc' k)"
proof -
  let ?d = "mput fieldSchemaVersion (enc_int 2) doc'"
  have ok: "doc_ok ?d" using assms(2) by (simp add: doc_ok_mput)
  note readers_norm_doc [OF ok]
  moreover have "schemaVersion ?d = Ok 2" by (simp add: schemaVersion_def)
  ultimately show thesis
    using that [of "norm_doc ?d"] parse_marshal [OF assms(2,3)] by (simp add: map_of_norm_doc)
qed

text \<open>What a successful answer stores.\<close>

definition answer_recorded :: "Answer \<Rightarrow> gotime \<Rightarrow> document \<Rightarrow> document \<Rightarrow> bool" where
  "answer_recorded a t doc new \<longleftrightarrow>
     (\<exists>sk ms as. skills doc = Ok (GMap sk) \<and> mastery doc = Ok (GMap ms) \<and> attempts doc = Ok as \<and>
        skills new = Ok (GMap (mput (Kana a) (graded a sk) sk)) \<and>
        mastery new = Ok (GMap (mput (Kana a) (masteryFor (graded a sk)) ms)) \<and>
        attempts new = Ok (newest (as @ [attempt_of a t]))) \<and>
     lessons new = lessons doc \<and> schemaVersion new = Ok 2 \<and>
     (\<forall>k. k \<notin> set protectedFields \<longrightarrow> map_of new k = map_option norm (map_of doc k))"

lemma gradeAnswer_stores:
  assumes "parseDocument c = Ok doc" "fst (gradeAnswer rn a doc v) = Ok doc'" "marshal doc' = Ok s"
    and "validateAnswer a = Ok ()" "valid_utf8 (Chosen a)"
  shows "\<exists>new t. parseDocument s = Ok new \<and> answer_recorded a t doc new"
proof -
  have kana: "validKana (Kana a)" and skill: "Skill_Valid (ASkill a)"
    using assms(4) by (auto simp: validateAnswer_def split: if_splits)
  obtain d t where d: "gradeScores a doc = Ok d" "appendAttempt (attempt_of a t) d = Ok doc'"
    using assms(2) by (auto simp: gradeAnswer_Ok)
  have ok: "doc_ok doc" by (rule parseDocument_doc_ok [OF assms(1)])
  have "valid_utf8 (ASkill a)"
    using skill by (intro valid_utf8_ascii) (auto simp: Skill_Valid_def skill_names)
  then have at: "attempt_ok (attempt_of a t)"
    using validKana_utf8 [OF kana] assms(5) by (simp add: attempt_ok_def attempt_of_def UTC_def)
  obtain sk ms where s: "skills doc = Ok (GMap sk)" "mastery doc = Ok (GMap ms)"
      "skills d = Ok (GMap (mput (Kana a) (graded a sk) sk))"
      "mastery d = Ok (GMap (mput (Kana a) (masteryFor (graded a sk)) ms))"
      "\<And>k. k \<notin> {fieldSkills, fieldMastery} \<Longrightarrow> map_of d k = map_of doc k" "doc_ok d"
    using gradeScores_effect [OF d(1) kana] ok by metis
  obtain as where as: "attempts d = Ok as" "attempts doc' = Ok (newest (as @ [attempt_of a t]))"
      "\<And>k. k \<noteq> fieldAttempts \<Longrightarrow> map_of doc' k = map_of d k" "doc_ok doc'"
    using appendAttempt_effect [OF d(2) at] s(6) by metis
  obtain new where new: "parseDocument s = Ok new" "skills new = skills doc'" "mastery new = mastery doc'"
      "lessons new = lessons doc'" "attempts new = attempts doc'" "schemaVersion new = Ok 2"
      "\<And>k. k \<noteq> fieldSchemaVersion \<Longrightarrow> map_of new k = map_option norm (map_of doc' k)"
    using stored_readers [OF assms(1) as(4) assms(3)] by metis
  have "attempts doc = Ok as" using as(1) s(5) [of fieldAttempts] by (simp add: attempts_def)
  moreover have "skills doc' = skills d" "mastery doc' = mastery d" "lessons doc' = lessons doc"
    using as(3) s(5) [of fieldLessons] by (simp_all add: skills_def mastery_def lessons_def)
  ultimately have "answer_recorded a t doc new"
    using s as new by (simp add: answer_recorded_def protectedFields_def)
  with new(1) show ?thesis by blast
qed

lemma addLesson_stores:
  assumes "parseDocument c = Ok doc" "addLesson l doc = Ok doc'" "marshal doc' = Ok s" "valid_utf8 l"
  shows "\<exists>new ls. parseDocument s = Ok new \<and> lessons doc = Ok ls \<and>
    lessons new = Ok (sorted_list_of_set (insert l (set ls))) \<and> schemaVersion new = Ok 2 \<and>
    skills new = skills doc \<and> mastery new = mastery doc \<and> attempts new = attempts doc \<and>
    (\<forall>k. k \<notin> {fieldSchemaVersion, fieldLessons} \<longrightarrow> map_of new k = map_option norm (map_of doc k))"
proof -
  have ok: "doc_ok doc" by (rule parseDocument_doc_ok [OF assms(1)])
  obtain ls where ls: "lessons doc = Ok ls" "lessons doc' = Ok (sorted_list_of_set (insert l (set ls)))"
      "\<And>k. k \<noteq> fieldLessons \<Longrightarrow> map_of doc' k = map_of doc k" "doc_ok doc'"
    using addLesson_effect [OF assms(2,4)] ok by metis
  obtain new where new: "parseDocument s = Ok new" "skills new = skills doc'" "mastery new = mastery doc'"
      "lessons new = lessons doc'" "attempts new = attempts doc'" "schemaVersion new = Ok 2"
      "\<And>k. k \<noteq> fieldSchemaVersion \<Longrightarrow> map_of new k = map_option norm (map_of doc' k)"
    using stored_readers [OF assms(1) ls(4) assms(3)] by metis
  have "skills doc' = skills doc" "mastery doc' = mastery doc" "attempts doc' = attempts doc"
    using ls(3) by (simp_all add: skills_def mastery_def attempts_def)
  with ls new show ?thesis by auto
qed

lemma merge_stores:
  assumes "parseDocument c = Ok doc" "merge_patch doc p = Ok doc'" "marshal doc' = Ok s" "doc_ok p"
  shows "\<exists>new. parseDocument s = Ok new \<and> schemaVersion new = Ok 2 \<and>
    (\<forall>k. k \<noteq> fieldSchemaVersion \<longrightarrow> map_of new k =
       map_option norm (case map_of p k of Some v \<Rightarrow> Some v | None \<Rightarrow> map_of doc k))"
proof -
  have ok: "doc_ok doc" by (rule parseDocument_doc_ok [OF assms(1)])
  have "gomap_ok p" using assms(4) by (simp add: doc_ok_def)
  note m = merge_patch_effect [OF assms(2) this]
  have "doc_ok doc'" using m(2) ok assms(4) by blast
  from stored_readers [OF assms(1) this assms(3)] m(1) show ?thesis by metis
qed

lemma parsePatch_doc_ok: "parsePatch p = Ok changes \<Longrightarrow> doc_ok changes \<and> changes \<noteq> []"
  by (auto simp: parsePatch_def bind_eq_Some_conv split: if_splits option.splits gmap.splits
      dest: parse_members_ok)

section \<open>What the use cases do\<close>

text \<open>The laws of the ports: those of the repository, and that neither the clock nor the activity
  recorder touches a progress document.\<close>

locale progress_service = progress_repository "repo s" stored
  for s :: "'w Service" and stored :: "'w \<Rightarrow> ID \<Rightarrow> string option" +
  assumes clock_keeps: "stored (snd (clock s w)) = stored w"
    and activity_keeps: "activity s = Some rec \<Longrightarrow> stored (snd (rec u w)) = stored w"
begin

lemma recordActivity_keeps: "stored (snd (recordActivity s u w)) = stored w"
proof (cases "activity s")
  case (Some rec)
  obtain r w1 where r: "rec u w = (r, w1)" by fastforce
  have "stored w1 = stored w" using activity_keeps [OF Some, of u w] r by simp
  with r Some show ?thesis by (cases r) (simp_all add: recordActivity_def handling_def)
qed (simp add: recordActivity_def)

text \<open>A use case that reads, changes and writes: the document it stores comes from the stored one.\<close>

lemma mutate_effect:
  assumes "mutate s u f w = (r, w1)" "\<And>doc v. stored (snd (f doc v)) = stored v"
  shows "r = Ok p \<Longrightarrow> \<exists>doc doc' v. parseDocument (current_of (stored w u)) = Ok doc \<and> fst (f doc v) = Ok doc' \<and>
      marshal doc' = Ok (Data p) \<and> validateData (Data p) = Ok () \<and> stored w1 = (stored w)(u \<mapsto> Data p)"
    and "stored w1 = stored w \<or> (\<exists>doc doc' v enc. parseDocument (current_of (stored w u)) = Ok doc \<and>
      fst (f doc v) = Ok doc' \<and> marshal doc' = Ok enc \<and> validateData enc = Ok () \<and>
      stored w1 = (stored w)(u \<mapsto> enc))"
proof -
  have fn: "stored (snd (mutation f c v)) = stored v" for c v
    using keeps_mutation [of "\<lambda>x. stored x = stored v" f c] assms(2) by (auto simp: keeps_def)
  obtain q where q: "Mutate (repo s) u (mutation f) w = (q, w1)" "r = result_map_err (known_or ''mutate progress'') q"
    using assms(1) unfolding mutate_def by (rule onErrE)
  show "\<exists>doc doc' v. parseDocument (current_of (stored w u)) = Ok doc \<and> fst (f doc v) = Ok doc' \<and>
      marshal doc' = Ok (Data p) \<and> validateData (Data p) = Ok () \<and> stored w1 = (stored w)(u \<mapsto> Data p)"
    if "r = Ok p"
  proof -
    have "Mutate (repo s) u (mutation f) w = (Ok p, w1)" using q that by simp
    from mutate_Ok [where fn = "mutation f", OF fn this]
    obtain v where v: "fst (mutation f (current_of (stored w u)) v) = Ok (Data p)"
        "stored w1 = (stored w)(u \<mapsto> Data p)" by blast
    from v(1) [unfolded mutation_Ok] v(2) show ?thesis by blast
  qed
  show "stored w1 = stored w \<or> (\<exists>doc doc' v enc. parseDocument (current_of (stored w u)) = Ok doc \<and>
      fst (f doc v) = Ok doc' \<and> marshal doc' = Ok enc \<and> validateData enc = Ok () \<and>
      stored w1 = (stored w)(u \<mapsto> enc))"
    using mutate_other [where fn = "mutation f", OF fn q(1)] mutation_Ok by metis
qed

lemma Get_effect:
  assumes "Get s u w = (Ok p, w1)"
  shows "stored w u = Some (Data p) \<and> UserID_of p = u \<and> stored w1 = stored w"
proof -
  obtain "0 < u" and f: "FindByUserID (repo s) u w = (Ok p, w1)"
    using assms by (auto simp: Get_def andThen_Ok_iff)
  then show ?thesis using find_Ok [of u w p] find_keeps [of u w] by simp
qed

lemma Save_effect:
  assumes "Save s u d w = (Ok p, w1)"
  shows "0 < u \<and> validateData d = Ok () \<and> Data p = d \<and> stored w1 = (stored w)(u \<mapsto> d)"
proof -
  obtain w2 where "0 < u" "validateData d = Ok ()" and up: "Upsert (repo s) u d w = (Ok p, w2)"
    and w1: "w1 = snd (recordActivity s u w2)"
    using assms by (auto simp: Save_def andThen_Ok_iff)
  then show ?thesis using upsert_Ok [OF up] recordActivity_keeps [of u w2] by simp
qed

text \<open>A use case built on \<open>mutate\<close>.\<close>

lemma after_activity:
  assumes "andThen m (\<lambda>p. andThen (recordActivity s u) (\<lambda>_. ret p)) w = (r, w1)"
  shows "\<exists>r' w2. m w = (r', w2) \<and> stored w1 = stored w2 \<and> (\<forall>p. r = Ok p \<longrightarrow> r' = Ok p) \<and> (\<not> is_Ok r' \<longrightarrow> r = r')"
  using assms
proof (cases rule: andThenE)
  case (ok x w2)
  obtain q w3 where q: "recordActivity s u w2 = (q, w3)" by fastforce
  have "w1 = w3" using ok(2) q by (cases q) (simp_all add: andThen_def)
  then have "stored w1 = stored w2" using recordActivity_keeps [of u w2] q by simp
  moreover have "\<forall>p. r = Ok p \<longrightarrow> Ok x = Ok p" using ok(2) q by (cases q) (auto simp: andThen_def)
  ultimately show ?thesis using ok(1) by (intro exI [of _ "Ok x"] exI [of _ w2]) simp
qed simp_all

lemma keeps_gradeAnswer_stored: "stored (snd (gradeAnswer (clock s) a doc v)) = stored v"
  using keeps_gradeAnswer [of "\<lambda>x. stored x = stored v" "clock s" a doc] clock_keeps
  by (auto simp: keeps_def)

text \<open>Either the request is refused before the store is touched, or its change ran in \<open>mutate\<close>.\<close>

lemma RecordAnswer_run:
  assumes "RecordAnswer s u a w = (r, w1)"
  shows "(stored w1 = stored w \<and> \<not> is_Ok r) \<or>
    (0 < u \<and> validateAnswer a = Ok () \<and> (\<exists>r' w2. mutate s u (gradeAnswer (clock s) a) w = (r', w2) \<and>
       stored w1 = stored w2 \<and> (\<forall>p. r = Ok p \<longrightarrow> r' = Ok p) \<and> (\<not> is_Ok r' \<longrightarrow> r = r')))"
proof (cases "0 < u \<and> validateAnswer a = Ok ()")
  case True
  then have "andThen (mutate s u (gradeAnswer (clock s) a)) (\<lambda>p. andThen (recordActivity s u) (\<lambda>_. ret p)) w = (r, w1)"
    using assms by (simp add: RecordAnswer_def)
  from after_activity [OF this] True show ?thesis by blast
next
  case False
  then have "w1 = w" "\<not> is_Ok r"
    using assms by (cases rule: NewID_cases [of u]; cases "validateAnswer a"; auto simp: RecordAnswer_def)+
  then show ?thesis by simp
qed

lemma CompleteLesson_run:
  assumes "CompleteLesson s u l w = (r, w1)"
  shows "(stored w1 = stored w \<and> \<not> is_Ok r) \<or>
    (0 < u \<and> validateLessonID (TrimSpace l) = Ok () \<and>
      (\<exists>r' w2. mutate s u (\<lambda>doc. lift (addLesson (TrimSpace l) doc)) w = (r', w2) \<and>
       stored w1 = stored w2 \<and> (\<forall>p. r = Ok p \<longrightarrow> r' = Ok p) \<and> (\<not> is_Ok r' \<longrightarrow> r = r')))"
proof (cases "0 < u \<and> validateLessonID (TrimSpace l) = Ok ()")
  case True
  then have "andThen (mutate s u (\<lambda>doc. lift (addLesson (TrimSpace l) doc)))
      (\<lambda>p. andThen (recordActivity s u) (\<lambda>_. ret p)) w = (r, w1)"
    using assms by (simp add: CompleteLesson_def)
  from after_activity [OF this] True show ?thesis by blast
next
  case False
  then have "w1 = w" "\<not> is_Ok r"
    using assms by (cases rule: NewID_cases [of u]; cases "validateLessonID (TrimSpace l)"; auto simp: CompleteLesson_def)+
  then show ?thesis by simp
qed

lemma Merge_run:
  assumes "Merge s u p w = (r, w1)"
  shows "(stored w1 = stored w \<and> \<not> is_Ok r) \<or>
    (\<exists>changes. 0 < u \<and> parsePatch p = Ok changes \<and> mutate s u (\<lambda>doc. lift (merge_patch doc changes)) w = (r, w1))"
  using assms
  by (cases rule: NewID_cases [of u]; cases "parsePatch p"; auto simp: Merge_def)

lemma RecordAnswer_Ok:
  assumes "RecordAnswer s u a w = (Ok p, w1)" "valid_utf8 (Chosen a)"
  shows "\<exists>doc new t. parseDocument (current_of (stored w u)) = Ok doc \<and> parseDocument (Data p) = Ok new \<and>
    answer_recorded a t doc new \<and> stored w1 = (stored w)(u \<mapsto> Data p)"
proof -
  obtain w2 where v: "validateAnswer a = Ok ()" and m: "mutate s u (gradeAnswer (clock s) a) w = (Ok p, w2)"
    and st: "stored w1 = stored w2"
    using RecordAnswer_run [OF assms(1)] by auto
  obtain doc doc' v' where "parseDocument (current_of (stored w u)) = Ok doc"
      "fst (gradeAnswer (clock s) a doc v') = Ok doc'" "marshal doc' = Ok (Data p)"
      "stored w2 = (stored w)(u \<mapsto> Data p)"
    using mutate_effect(1) [OF m keeps_gradeAnswer_stored] by blast
  with gradeAnswer_stores [OF _ _ _ v assms(2)] st show ?thesis by metis
qed

lemma CompleteLesson_Ok:
  assumes "CompleteLesson s u l w = (Ok p, w1)" "valid_utf8 (TrimSpace l)"
  shows "\<exists>doc new ls. parseDocument (current_of (stored w u)) = Ok doc \<and> parseDocument (Data p) = Ok new \<and>
    lessons doc = Ok ls \<and> lessons new = Ok (sorted_list_of_set (insert (TrimSpace l) (set ls))) \<and>
    (\<forall>k. k \<notin> {fieldSchemaVersion, fieldLessons} \<longrightarrow> map_of new k = map_option norm (map_of doc k)) \<and>
    stored w1 = (stored w)(u \<mapsto> Data p)"
proof -
  obtain w2 where m: "mutate s u (\<lambda>doc. lift (addLesson (TrimSpace l) doc)) w = (Ok p, w2)"
    and st: "stored w1 = stored w2"
    using CompleteLesson_run [OF assms(1)] by auto
  obtain doc doc' where "parseDocument (current_of (stored w u)) = Ok doc"
      "addLesson (TrimSpace l) doc = Ok doc'" "marshal doc' = Ok (Data p)"
      "stored w2 = (stored w)(u \<mapsto> Data p)"
    using mutate_effect(1) [OF m] by auto
  with addLesson_stores [OF _ _ _ assms(2)] st show ?thesis by metis
qed

lemma Merge_Ok:
  assumes "Merge s u patch w = (Ok p, w1)"
  shows "\<exists>doc new changes. parseDocument (current_of (stored w u)) = Ok doc \<and> parseDocument (Data p) = Ok new \<and>
    parsePatch patch = Ok changes \<and> (\<forall>k \<in> set protectedFields. map_of changes k = None) \<and>
    (\<forall>k. k \<noteq> fieldSchemaVersion \<longrightarrow> map_of new k =
       map_option norm (case map_of changes k of Some v \<Rightarrow> Some v | None \<Rightarrow> map_of doc k)) \<and>
    stored w1 = (stored w)(u \<mapsto> Data p)"
proof -
  obtain changes where c: "parsePatch patch = Ok changes"
    and m: "mutate s u (\<lambda>doc. lift (merge_patch doc changes)) w = (Ok p, w1)"
    using Merge_run [OF assms(1)] by auto
  have ok: "doc_ok changes" using parsePatch_doc_ok [OF c] by blast
  then have g: "gomap_ok changes" by (simp add: doc_ok_def)
  obtain doc doc' where d: "parseDocument (current_of (stored w u)) = Ok doc"
      "merge_patch doc changes = Ok doc'" "marshal doc' = Ok (Data p)" "stored w1 = (stored w)(u \<mapsto> Data p)"
    using mutate_effect(1) [OF m] by auto
  from merge_stores [OF d(1-3) ok] merge_patch_effect(4) [OF d(2) g] d(1,4) c show ?thesis by metis
qed

text \<open>Nothing but a checked document is ever stored, whatever the outcome of the request.\<close>

definition all_checked :: "'w \<Rightarrow> bool" where
  "all_checked w \<longleftrightarrow> (\<forall>u d. stored w u = Some d \<longrightarrow> validateData d = Ok ())"

lemma all_checked_mutate:
  assumes "mutate s u f w = (r, w1)" "\<And>doc v. stored (snd (f doc v)) = stored v" "all_checked w"
  shows "all_checked w1"
  using mutate_effect(2) [OF assms(1,2)] assms(3) unfolding all_checked_def
  by (elim disjE exE conjE) (simp_all add: fun_upd_def split: if_splits)

lemma all_checked_cong: "stored w1 = stored w \<Longrightarrow> all_checked w \<Longrightarrow> all_checked w1"
  by (simp add: all_checked_def)

lemma Save_run:
  assumes "Save s u d w = (r, w1)"
  shows "stored w1 = stored w \<or> (validateData d = Ok () \<and> stored w1 = (stored w)(u \<mapsto> d))"
proof (cases "0 < u \<and> validateData d = Ok ()")
  case True
  obtain q w2 where q: "Upsert (repo s) u d w = (q, w2)" by fastforce
  have st: "stored w2 = stored w \<or> stored w2 = (stored w)(u \<mapsto> d)"
  proof (cases q)
    case (Ok p)
    then show ?thesis using upsert_Ok q by blast
  next
    case (Err e)
    then show ?thesis using upsert_Err q by blast
  next
    case (Panic m)
    then show ?thesis using upsert_no_panic [of u d w m] q by simp
  qed
  have "andThen (onErr (known_or ''save progress'') (Upsert (repo s) u d))
      (\<lambda>p. andThen (recordActivity s u) (\<lambda>_. ret p)) w = (r, w1)"
    using assms True by (simp add: Save_def)
  then have "stored w1 = stored w2" using after_activity q by (fastforce simp: onErr_def)
  then show ?thesis using st True by simp
next
  case False
  then show ?thesis
    using assms by (cases rule: NewID_cases [of u]; cases "validateData d"; auto simp: Save_def)
qed

lemma all_checked_use_cases:
  assumes "all_checked w"
  shows "all_checked (snd (RecordAnswer s u a w))" "all_checked (snd (CompleteLesson s u l w))"
    "all_checked (snd (Merge s u p w))" "all_checked (snd (Save s u d w))"
proof -
  obtain r w1 where r: "RecordAnswer s u a w = (r, w1)" by fastforce
  then have "all_checked w1" using RecordAnswer_run [OF r]
  proof (elim disjE conjE exE)
    fix r' w2
    assume m: "mutate s u (gradeAnswer (clock s) a) w = (r', w2)" and st: "stored w1 = stored w2"
    have "all_checked w2" by (rule all_checked_mutate [OF m keeps_gradeAnswer_stored assms])
    then show ?thesis using st all_checked_cong by blast
  qed (use assms all_checked_cong in blast)
  with r show "all_checked (snd (RecordAnswer s u a w))" by simp
  obtain r2 w2 where r2: "CompleteLesson s u l w = (r2, w2)" by fastforce
  then have "all_checked w2" using CompleteLesson_run [OF r2]
  proof (elim disjE conjE exE)
    fix r' w3
    assume m: "mutate s u (\<lambda>doc. lift (addLesson (TrimSpace l) doc)) w = (r', w3)" and st: "stored w2 = stored w3"
    have "all_checked w3" by (rule all_checked_mutate [OF m _ assms]) simp
    then show ?thesis using st all_checked_cong by blast
  qed (use assms all_checked_cong in blast)
  with r2 show "all_checked (snd (CompleteLesson s u l w))" by simp
  obtain r3 w3 where r3: "Merge s u p w = (r3, w3)" by fastforce
  then have "all_checked w3" using Merge_run [OF r3]
  proof (elim disjE conjE exE)
    fix changes
    assume m: "mutate s u (\<lambda>doc. lift (merge_patch doc changes)) w = (r3, w3)"
    show ?thesis by (rule all_checked_mutate [OF m _ assms]) simp
  qed (use assms all_checked_cong in blast)
  with r3 show "all_checked (snd (Merge s u p w))" by simp
  obtain r4 w4 where r4: "Save s u d w = (r4, w4)" by fastforce
  then have "all_checked w4" using Save_run [OF r4] assms unfolding all_checked_def
    by (elim disjE conjE) (simp_all add: fun_upd_def)
  with r4 show "all_checked (snd (Save s u d w))" by simp
qed

text \<open>A use case touches the document of its caller only.\<close>

lemma mutate_own: "stored (snd (mutate s u f w)) j = stored w j"
  if "j \<noteq> u" "\<And>doc v. stored (snd (f doc v)) = stored v"
proof -
  obtain r w1 where m: "mutate s u f w = (r, w1)" by fastforce
  from mutate_effect(2) [OF m that(2)] m that(1) show ?thesis by (auto simp: fun_upd_def)
qed

lemma own_document_only:
  assumes "j \<noteq> u"
  shows "stored (snd (Get s u w)) j = stored w j" "stored (snd (Save s u d w)) j = stored w j"
    "stored (snd (RecordAnswer s u a w)) j = stored w j" "stored (snd (CompleteLesson s u l w)) j = stored w j"
    "stored (snd (Merge s u p w)) j = stored w j"
proof -
  show "stored (snd (Get s u w)) j = stored w j"
    using find_keeps [of u w] by (cases rule: NewID_cases [of u]) (auto simp: Get_def)
  obtain r1 w1 where r1: "Save s u d w = (r1, w1)" by fastforce
  show "stored (snd (Save s u d w)) j = stored w j"
    using Save_run [OF r1] r1 assms by (auto simp: fun_upd_def)
  have grade: "stored (snd (mutate s u (gradeAnswer (clock s) a) w)) j = stored w j"
    by (rule mutate_own [OF assms keeps_gradeAnswer_stored])
  obtain r2 w2 where r2: "RecordAnswer s u a w = (r2, w2)" by fastforce
  show "stored (snd (RecordAnswer s u a w)) j = stored w j"
    using RecordAnswer_run [OF r2] r2 grade
    by (elim disjE exE conjE) simp_all
  obtain r3 w3 where r3: "CompleteLesson s u l w = (r3, w3)" by fastforce
  have own: "stored (snd (mutate s u (\<lambda>doc. lift (g doc)) w)) j = stored w j" for g
    by (rule mutate_own [OF assms]) simp
  show "stored (snd (CompleteLesson s u l w)) j = stored w j"
    using CompleteLesson_run [OF r3] r3 own [of "addLesson (TrimSpace l)"]
    by (elim disjE exE conjE) simp_all
  obtain r4 w4 where r4: "Merge s u p w = (r4, w4)" by fastforce
  show "stored (snd (Merge s u p w)) j = stored w j"
    using Merge_run [OF r4]
  proof (elim disjE exE conjE)
    fix changes
    assume "mutate s u (\<lambda>doc. lift (merge_patch doc changes)) w = (r4, w4)"
    then show ?thesis using own [of "\<lambda>doc. merge_patch doc changes"] r4 by simp
  qed (use r4 in simp)
qed

text \<open>A document with a null map member cannot be graded any more: the assignment panics, and the
  transaction leaves the document as it is.\<close>

lemma null_member_blocks_answers:
  assumes "parseDocument (current_of (stored w u)) = Ok doc" "skills doc = Ok NilMap"
  shows "stored (snd (RecordAnswer s u a w)) = stored w \<and> \<not> is_Ok (fst (RecordAnswer s u a w))"
proof -
  obtain r w1 where r: "RecordAnswer s u a w = (r, w1)" by fastforce
  have no: "\<not> is_Ok (fst (gradeAnswer (clock s) a doc v))" for v
    using assms(2) by (auto elim!: is_OkE simp: gradeAnswer_Ok gradeScores_def Let_def)
  have "stored w1 = stored w \<and> \<not> is_Ok r" using RecordAnswer_run [OF r]
  proof (elim disjE conjE exE)
    fix r' w2
    assume m: "mutate s u (gradeAnswer (clock s) a) w = (r', w2)" "stored w1 = stored w2" "\<not> is_Ok r' \<longrightarrow> r = r'"
    have "stored w2 = stored w" "\<not> is_Ok r'"
      using mutate_effect [OF m(1) keeps_gradeAnswer_stored] assms(1) no
      by (metis is_Ok.simps(1) result.inject(1), metis is_Ok.simps(1) result.inject(1) is_OkE)
    then show ?thesis using m by simp
  qed simp
  with r show ?thesis by simp
qed

end

end
