(* ===== verification/Frames.thy ===== *)
theory Frames
  imports AuthService ProgressService
begin

text \<open>
  What every use case of a service keeps because each of its ports keeps it: one locale per service,
  whose parameter is the service and an invariant of the world. The composition root interprets each
  of them several times: with the consistency of the tables, with what the other module owns, with
  the accounts that must not disappear.
\<close>

lemma keeps_case_option_eq:
  "(c = None \<Longrightarrow> keeps I a) \<Longrightarrow> (\<And>x. c = Some x \<Longrightarrow> keeps I (b x)) \<Longrightarrow>
   keeps I (case c of None \<Rightarrow> a | Some x \<Rightarrow> b x)"
  by (cases c) auto

locale auth_frame_but_password =
  fixes s :: "'w AuthService" and I :: "'w \<Rightarrow> bool"
  assumes keeps_users: "keeps I (Create (Repo s) u)" "keeps I (FindByEmail (Repo s) e)" "keeps I (FindByID (Repo s) i)"
      "keeps I (TouchActivity (Repo s) i d)" "keeps I (MarkEmailVerified (Repo s) i t)" "keeps I (PutProfile (Repo s) i p)"
    and keeps_verifications: "keeps I (PutVerification (Verifications s) v)" "keeps I (FindVerification (Verifications s) i)"
      "keeps I (RecordVerificationAttempt (Verifications s) i)" "keeps I (ConsumeVerification (Verifications s) i t)"
    and keeps_resets: "keeps I (PutReset (Resets s) r)" "keeps I (FindResetByHash (Resets s) h)"
      "keeps I (ConsumeReset (Resets s) i t)"
    and keeps_passwords: "keeps I (Hash s pw)" "keeps I (Compare s h pw)"
    and keeps_others: "keeps I (Issue s n)" "keeps I (SendVerificationCode s e cd)" "keeps I (SendPasswordReset s e tk)"
      "keeps I (VerificationCode s)" "keeps I (ResetToken s)" "keeps I (Clock s)"
    and keeps_snapshot: "Snapshot s = Some sn \<Longrightarrow> keeps I (sn n)"
begin

lemmas ports = keeps_users keeps_verifications keeps_resets keeps_passwords keeps_others

lemma keeps_openSession: "keeps I (openSession s u)"
  unfolding openSession_def by (intro keeps_intros ports) (auto split: prod.split)

lemma keeps_issueCode: "keeps I (issueVerificationCode s u)"
  unfolding issueVerificationCode_def by (intro keeps_intros ports)

lemma keeps_Register: "keeps I (Register s creds)"
  unfolding Register_def by (intro keeps_intros ports keeps_openSession keeps_issueCode)

lemma keeps_Login: "keeps I (Login s creds)"
  unfolding Login_def by (intro keeps_intros ports keeps_openSession)

lemma keeps_FindByID: "keeps I (service_FindByID s n)"
  unfolding service_FindByID_def by (intro keeps_intros ports)

lemma keeps_Me: "keeps I (service_Me s n)"
  unfolding service_Me_def
  by (intro keeps_andThen keeps_FindByID keeps_case_option_eq keeps_onErr keeps_lift) (rule keeps_snapshot)

lemma keeps_RecordActivity: "keeps I (RecordActivity s n)"
  unfolding RecordActivity_def by (intro keeps_intros ports)

lemma keeps_SaveProfile: "keeps I (SaveProfile s n p)"
  unfolding SaveProfile_def by (intro keeps_intros ports)

lemma keeps_VerifyEmail: "keeps I (VerifyEmail s e cd)"
  unfolding VerifyEmail_def by (intro keeps_intros ports keeps_openSession)

lemma keeps_ResendVerification: "keeps I (ResendVerification s e)"
  unfolding ResendVerification_def by (intro keeps_intros ports keeps_issueCode)

lemma keeps_ForgotPassword: "keeps I (ForgotPassword s e)"
  unfolding ForgotPassword_def by (intro keeps_intros ports)

lemmas keeps_use_cases = keeps_Register keeps_Login keeps_FindByID keeps_Me keeps_RecordActivity keeps_SaveProfile
  keeps_VerifyEmail keeps_ResendVerification keeps_ForgotPassword

end

text \<open>A reset is the only use case that stores a password.\<close>

locale auth_frame = auth_frame_but_password +
  assumes keeps_UpdatePassword: "keeps I (UpdatePassword (Repo s) i h)"
begin

lemma keeps_ResetPassword: "keeps I (ResetPassword s tk p)"
  unfolding ResetPassword_def by (intro keeps_intros ports keeps_UpdatePassword)

end

locale progress_frame =
  fixes s :: "'w Service" and I :: "'w \<Rightarrow> bool"
  assumes keeps_repository: "keeps I (FindByUserID (repo s) u)" "keeps I (Upsert (repo s) u d)"
    and keeps_Mutate: "(\<And>c. keeps I (fn c)) \<Longrightarrow> keeps I (Mutate (repo s) u fn)"
    and keeps_clock: "keeps I (clock s)"
    and keeps_recorder: "activity s = Some rec \<Longrightarrow> keeps I (rec n)"
begin

lemma keeps_recordActivity: "keeps I (recordActivity s n)"
  unfolding recordActivity_def
  by (intro keeps_case_option_eq keeps_handling keeps_lift) (rule keeps_recorder)

lemma keeps_mutate: "(\<And>doc. keeps I (f doc)) \<Longrightarrow> keeps I (mutate s u f)"
  unfolding mutate_def by (intro keeps_onErr keeps_Mutate keeps_mutation)

lemma keeps_Get: "keeps I (Get s n)"
  unfolding Get_def by (intro keeps_intros keeps_repository)

lemma keeps_Save: "keeps I (Save s n d)"
  unfolding Save_def by (intro keeps_intros keeps_repository keeps_recordActivity)

lemma keeps_RecordAnswer: "keeps I (RecordAnswer s n a)"
  unfolding RecordAnswer_def by (intro keeps_intros keeps_mutate keeps_gradeAnswer keeps_clock keeps_recordActivity)

lemma keeps_CompleteLesson: "keeps I (CompleteLesson s n l)"
  unfolding CompleteLesson_def Let_def by (intro keeps_intros keeps_mutate keeps_recordActivity)

lemma keeps_Merge: "keeps I (Merge s n p)"
  unfolding Merge_def by (intro keeps_intros keeps_mutate)

lemmas keeps_use_cases = keeps_Get keeps_Save keeps_RecordAnswer keeps_CompleteLesson keeps_Merge

end

end
