(* ===== verification/Composition.thy ===== *)
theory Composition
  imports AuthUseCases AuthStores Mail Config ActivityRules Frames
begin

text \<open>
  The composition root (\<^verbatim>\<open>cmd/api/main.go\<close>, \<^verbatim>\<open>cmd/api/adapters.go\<close>): the two services wired with the
  MariaDB repositories, the platform primitives and the mailer the configuration asks for, and with
  each other through the activity recorder and the progress snapshot. The locales of both services
  are interpreted on them, for any configuration and any third party.
\<close>

section \<open>Wiring\<close>

definition newMailer :: "MailConfig \<Rightarrow> mail_message \<Rightarrow> (world, unit) proc" where
  "newMailer m =
     (if mail_Driver m \<noteq> MailDriverSMTP then LogMailer_Send
      else SMTPMailer_Send (NewSMTPMailer
        \<lparr>Host = mail_Host m, Port = mail_Port m, Username = mail_Username m, SMTP_Password = mail_Password m,
         From_addr = mail_From m, TLS = mail_TLS m, Timeout = mail_Timeout m\<rparr>))"

definition wired_notifier :: "Config \<Rightarrow> Notifier" where
  "wired_notifier c =
     NewNotifier (newMailer (cfg_Mail c)) (mail_AppURL (cfg_Mail c)) (mail_ResetPath (cfg_Mail c))
       (auth_VerificationCodeTTL (cfg_Auth c)) (auth_ResetTokenTTL (cfg_Auth c))"

definition wired_tokens :: "Config \<Rightarrow> JWTManager" where
  "wired_tokens c = NewJWTManager (auth_JWTSecret (cfg_Auth c)) (auth_JWTIssuer (cfg_Auth c)) (auth_JWTTTL (cfg_Auth c))"

definition wired_policy :: "Config \<Rightarrow> Policy" where
  "wired_policy c =
     \<lparr>RequireVerifiedEmail = auth_RequireVerifiedEmail (cfg_Auth c),
      VerificationCodeTTL = auth_VerificationCodeTTL (cfg_Auth c),
      MaxVerificationAttempts = auth_MaxVerificationAttempts (cfg_Auth c),
      ResetTokenTTL = auth_ResetTokenTTL (cfg_Auth c)\<rparr>"

text \<open>The authentication service with the snapshot port it is given.\<close>

definition auth_with :: "auth_lib \<Rightarrow> crypto_lib \<Rightarrow> Config \<Rightarrow> (int \<Rightarrow> (world, string option) proc) option \<Rightarrow> world AuthService" where
  "auth_with lib crypto c snapshot =
     NewAuthService
       \<lparr>Repo = mysql_users lib, Verifications = mysql_verifications, Resets = mysql_resets,
        Hash = hasher_Hash crypto (NewPasswordHasher (auth_BcryptCost (cfg_Auth c))),
        Compare = (\<lambda>hash plain. lift (hasher_Compare crypto hash plain)),
        Issue = jwt_Issue crypto (wired_tokens c),
        SendVerificationCode = notifier_SendVerificationCode (wired_notifier c),
        SendPasswordReset = notifier_SendPasswordReset (wired_notifier c),
        VerificationCode = secret_VerificationCode, ResetToken = secret_ResetToken,
        Snapshot = snapshot, Policy_of = wired_policy c, Clock = read_clock, Lib = lib\<rparr>"

text \<open>The cycle: progress records activity through authentication, authentication reads the document
  through progress. \<open>RecordActivity\<close> does not use the snapshot, so the knot is tied without recursion.\<close>

definition wired_activity :: "auth_lib \<Rightarrow> crypto_lib \<Rightarrow> Config \<Rightarrow> int \<Rightarrow> (world, unit) proc" where
  "wired_activity lib crypto c userID =
     andThen (RecordActivity (auth_with lib crypto c None) userID) (\<lambda>_. ret ())"

definition wired_progress :: "auth_lib \<Rightarrow> crypto_lib \<Rightarrow> Config \<Rightarrow> world Service" where
  "wired_progress lib crypto c =
     \<lparr>repo = mysql_progress_repository, activity = Some (wired_activity lib crypto c), clock = read_clock\<rparr>"

definition wired_snapshot :: "auth_lib \<Rightarrow> crypto_lib \<Rightarrow> Config \<Rightarrow> int \<Rightarrow> (world, string option) proc" where
  "wired_snapshot lib crypto c userID =
     handling (Get (wired_progress lib crypto c) userID) (\<lambda>r.
       case r of
         Inl err \<Rightarrow> if errors_Is err ErrProgressNotFound then ret None else fail err
       | Inr document \<Rightarrow> ret (Some (Data document)))"

definition wired_auth :: "auth_lib \<Rightarrow> crypto_lib \<Rightarrow> Config \<Rightarrow> world AuthService" where
  "wired_auth lib crypto c = auth_with lib crypto c (Some (wired_snapshot lib crypto c))"

lemma wired_activity_eq:
  "wired_activity lib crypto c userID =
     andThen (RecordActivity (wired_auth lib crypto c) userID) (\<lambda>_. ret ())"
  by (simp add: wired_activity_def wired_auth_def auth_with_def NewAuthService_def RecordActivity_def)

lemma auth_with_sel [simp]:
  "Repo (auth_with lib crypto c sn) = mysql_users lib"
  "Verifications (auth_with lib crypto c sn) = mysql_verifications"
  "Resets (auth_with lib crypto c sn) = mysql_resets"
  "Hash (auth_with lib crypto c sn) = hasher_Hash crypto (NewPasswordHasher (auth_BcryptCost (cfg_Auth c)))"
  "Compare (auth_with lib crypto c sn) = (\<lambda>hash plain. lift (hasher_Compare crypto hash plain))"
  "Issue (auth_with lib crypto c sn) = jwt_Issue crypto (wired_tokens c)"
  "SendVerificationCode (auth_with lib crypto c sn) = notifier_SendVerificationCode (wired_notifier c)"
  "SendPasswordReset (auth_with lib crypto c sn) = notifier_SendPasswordReset (wired_notifier c)"
  "VerificationCode (auth_with lib crypto c sn) = secret_VerificationCode"
  "ResetToken (auth_with lib crypto c sn) = secret_ResetToken"
  "Policy_of (auth_with lib crypto c sn) = withDefaults (wired_policy c)"
  "Clock (auth_with lib crypto c sn) = read_clock" "Lib (auth_with lib crypto c sn) = lib"
  "Snapshot (auth_with lib crypto c sn) = sn"
  by (simp_all add: auth_with_def NewAuthService_def)

lemma wired_auth_sel [simp]:
  "Repo (wired_auth lib crypto c) = mysql_users lib"
  "Verifications (wired_auth lib crypto c) = mysql_verifications"
  "Resets (wired_auth lib crypto c) = mysql_resets"
  "Hash (wired_auth lib crypto c) = hasher_Hash crypto (NewPasswordHasher (auth_BcryptCost (cfg_Auth c)))"
  "Compare (wired_auth lib crypto c) = (\<lambda>hash plain. lift (hasher_Compare crypto hash plain))"
  "Issue (wired_auth lib crypto c) = jwt_Issue crypto (wired_tokens c)"
  "SendVerificationCode (wired_auth lib crypto c) = notifier_SendVerificationCode (wired_notifier c)"
  "SendPasswordReset (wired_auth lib crypto c) = notifier_SendPasswordReset (wired_notifier c)"
  "VerificationCode (wired_auth lib crypto c) = secret_VerificationCode"
  "ResetToken (wired_auth lib crypto c) = secret_ResetToken"
  "Policy_of (wired_auth lib crypto c) = withDefaults (wired_policy c)"
  "Clock (wired_auth lib crypto c) = read_clock" "Lib (wired_auth lib crypto c) = lib"
  "Snapshot (wired_auth lib crypto c) = Some (wired_snapshot lib crypto c)"
  by (simp_all add: wired_auth_def)

lemma wired_progress_sel [simp]:
  "repo (wired_progress lib crypto c) = mysql_progress_repository"
  "activity (wired_progress lib crypto c) = Some (wired_activity lib crypto c)"
  "clock (wired_progress lib crypto c) = read_clock"
  by (simp_all add: wired_progress_def)

section \<open>Steps that leave the database alone\<close>

text \<open>An observation that depends on the tables and the collation only.\<close>

definition db_only :: "(world \<Rightarrow> bool) \<Rightarrow> bool" where
  "db_only I \<longleftrightarrow> (\<forall>w w1. db w1 = db w \<longrightarrow> collation_key w1 = collation_key w \<longrightarrow> I w \<longrightarrow> I w1)"

lemma db_onlyD: "db_only I \<Longrightarrow> I w \<Longrightarrow> db w1 = db w \<Longrightarrow> collation_key w1 = collation_key w \<Longrightarrow> I w1"
  by (auto simp: db_only_def)

lemma db_only_state: "db_only (\<lambda>w. auth_state_of w = x)"
  unfolding db_only_def using auth_state_cong by blast

lemma db_only_stored: "db_only (\<lambda>w. stored_progress w = x)"
  by (auto simp: db_only_def stored_progress_def fun_eq_iff)

lemma db_only_ok: "db_only (db_ok ck)"
  by (auto simp: db_only_def db_ok_def)

lemma keeps_draw [keeps_intros]: "db_only I \<Longrightarrow> keeps I draw"
  by (rule keepsI) (auto simp: draw_def elim!: db_onlyD split: list.splits)

lemma keeps_clock: "db_only I \<Longrightarrow> keeps I read_clock"
  by (rule keeps_read_clock) (auto elim!: db_onlyD)

lemma keeps_hash [keeps_intros]: "db_only I \<Longrightarrow> keeps I (hasher_Hash crypto cost p)"
  unfolding hasher_Hash_def by (intro keeps_intros)

lemma keeps_issue [keeps_intros]: "db_only I \<Longrightarrow> keeps I (jwt_Issue crypto m i)"
  unfolding jwt_Issue_def Let_def by (intro keeps_andThen keeps_clock keeps_intros)

lemma keeps_secrets [keeps_intros]:
  "db_only I \<Longrightarrow> keeps I secret_VerificationCode" "db_only I \<Longrightarrow> keeps I secret_ResetToken"
  unfolding secret_VerificationCode_def secret_ResetToken_def rand_Int_def rand_Read_def Let_def
  by (intro keeps_intros; simp)+

lemma keeps_mailer: "db_only I \<Longrightarrow> keeps I (newMailer m msg)"
proof -
  assume d: "db_only I"
  have "keeps I (\<lambda>w. (Ok (), w\<lparr>mail_log := mail_log w @ [msg]\<rparr>))"
    by (rule keepsI) (use d in \<open>auto elim!: db_onlyD\<close>)
  then have log: "keeps I (LogMailer_Send msg)" unfolding LogMailer_Send_def by (intro keeps_intros)
  have "keeps I (deliver to data)" for to data
    by (rule keepsI) (use d in \<open>auto simp: deliver_def elim!: db_onlyD\<close>)
  moreover have "I (w\<lparr>net_faults := fs\<rparr>)" if "I w" for w fs
    by (rule db_onlyD [OF d that]) simp_all
  ultimately have "keeps I (SMTPMailer_Send cfg msg)" for cfg
    unfolding SMTPMailer_Send_def when_step_def by (intro keeps_intros) assumption+
  with log show ?thesis by (simp add: newMailer_def)
qed

lemma keeps_notifier [keeps_intros]:
  "db_only I \<Longrightarrow> keeps I (notifier_SendVerificationCode (wired_notifier c) e vc)"
  "db_only I \<Longrightarrow> keeps I (notifier_SendPasswordReset (wired_notifier c) e token)"
  unfolding notifier_SendVerificationCode_def notifier_SendPasswordReset_def wired_notifier_def NewNotifier_def Let_def
  by (simp_all add: keeps_mailer)

section \<open>Authentication\<close>

lemma wired_auth_ports: "auth_ports (wired_auth lib crypto c) auth_state_of db_invar"
proof (intro auth_ports.intro)
  show "user_store (Repo (wired_auth lib crypto c)) auth_state_of db_invar"
    unfolding wired_auth_sel by unfold_locales
  show "verification_store (Verifications (wired_auth lib crypto c)) auth_state_of"
    unfolding wired_auth_sel by unfold_locales
  show "reset_store (Resets (wired_auth lib crypto c)) auth_state_of db_invar"
    unfolding wired_auth_sel by unfold_locales
  show "auth_ports_axioms (wired_auth lib crypto c) auth_state_of"
    by unfold_locales
      (simp_all add: keeps_hash keeps_issue keeps_secrets keeps_notifier keeps_clock db_only_state)
qed

interpretation wired_auth: auth_ports "wired_auth lib crypto c" auth_state_of db_invar for lib crypto c
  by (rule wired_auth_ports)

text \<open>The activity recorder writes the users table alone.\<close>

lemma keeps_stored_statement:
  "(\<And>w. stored_progress (snd (f w)) = stored_progress w) \<Longrightarrow> keeps (\<lambda>w. stored_progress w = x) (statement f)"
  by (rule keeps_statement) simp_all

lemma keeps_stored_query: "keeps (\<lambda>w. stored_progress w = x) (queryOne lib p)"
  unfolding queryOne_def by (intro keeps_intros keeps_stored_statement) (simp add: stored_progress_def)

lemma keeps_stored_find: "keeps (\<lambda>w. stored_progress w = x) (mysql_FindByID lib i)"
  unfolding mysql_FindByID_def by (rule keeps_stored_query)

lemma keeps_stored_update: "keeps (\<lambda>w. stored_progress w = x) (update_user i f)"
  unfolding update_user_def by (rule keeps_stored_statement) (simp add: stored_progress_def progress_of_def fun_eq_iff)

lemma keeps_stored_touch: "keeps (\<lambda>w. stored_progress w = x) (mysql_TouchActivity lib i d)"
  unfolding mysql_TouchActivity_def by (intro keeps_intros keeps_stored_update keeps_stored_find)

section \<open>Frames of the two services\<close>

text \<open>What every statement of the repositories keeps, every use case keeps.\<close>

locale activity_frame =
  fixes lib :: auth_lib and I :: "world \<Rightarrow> bool"
  assumes tables_only: "db_only I"
    and touching: "keeps I (mysql_FindByID lib i)" "keeps I (mysql_TouchActivity lib i d)"
begin

lemma keeps_activity: "keeps I (wired_activity lib crypto c u)"
  unfolding wired_activity_def RecordActivity_def
  by (simp add: mysql_users_def)
    (intro keeps_andThen keeps_onErr keeps_lift touching keeps_clock tables_only)

end

locale progress_store_frame = activity_frame +
  assumes progress_keep: "keeps I (select_progress n)" "keeps I (upsert_progress n doc)"
    and transaction_keep: "keeps I begin_tx" "keeps I commit_tx" "I w \<Longrightarrow> I w1 \<Longrightarrow> I (w1\<lparr>db := db w\<rparr>)"
begin

lemma keeps_find: "keeps I (mysql_FindByUserID n)"
  unfolding mysql_FindByUserID_def by (intro keeps_intros progress_keep)

lemma keeps_upsert: "keeps I (mysql_Upsert n doc)"
  unfolding mysql_Upsert_def by (intro keeps_intros progress_keep keeps_find)

lemma keeps_mysql_Mutate: "(\<And>x. keeps I (fn x)) \<Longrightarrow> keeps I (mysql_Mutate n fn)"
  unfolding mysql_Mutate_eq tx_body_def
  by (intro keeps_intros keeps_transaction progress_keep transaction_keep keeps_find)

end

sublocale progress_store_frame \<subseteq> progress_use_cases: progress_frame "wired_progress lib crypto c" I for crypto c
proof unfold_locales
  show "keeps I (FindByUserID (repo (wired_progress lib crypto c)) u)"
    "keeps I (Upsert (repo (wired_progress lib crypto c)) u d)" for u d
    by (simp_all add: keeps_find keeps_upsert)
  show "(\<And>x. keeps I (fn x)) \<Longrightarrow> keeps I (Mutate (repo (wired_progress lib crypto c)) u fn)" for u fn
    by (simp add: keeps_mysql_Mutate)
  show "keeps I (clock (wired_progress lib crypto c))" by (simp add: keeps_clock tables_only)
  show "activity (wired_progress lib crypto c) = Some rec \<Longrightarrow> keeps I (rec n)" for rec n
    using keeps_activity by auto
qed

locale auth_store_frame_but_password = activity_frame +
  assumes users_keep: "keeps I (insert_user u)" "keeps I (mysql_FindByEmail lib e)"
      "keeps I (mysql_MarkEmailVerified lib i t)" "keeps I (mysql_SaveProfile lib i p)"
    and verifications_keep: "keeps I (mysql_PutVerification v)" "keeps I (mysql_FindVerification i)"
      "keeps I (mysql_RecordVerificationAttempt i)" "keeps I (mysql_ConsumeVerification i t)"
    and resets_keep: "keeps I (mysql_PutReset r)" "keeps I (mysql_FindResetByHash h)" "keeps I (mysql_ConsumeReset i t)"
    and reading_keeps: "keeps I (select_progress n)"
begin

lemma keeps_Create: "keeps I (mysql_Create lib u)"
  unfolding mysql_Create_def by (intro keeps_intros users_keep touching)

lemma keeps_wired_snapshot: "keeps I (wired_snapshot lib crypto c n)"
  unfolding wired_snapshot_def Get_def wired_progress_sel mysql_repository_sel mysql_FindByUserID_def
  by (intro keeps_intros reading_keeps)

end

sublocale auth_store_frame_but_password \<subseteq> auth_use_cases: auth_frame_but_password "wired_auth lib crypto c" I for crypto c
  by unfold_locales
    (auto simp add: mysql_users_def touching users_keep keeps_Create verifications_keep resets_keep keeps_wired_snapshot
      keeps_hash keeps_issue keeps_secrets keeps_notifier keeps_clock tables_only)

locale auth_store_frame = auth_store_frame_but_password +
  assumes password_keep: "keeps I (mysql_UpdatePassword i h)"

sublocale auth_store_frame \<subseteq> all_auth_use_cases: auth_frame "wired_auth lib crypto c" I for crypto c
  by unfold_locales (simp add: mysql_users_def password_keep)

section \<open>Progress\<close>

interpretation stored_frame: activity_frame lib "\<lambda>w. stored_progress w = x" for lib x
  by unfold_locales (rule db_only_stored keeps_stored_find keeps_stored_touch)+

interpretation wired_progress: progress_service "wired_progress lib crypto c" stored_progress for lib crypto c
proof -
  have "progress_repository mysql_progress_repository stored_progress" by unfold_locales
  then show "progress_service (wired_progress lib crypto c) stored_progress"
    by (intro progress_service.intro progress_service_axioms.intro)
      (use stored_frame.keeps_activity [THEN keepsD] keeps_clock [OF db_only_stored, THEN keepsD] in auto)
qed

end
