(* ===== verification/Http.thy ===== *)
theory Http
  imports JsonCodec AppErrors
begin

text \<open>
  Requests, responses and their rendering (\<^verbatim>\<open>internal/shared/httpx/httpx.go\<close>). A handler is a step
  that returns a response; an error it returns, or a panic, is rendered by the error handler of the
  server (\<open>render_outcome\<close>). What Fiber decides is a field of \<open>http_lib\<close>: which content types its
  \<open>BodyParser\<close> hands to the JSON decoder, and what its other decoders make of a body, as the members
  the payload would have in JSON.
\<close>

record http_lib =
  json_content :: "string \<Rightarrow> bool"
  other_body :: "string \<Rightarrow> string \<Rightarrow> json option"

text \<open>The parts of a Fiber context the program reads. \<open>Local_UserID\<close> is the Fiber local \<open>user_id\<close>.\<close>

record Ctx =
  Authorization :: string
  ContentType :: string
  Body :: string
  IP :: string
  Local_UserID :: "int option"

datatype payload = NoBody | JsonBody json | RawBody string

record response =
  Status :: int
  Payload :: payload

definition json_response :: "int \<Rightarrow> json \<Rightarrow> response" where
  "json_response status j = \<lparr>Status = status, Payload = JsonBody j\<rparr>"

text \<open>\<open>c.Status(...).JSON(payload)\<close>: a value that does not marshal is an error of the handler.\<close>

definition send_JSON :: "int \<Rightarrow> json option \<Rightarrow> response result" where
  "send_JSON status j =
     (case j of None \<Rightarrow> Err (LibError ''json'') | Some j \<Rightarrow> Ok (json_response status j))"

definition OK :: "json option \<Rightarrow> response result" where "OK j = send_JSON 200 j"
definition Created :: "json option \<Rightarrow> response result" where "Created j = send_JSON 201 j"
definition NoContent :: "response result" where "NoContent = Ok \<lparr>Status = 204, Payload = NoBody\<rparr>"

section \<open>Objects\<close>

text \<open>An object with the members that are present, in the order of the struct.\<close>

definition json_object :: "(string \<times> json option) list \<Rightarrow> json" where
  "json_object ms =
     JObj (concat (map (\<lambda>(k, v). case v of None \<Rightarrow> [] | Some j \<Rightarrow> [(quote k, j)]) ms))"

definition omit_empty :: "string \<Rightarrow> json option" where
  "omit_empty s = (if s = [] then None else Some (enc_string s))"

definition enc_FieldError :: "FieldError \<Rightarrow> json" where
  "enc_FieldError f =
     json_object [(''field'', Some (enc_string (Field f))), (''rule'', omit_empty (Rule f)),
                  (''message'', Some (enc_string (Message f)))]"

definition enc_ErrorBody :: "ErrorBody \<Rightarrow> json" where
  "enc_ErrorBody b =
     json_object [(''error'', Some (enc_string (Error b))), (''message'', Some (enc_string (EMessage b))),
                  (''fields'', if Fields b = [] then None else Some (enc_list enc_FieldError (Fields b)))]"

definition fail_response :: "goerr \<Rightarrow> response" where
  "fail_response err = (case Fail (Some err) of (status, body) \<Rightarrow> json_response status (enc_ErrorBody body))"

section \<open>Reading the body\<close>

definition BodyParser :: "('a) http_lib_scheme \<Rightarrow> (json \<Rightarrow> 'r option) \<Rightarrow> Ctx \<Rightarrow> 'r option" where
  "BodyParser lib dec c =
     Option.bind (if json_content lib (ContentType c) then parse_json (Body c) else other_body lib (ContentType c) (Body c)) dec"

definition ParseBody :: "('a) http_lib_scheme \<Rightarrow> (json \<Rightarrow> 'r option) \<Rightarrow> Ctx \<Rightarrow> 'r result" where
  "ParseBody lib dec c =
     (case BodyParser lib dec c of
        None \<Rightarrow> Err (WithCause (Validation ''invalid_body'' ''the request body is not valid JSON'') (LibError ''body''))
      | Some dst \<Rightarrow> Ok dst)"

section \<open>Handlers\<close>

type_synonym 'w handler = "Ctx \<Rightarrow> ('w, response) proc"

text \<open>\<open>if err != nil { return httpx.Fail(c, h.logger, convert(err)) }\<close>.\<close>

definition or_fail :: "(goerr \<Rightarrow> goerr) \<Rightarrow> ('w, 'a) proc \<Rightarrow> ('a \<Rightarrow> ('w, response) proc) \<Rightarrow> ('w, response) proc" where
  "or_fail convert m k =
     handling m (\<lambda>r. case r of Inl err \<Rightarrow> ret (fail_response (convert err)) | Inr x \<Rightarrow> k x)"

text \<open>What the server sends: the recovered panic and the returned error go to \<open>ErrorHandler\<close>.\<close>

definition ErrorHandler :: "goerr \<Rightarrow> response" where
  "ErrorHandler err = fail_response err"

fun render_outcome :: "response result \<Rightarrow> response" where
  "render_outcome (Ok r) = r"
| "render_outcome (Err err) = ErrorHandler err"
| "render_outcome (Panic m) = ErrorHandler (LibError m)"

section \<open>Lemmas\<close>

lemma keeps_or_fail [keeps_intros]:
  "keeps I m \<Longrightarrow> (\<And>x. keeps I (k x)) \<Longrightarrow> keeps I (or_fail convert m k)"
  unfolding or_fail_def by (intro keeps_intros)

lemma or_fail_lift [simp, proc_simps]:
  "or_fail convert (lift (Ok x)) k w = k x w"
  "or_fail convert (lift (Err e)) k w = (Ok (fail_response (convert e)), w)"
  "or_fail convert (lift (Panic p)) k w = (Panic p, w)"
  by (simp_all add: or_fail_def handling_def)

lemma or_fail_cases [proc_simps]:
  "m w = (Ok x, w1) \<Longrightarrow> or_fail convert m k w = k x w1"
  "m w = (Err e, w1) \<Longrightarrow> or_fail convert m k w = (Ok (fail_response (convert e)), w1)"
  "m w = (Panic p, w1) \<Longrightarrow> or_fail convert m k w = (Panic p, w1)"
  by (simp_all add: or_fail_def handling_def)

text \<open>The status of a failure is one of the eight the error kinds have, and its body an error object.\<close>

lemma fail_response_status: "Status (fail_response err) \<in> {400, 401, 403, 404, 409, 429, 500, 503}"
  by (cases "kind_of_app (toAppError (Some err))") (simp_all add: fail_response_def Fail_def json_response_def Let_def)

lemma fail_response_not_success: "\<not> Status (fail_response err) < 300"
  using fail_response_status [of err] by auto

lemma or_fail_success:
  assumes "or_fail convert m k w = (Ok resp, w1)" "Status resp < 300"
  obtains x w2 where "m w = (Ok x, w2)" "k x w2 = (Ok resp, w1)"
  using assms fail_response_not_success
  by (auto simp: or_fail_def handling_Ok_iff)

lemma fail_response_AppError [simp]:
  "Status (fail_response (AppError k code m fs ca)) = HTTPStatus_of_Kind k"
  "Payload (fail_response (AppError k code m fs ca)) = JsonBody (enc_ErrorBody \<lparr>Error = code, EMessage = m, Fields = fs\<rparr>)"
  by (simp_all add: fail_response_def Fail_def json_response_def toAppError_def)

end
