(* ===== verification/Middleware.thy ===== *)
theory Middleware
  imports Http PlatformAuth AuthDomain
begin

text \<open>
  The middlewares with a decision of their own: the token guard
  (\<^verbatim>\<open>internal/platform/middleware/auth.go\<close>), the key of a rate limit and its refusal
  (\<^verbatim>\<open>ratelimit.go\<close>), the request id (\<^verbatim>\<open>middleware.go\<close>) and the level of the access log
  (\<^verbatim>\<open>logger.go\<close>). Counting requests in a sliding window is Fiber's: whether the limiter lets a
  request through is an argument of \<open>RateLimit\<close>.
\<close>

section \<open>The token guard\<close>

definition bearerPrefix :: string where "bearerPrefix = ''Bearer ''"

definition token_error :: "goerr \<Rightarrow> goerr" where
  "token_error err =
     (if errors_Is err ErrTokenExpired
      then WithCause (Unauthorized ''token_expired'' ''the access token has expired'') err
      else WithCause (Unauthorized ''invalid_token'' ''the access token is not valid'') err)"

definition JWTAuth :: "(string \<Rightarrow> ('w, Claims) proc) \<Rightarrow> 'w handler \<Rightarrow> 'w handler" where
  "JWTAuth verify next c =
     (let header = Authorization c in
      if header = []
      then ret (fail_response (Unauthorized ''missing_token'' ''an access token is required''))
      else if \<not> starts_with bearerPrefix header
      then ret (fail_response (Unauthorized ''invalid_token'' ''the Authorization header must use the Bearer scheme''))
      else let raw = TrimSpace (drop (length bearerPrefix) header) in
      if raw = []
      then ret (fail_response (Unauthorized ''invalid_token'' ''the access token is empty''))
      else or_fail token_error (verify raw) (\<lambda>claims. next (c\<lparr>Local_UserID := Some (Claims_UserID claims)\<rparr>)))"

definition ctx_UserID :: "Ctx \<Rightarrow> int result" where
  "ctx_UserID c =
     (case Local_UserID c of
        Some i \<Rightarrow> (if i \<le> 0 then Err (Unauthorized ''missing_token'' ''an access token is required'') else Ok i)
      | None \<Rightarrow> Err (Unauthorized ''missing_token'' ''an access token is required''))"

section \<open>Rate limits\<close>

definition emailFromBody :: "('a) auth_lib_scheme \<Rightarrow> Ctx \<Rightarrow> string" where
  "emailFromBody lib c =
     (case Option.bind (parse_json (Body c)) (dec_struct [(''email'', dec_string)] []) of
        None \<Rightarrow> []
      | Some email \<Rightarrow> mail_lib.ToLower (auth_lib.truncate lib) (TrimSpace email))"

definition rate_key :: "('a) auth_lib_scheme \<Rightarrow> bool \<Rightarrow> Ctx \<Rightarrow> string" where
  "rate_key lib ByEmail c = (if ByEmail then IP c @ ''|'' @ emailFromBody lib c else IP c)"

definition RateLimit :: "bool \<Rightarrow> 'w handler \<Rightarrow> 'w handler" where
  "RateLimit allowed next c =
     (if allowed then next c
      else ret (fail_response (TooManyRequests ''too_many_requests'' ''too many attempts, please wait a moment and try again'')))"

section \<open>Request id and access log\<close>

definition RequestID :: "string \<Rightarrow> string \<Rightarrow> string" where
  "RequestID uuid header = (if header = [] then uuid else header)"

datatype log_level = LevelDebug | LevelInfo | LevelWarn | LevelError

definition access_level :: "goerr option \<Rightarrow> int \<Rightarrow> log_level" where
  "access_level err response_status =
     (let status = (if err \<noteq> None then StatusFor err else response_status) in
      if status \<ge> 500 then LevelError else if status \<ge> 400 then LevelWarn else LevelInfo)"

section \<open>Lemmas\<close>

lemma keeps_JWTAuth [keeps_intros]:
  "(\<And>raw. keeps I (verify raw)) \<Longrightarrow> (\<And>c. keeps I (next c)) \<Longrightarrow> keeps I (JWTAuth verify next c)"
  unfolding JWTAuth_def Let_def by (intro keeps_intros)

lemma keeps_RateLimit [keeps_intros]: "(\<And>c. keeps I (next c)) \<Longrightarrow> keeps I (RateLimit allowed next c)"
  unfolding RateLimit_def by (intro keeps_intros)

lemma ctx_UserID_Ok [simp]: "ctx_UserID c = Ok i \<longleftrightarrow> Local_UserID c = Some i \<and> 0 < i"
  by (auto simp: ctx_UserID_def split: option.splits)

lemma token_error_status: "HTTPStatus_of_Kind (kind_of_app (token_error err)) = 401"
  by (simp add: token_error_def Unauthorized_def newError_def)

text \<open>A guarded handler runs only on a token that verifies, with the user the token names; otherwise the
  answer is 401. The token is the one of the \<open>Authorization\<close> header.\<close>

lemma JWTAuth_cases:
  assumes "JWTAuth verify next c w = (r, w1)"
  obtains (refused) resp where "r = Ok resp" "Status resp = 401" "w1 = w \<or> (\<exists>raw e. verify raw w = (Err e, w1))"
    | (passed) raw claims w2 where "verify raw w = (Ok claims, w2)"
        "next (c\<lparr>Local_UserID := Some (Claims_UserID claims)\<rparr>) w2 = (r, w1)"
        "starts_with bearerPrefix (Authorization c)" "raw = TrimSpace (drop (length bearerPrefix) (Authorization c))"
    | (panicked) raw m where "verify raw w = (Panic m, w1)" "r = Panic m"
proof -
  let ?raw = "TrimSpace (drop (length bearerPrefix) (Authorization c))"
  have un: "Status (fail_response (Unauthorized a b)) = 401" for a b by (simp add: Unauthorized_def newError_def)
  have te: "Status (fail_response (token_error e)) = 401" for e
    by (simp add: token_error_def Unauthorized_def newError_def)
  consider (early) resp where "JWTAuth verify next c w = (Ok resp, w)" "Status resp = 401"
    | (late) "starts_with bearerPrefix (Authorization c)" "JWTAuth verify next c w = or_fail token_error (verify ?raw)
        (\<lambda>claims. next (c\<lparr>Local_UserID := Some (Claims_UserID claims)\<rparr>)) w"
    unfolding JWTAuth_def Let_def using un by (cases "Authorization c = []"; cases "starts_with bearerPrefix (Authorization c)"; cases "?raw = []") auto
  then show thesis
  proof cases
    case early
    then show thesis using assms refused by auto
  next
    case late
    obtain v w2 where v: "verify ?raw w = (v, w2)" by fastforce
    show thesis
    proof (cases v)
      case (Ok claims)
      then show thesis using late v assms passed by (simp add: or_fail_cases)
    next
      case (Err e)
      then show thesis using late v assms refused te by (auto simp: or_fail_cases)
    next
      case (Panic m)
      then show thesis using late v assms panicked by (simp add: or_fail_cases)
    qed
  qed
qed

end
