(* ===== verification/Validator.thy ===== *)
theory Validator
  imports Http Mail
begin

text \<open>
  The validation of request payloads (\<^verbatim>\<open>internal/shared/validatorx/validatorx.go\<close>): the rules this
  package registers, the translation of the failures of the third-party validator into an
  application error and the messages. The engine of \<^verbatim>\<open>go-playground/validator\<close> and its built-in rules
  are fields of \<open>validator_lib\<close>, as are the Unicode classes.
\<close>

text \<open>A field of a payload: a string, or the pointer to a boolean.\<close>

datatype vvalue = VString string | VBoolPtr "bool option"

type_synonym vfield = "string \<times> (string \<times> string) list \<times> vvalue"

record validator_lib = http_lib +
  builtin :: "string \<Rightarrow> string \<Rightarrow> vvalue \<Rightarrow> bool"
  run_validator :: "(string \<Rightarrow> string \<Rightarrow> vvalue \<Rightarrow> bool) \<Rightarrow> vfield list \<Rightarrow> (string \<times> string \<times> string) list"
  IsLetter :: "nat \<Rightarrow> bool"
  IsDigit :: "nat \<Rightarrow> bool"

section \<open>The rules of this package\<close>

definition validatePassword :: "('a) validator_lib_scheme \<Rightarrow> string \<Rightarrow> bool" where
  "validatePassword lib value \<longleftrightarrow>
     (\<exists>r \<in> set (to_runes value). IsLetter lib r) \<and>
     (\<exists>r \<in> set (to_runes value). \<not> IsLetter lib r \<and> IsDigit lib r)"

definition validateMaxBytes :: "string \<Rightarrow> string \<Rightarrow> bool" where
  "validateMaxBytes param value \<longleftrightarrow>
     (case ParseInt param of None \<Rightarrow> False | Some limit \<Rightarrow> int (length value) \<le> limit)"

definition validateNotBlank :: "string \<Rightarrow> bool" where
  "validateNotBlank value \<longleftrightarrow> TrimSpace value \<noteq> []"

fun string_of :: "vvalue \<Rightarrow> string" where
  "string_of (VString s) = s"
| "string_of (VBoolPtr b) = ''<*bool Value>''"

definition check_rule :: "('a) validator_lib_scheme \<Rightarrow> string \<Rightarrow> string \<Rightarrow> vvalue \<Rightarrow> bool" where
  "check_rule lib tag param v =
     (if tag = ''password'' then validatePassword lib (string_of v)
      else if tag = ''notblank'' then validateNotBlank (string_of v)
      else if tag = ''maxbytes'' then validateMaxBytes param (string_of v)
      else builtin lib tag param v)"

section \<open>Messages\<close>

text \<open>\<open>strings.NewReplacer\<close> over the layout elements; none is a prefix of another.\<close>

definition layout_names :: "(string \<times> string) list" where
  "layout_names = [(''2006'', ''YYYY''), (''01'', ''MM''), (''02'', ''DD''), (''15'', ''hh''), (''04'', ''mm''), (''05'', ''ss'')]"

function humanDateLayout :: "string \<Rightarrow> string" where
  "humanDateLayout [] = []"
| "humanDateLayout (c # cs) =
     (case List.find (\<lambda>p. fst p \<noteq> [] \<and> starts_with (fst p) (c # cs)) layout_names of
        None \<Rightarrow> c # humanDateLayout cs
      | Some p \<Rightarrow> snd p @ humanDateLayout (drop (length (fst p)) (c # cs)))"
  by pat_completeness auto

termination
  by (relation "measure length") (auto simp: find_Some_iff)

definition messageFor :: "string \<Rightarrow> string \<Rightarrow> string" where
  "messageFor tag param =
     (if tag = ''required'' then ''is required''
      else if tag = ''email'' then ''must be a valid email address''
      else if tag = ''min'' then ''must be at least '' @ param @ '' characters long''
      else if tag = ''max'' then ''must be at most '' @ param @ '' characters long''
      else if tag = ''maxbytes''
      then ''must be at most '' @ param @ '' bytes long; accented and Japanese characters count as more than one''
      else if tag = ''password'' then ''must contain at least one letter and one digit''
      else if tag = ''notblank'' then ''must not be blank''
      else if tag = ''oneof'' then ''must be one of: '' @ replace_all '' '' '', '' param
      else if tag = ''datetime'' then ''must be a date in the form '' @ humanDateLayout param
      else if tag = ''json'' then ''must be valid JSON''
      else ''failed the '' @ [quote_char] @ tag @ [quote_char] @ '' rule'')"

section \<open>Validating a payload\<close>

definition validator_Struct :: "('a) validator_lib_scheme \<Rightarrow> vfield list \<Rightarrow> unit result" where
  "validator_Struct lib fds =
     (case run_validator lib (check_rule lib) fds of
        [] \<Rightarrow> Ok ()
      | failures \<Rightarrow>
          Err (WithFields (WithCause (Validation ''validation_failed'' ''the request payload is invalid'') (LibError ''validator''))
                 (map (\<lambda>(field, tag, param). \<lparr>Field = field, Rule = tag, Message = messageFor tag param\<rparr>) failures)))"

section \<open>What the validator documents\<close>

text \<open>No failure is reported exactly when every rule of every field holds; the rules of a field are
  read from the left and stop at \<open>omitempty\<close> when the field has its zero value.\<close>

fun zero_value :: "vvalue \<Rightarrow> bool" where
  "zero_value (VString s) = (s = [])"
| "zero_value (VBoolPtr b) = (b = None)"

fun rules_hold :: "(string \<Rightarrow> string \<Rightarrow> vvalue \<Rightarrow> bool) \<Rightarrow> (string \<times> string) list \<Rightarrow> vvalue \<Rightarrow> bool" where
  "rules_hold check [] v = True"
| "rules_hold check ((tag, param) # rules) v =
     (if tag = ''omitempty'' then zero_value v \<or> rules_hold check rules v
      else check tag param v \<and> rules_hold check rules v)"

definition validator_reports :: "('a) validator_lib_scheme \<Rightarrow> bool" where
  "validator_reports lib \<longleftrightarrow>
     (\<forall>check fds. run_validator lib check fds = [] \<longleftrightarrow>
        (\<forall>f \<in> set fds. rules_hold check (fst (snd f)) (snd (snd f))))"

text \<open>The rules used here: presence, lengths in characters, choice, digits.\<close>

definition builtin_documented :: "('a) validator_lib_scheme \<Rightarrow> bool" where
  "builtin_documented lib \<longleftrightarrow>
     (\<forall>p v. builtin lib ''required'' p v \<longleftrightarrow> \<not> zero_value v) \<and>
     (\<forall>p n s. ParseInt p = Some n \<longrightarrow>
        (builtin lib ''min'' p (VString s) \<longleftrightarrow> n \<le> int (length (to_runes s))) \<and>
        (builtin lib ''max'' p (VString s) \<longleftrightarrow> int (length (to_runes s)) \<le> n) \<and>
        (builtin lib ''len'' p (VString s) \<longleftrightarrow> int (length (to_runes s)) = n))"

lemma validator_Struct_Ok:
  assumes "validator_reports lib"
  shows "validator_Struct lib fds = Ok () \<longleftrightarrow>
    (\<forall>f \<in> set fds. rules_hold (check_rule lib) (fst (snd f)) (snd (snd f)))"
proof -
  have "validator_Struct lib fds = Ok () \<longleftrightarrow> run_validator lib (check_rule lib) fds = []"
    by (simp add: validator_Struct_def Validation_def newError_def split: list.split)
  with assms show ?thesis by (simp add: validator_reports_def)
qed

lemma validator_Struct_Err:
  "validator_Struct lib fds = Err e \<Longrightarrow> \<exists>fs ca. e = AppError KindValidation ''validation_failed'' ''the request payload is invalid'' fs ca \<and> fs \<noteq> []"
  by (auto simp: validator_Struct_def Validation_def newError_def split: list.splits)

end
