(* ===== verification/ProgressHandler.thy ===== *)
theory ProgressHandler
  imports ProgressService Middleware Validator
begin

text \<open>
  The transport layer of the progress module (\<^verbatim>\<open>internal/modules/progress/handler.go\<close>,
  \<^verbatim>\<open>dto.go\<close>): the typed payloads, the mapping of the domain errors and one handler per route. A
  successful answer is the stored document itself, byte for byte.
\<close>

section \<open>Payloads\<close>

record AnswerRequest =
  rq_Kana :: string
  rq_Skill :: string
  rq_Correct :: "bool option"
  rq_Chosen :: string

definition dec_AnswerRequest :: "json \<Rightarrow> AnswerRequest option" where
  "dec_AnswerRequest =
     dec_struct
       [(''kana'', field rq_Kana rq_Kana_update dec_string), (''skill'', field rq_Skill rq_Skill_update dec_string),
        (''correct'', \<lambda>r j. map_option (\<lambda>v. r\<lparr>rq_Correct := v\<rparr>) (dec_pointer (dec_bool False) j)),
        (''chosen'', field rq_Chosen rq_Chosen_update dec_string)]
       \<lparr>rq_Kana = [], rq_Skill = [], rq_Correct = None, rq_Chosen = []\<rparr>"

definition rules_AnswerRequest :: "AnswerRequest \<Rightarrow> vfield list" where
  "rules_AnswerRequest r =
     [(''kana'', [(''required'', []), (''max'', ''12'')], VString (rq_Kana r)),
      (''skill'', [(''required'', []), (''oneof'', ''recognition writing listening reading'')], VString (rq_Skill r)),
      (''correct'', [(''required'', [])], VBoolPtr (rq_Correct r)),
      (''chosen'', [(''omitempty'', []), (''maxbytes'', ''32'')], VString (rq_Chosen r))]"

definition answer_of :: "AnswerRequest \<Rightarrow> Answer" where
  "answer_of r =
     \<lparr>Kana = rq_Kana r, ASkill = rq_Skill r, Correct = (rq_Correct r = Some True), Chosen = TrimSpace (rq_Chosen r)\<rparr>"

record LessonCompleteRequest =
  rq_LessonID :: string

definition dec_LessonCompleteRequest :: "json \<Rightarrow> LessonCompleteRequest option" where
  "dec_LessonCompleteRequest =
     dec_struct [(''lessonId'', field rq_LessonID rq_LessonID_update dec_string)] \<lparr>rq_LessonID = []\<rparr>"

definition rules_LessonCompleteRequest :: "LessonCompleteRequest \<Rightarrow> vfield list" where
  "rules_LessonCompleteRequest r =
     [(''lessonId'', [(''required'', []), (''max'', ''64'')], VString (rq_LessonID r))]"

text \<open>A copy of the bytes; an empty body is a nil document.\<close>

definition documentFromBody :: "string \<Rightarrow> string" where
  "documentFromBody body = body"

section \<open>Errors\<close>

definition progress_toHTTPError :: "goerr \<Rightarrow> goerr" where
  "progress_toHTTPError err =
     (if errors_Is err ErrProgressNotFound
      then WithCause (NotFound ''progress_not_found'' ''no progress has been saved yet'') err
      else if errors_Is err ErrUnknownOwner
      then WithCause (Unauthorized ''invalid_token'' ''the account in the access token no longer exists'') err
      else if errors_Is err ErrInvalidAnswer
      then WithCause (Validation ''invalid_answer'' ''the kana or the skill is not one this server can score'') err
      else if errors_Is err ErrProtectedField
      then WithCause (Validation ''protected_field'' ''that field is maintained by the server and cannot be patched'') err
      else if errors_Is err ErrUnreadablePatch
      then WithCause (Validation ''invalid_patch'' ''the patch must be a JSON object of fields to merge'') err
      else if errors_Is err ErrEmptyPatch
      then WithCause (Validation ''empty_patch'' ''the patch must be a JSON object with at least one field'') err
      else if errors_Is err ErrInvalidLesson
      then WithCause (Validation ''invalid_lesson'' ''the lesson identifier is not valid'') err
      else if errors_Is err ErrUnsupportedSchema
      then WithCause (Conflict ''unsupported_schema_version''
             ''the stored document uses a schema version this server does not support'') err
      else if errors_Is err ErrUnreadableDocument
      then WithCause (Conflict ''unreadable_document''
             ''the stored document cannot be read; replace it with PUT /progress'') err
      else err)"

section \<open>Handlers\<close>

definition send_document :: "Progress \<Rightarrow> response" where
  "send_document p = \<lparr>Status = 200, Payload = RawBody (Data p)\<rparr>"

definition handle_Get :: "'w Service \<Rightarrow> 'w handler" where
  "handle_Get s c =
     or_fail id (lift (ctx_UserID c)) (\<lambda>userID.
     or_fail progress_toHTTPError (Get s userID) (\<lambda>found. ret (send_document found)))"

definition handle_Save :: "'w Service \<Rightarrow> 'w handler" where
  "handle_Save s c =
     or_fail id (lift (ctx_UserID c)) (\<lambda>userID.
     or_fail progress_toHTTPError (Save s userID (documentFromBody (Body c))) (\<lambda>saved. ret (send_document saved)))"

definition handle_Merge :: "'w Service \<Rightarrow> 'w handler" where
  "handle_Merge s c =
     or_fail id (lift (ctx_UserID c)) (\<lambda>userID.
     or_fail progress_toHTTPError (Merge s userID (documentFromBody (Body c))) (\<lambda>saved. ret (send_document saved)))"

definition handle_Answer :: "('a) validator_lib_scheme \<Rightarrow> 'w Service \<Rightarrow> 'w handler" where
  "handle_Answer lib s c =
     or_fail id (lift (ctx_UserID c)) (\<lambda>userID.
     or_fail id (lift (ParseBody lib dec_AnswerRequest c)) (\<lambda>req.
     or_fail id (lift (validator_Struct lib (rules_AnswerRequest req))) (\<lambda>_.
     or_fail progress_toHTTPError (RecordAnswer s userID (answer_of req)) (\<lambda>saved. ret (send_document saved)))))"

definition handle_CompleteLesson :: "('a) validator_lib_scheme \<Rightarrow> 'w Service \<Rightarrow> 'w handler" where
  "handle_CompleteLesson lib s c =
     or_fail id (lift (ctx_UserID c)) (\<lambda>userID.
     or_fail id (lift (ParseBody lib dec_LessonCompleteRequest c)) (\<lambda>req.
     or_fail id (lift (validator_Struct lib (rules_LessonCompleteRequest req))) (\<lambda>_.
     or_fail progress_toHTTPError (CompleteLesson s userID (rq_LessonID req)) (\<lambda>saved. ret (send_document saved)))))"

section \<open>Lemmas\<close>

lemmas handle_defs = handle_Get_def handle_Save_def handle_Merge_def handle_Answer_def handle_CompleteLesson_def

text \<open>A success carries the document the service returned.\<close>

lemma handle_Get_success:
  assumes "handle_Get s c w = (Ok resp, w1)" "Status resp < 300"
  shows "\<exists>u p. Local_UserID c = Some u \<and> Get s u w = (Ok p, w1) \<and> Payload resp = RawBody (Data p)"
  using assms unfolding handle_Get_def
  by (elim or_fail_success) (auto simp: send_document_def elim!: or_fail_success)

lemma handle_Save_success:
  assumes "handle_Save s c w = (Ok resp, w1)" "Status resp < 300"
  shows "\<exists>u p. Local_UserID c = Some u \<and> Save s u (Body c) w = (Ok p, w1) \<and> Payload resp = RawBody (Data p)"
  using assms unfolding handle_Save_def
  by (elim or_fail_success) (auto simp: send_document_def documentFromBody_def elim!: or_fail_success)

lemma handle_Answer_success:
  assumes "handle_Answer lib s c w = (Ok resp, w1)" "Status resp < 300"
  shows "\<exists>u req p. Local_UserID c = Some u \<and> BodyParser lib dec_AnswerRequest c = Some req \<and>
    validator_Struct lib (rules_AnswerRequest req) = Ok () \<and> RecordAnswer s u (answer_of req) w = (Ok p, w1) \<and>
    Payload resp = RawBody (Data p)"
  using assms unfolding handle_Answer_def
  by (elim or_fail_success) (auto simp: send_document_def ParseBody_def split: option.splits elim!: or_fail_success)

end
