(* ===== verification/AuthHandler.thy ===== *)
theory AuthHandler
  imports AuthService Middleware Validator
begin

text \<open>
  The transport layer of the authentication module (\<^verbatim>\<open>internal/modules/auth/handler.go\<close>,
  \<^verbatim>\<open>dto.go\<close>): payloads and their rules, the projections sent to the client, the mapping of the
  domain errors and one handler per route. \<open>time.Until\<close> reads the same clock as the service.
\<close>

section \<open>Calendar days on the wire\<close>

definition format_date :: "int \<Rightarrow> string" where
  "format_date n =
     (case date_of n of (y, m, d) \<Rightarrow>
        (if y < 0 then CHR ''-'' # pad 4 (- y) else pad 4 y) @ CHR ''-'' # pad 2 m @ CHR ''-'' # pad 2 d)"

text \<open>\<open>time.Parse("2006-01-02", s)\<close>: the day number.\<close>

definition parse_date :: "string \<Rightarrow> int option" where
  "parse_date s =
     Option.bind (take_digits 4 s) (\<lambda>(y, s).
     Option.bind (take_char CHR ''-'' s) (\<lambda>s.
     Option.bind (Option.bind (take_digits 2 s) (in_bounds 1 12)) (\<lambda>(m, s).
     Option.bind (take_char CHR ''-'' s) (\<lambda>s.
     Option.bind (Option.bind (take_digits 2 s) (in_bounds 1 (days_in_month y m))) (\<lambda>(d, s).
       if s = [] then Some (day_number y m d) else None)))))"

text \<open>A \<open>time.Time\<close> at midnight UTC as the model of \<open>Profile\<close> has it: the zero time is \<^term>\<open>None\<close>.\<close>

definition birth_date :: "int \<Rightarrow> int option" where
  "birth_date n = (if n = day_number 1 1 1 then None else Some n)"

section \<open>Request payloads\<close>

definition dec_Credentials :: "json \<Rightarrow> Credentials option" where
  "dec_Credentials =
     dec_struct [(''email'', field C_Email C_Email_update dec_string), (''password'', field Password Password_update dec_string)]
       \<lparr>C_Email = [], Password = []\<rparr>"

definition email_rules :: "(string \<times> string) list" where
  "email_rules = [(''required'', []), (''email'', []), (''max'', ''255'')]"

definition new_password_rules :: "(string \<times> string) list" where
  "new_password_rules = [(''required'', []), (''min'', ''8''), (''maxbytes'', ''72''), (''password'', [])]"

text \<open>\<open>RegisterRequest\<close> and \<open>LoginRequest\<close> have the fields of \<open>Credentials\<close> and rules of their own.\<close>

definition rules_RegisterRequest :: "Credentials \<Rightarrow> vfield list" where
  "rules_RegisterRequest r =
     [(''email'', email_rules, VString (C_Email r)), (''password'', new_password_rules, VString (Password r))]"

definition rules_LoginRequest :: "Credentials \<Rightarrow> vfield list" where
  "rules_LoginRequest r =
     [(''email'', email_rules, VString (C_Email r)),
      (''password'', [(''required'', []), (''maxbytes'', ''72'')], VString (Password r))]"

record ProfileRequest =
  rq_Name :: string
  rq_Gender :: string
  rq_Birthday :: string
  rq_Timezone :: string

definition dec_ProfileRequest :: "json \<Rightarrow> ProfileRequest option" where
  "dec_ProfileRequest =
     dec_struct
       [(''name'', field rq_Name rq_Name_update dec_string), (''gender'', field rq_Gender rq_Gender_update dec_string),
        (''birthday'', field rq_Birthday rq_Birthday_update dec_string),
        (''timezone'', field rq_Timezone rq_Timezone_update dec_string)]
       \<lparr>rq_Name = [], rq_Gender = [], rq_Birthday = [], rq_Timezone = []\<rparr>"

definition rules_ProfileRequest :: "ProfileRequest \<Rightarrow> vfield list" where
  "rules_ProfileRequest r =
     [(''name'', [(''required'', []), (''notblank'', []), (''min'', ''1''), (''max'', ''80'')], VString (rq_Name r)),
      (''gender'', [(''required'', []), (''oneof'', ''male female neutral'')], VString (rq_Gender r)),
      (''birthday'', [(''omitempty'', []), (''datetime'', ''2006-01-02'')], VString (rq_Birthday r)),
      (''timezone'', [(''omitempty'', []), (''max'', ''64'')], VString (rq_Timezone r))]"

definition profile_of_request :: "ProfileRequest \<Rightarrow> Profile result" where
  "profile_of_request r =
     (let result = \<lparr>Name = rq_Name r, Gender_of = rq_Gender r, BirthDate = None, Timezone = rq_Timezone r\<rparr> in
      if TrimSpace (rq_Birthday r) = [] then Ok result
      else case parse_date (rq_Birthday r) of
             None \<Rightarrow> Err (WithCause (Validation ''invalid_profile'' ''the birthday must be a date in the form YYYY-MM-DD'')
                       (LibError ''time.Parse''))
           | Some n \<Rightarrow> Ok (result\<lparr>BirthDate := birth_date n\<rparr>))"

record VerifyEmailRequest =
  rq_Email :: string
  rq_Code :: string

definition dec_VerifyEmailRequest :: "json \<Rightarrow> VerifyEmailRequest option" where
  "dec_VerifyEmailRequest =
     dec_struct [(''email'', field rq_Email rq_Email_update dec_string), (''code'', field rq_Code rq_Code_update dec_string)]
       \<lparr>rq_Email = [], rq_Code = []\<rparr>"

definition rules_VerifyEmailRequest :: "VerifyEmailRequest \<Rightarrow> vfield list" where
  "rules_VerifyEmailRequest r =
     [(''email'', email_rules, VString (rq_Email r)),
      (''code'', [(''required'', []), (''len'', ''6''), (''number'', [])], VString (rq_Code r))]"

text \<open>\<open>ResendVerificationRequest\<close> and \<open>ForgotPasswordRequest\<close>: an address.\<close>

definition dec_EmailRequest :: "json \<Rightarrow> string option" where
  "dec_EmailRequest = dec_struct [(''email'', dec_string)] []"

definition rules_EmailRequest :: "string \<Rightarrow> vfield list" where
  "rules_EmailRequest email = [(''email'', email_rules, VString email)]"

record ResetPasswordRequest =
  rq_Token :: string
  rq_Password :: string

definition dec_ResetPasswordRequest :: "json \<Rightarrow> ResetPasswordRequest option" where
  "dec_ResetPasswordRequest =
     dec_struct [(''token'', field rq_Token rq_Token_update dec_string), (''password'', field rq_Password rq_Password_update dec_string)]
       \<lparr>rq_Token = [], rq_Password = []\<rparr>"

definition rules_ResetPasswordRequest :: "ResetPasswordRequest \<Rightarrow> vfield list" where
  "rules_ResetPasswordRequest r =
     [(''token'', [(''required'', []), (''max'', ''128'')], VString (rq_Token r)),
      (''password'', new_password_rules, VString (rq_Password r))]"

section \<open>Projections\<close>

definition enc_profile :: "Profile \<Rightarrow> json" where
  "enc_profile p =
     json_object [(''name'', Some (enc_string (Name p))), (''gender'', Some (enc_string (Gender_of p))),
       (''birthday'', map_option (\<lambda>d. enc_string (format_date d)) (BirthDate p)), (''timezone'', omit_empty (Timezone p))]"

text \<open>\<open>NewUserResponse\<close>: no password hash; a profile only once it is complete.\<close>

definition NewUserResponse :: "User \<Rightarrow> json option" where
  "NewUserResponse u =
     map_option (\<lambda>created_at.
       json_object [(''id'', Some (enc_int (User_ID u))), (''email'', Some (enc_string (Email u))),
         (''emailVerified'', Some (JBool (EmailVerified u))), (''createdAt'', Some created_at),
         (''lastActiveDate'', map_option (\<lambda>d. enc_string (format_date d)) (LastActiveDate (Activity_of u))),
         (''distinctLoginDays'', Some (enc_int (DistinctLoginDays (Activity_of u)))),
         (''streakDays'', Some (enc_int (StreakDays (Activity_of u)))),
         (''profile'', Some (if Profile_Complete (Profile_of u) then enc_profile (Profile_of u) else JNull))])
       (enc_time (of_seconds (User_CreatedAt u)))"

text \<open>\<open>json.RawMessage\<close> is parsed again when the response is marshalled; nil is null.\<close>

definition newMeResponse :: "Me \<Rightarrow> json option" where
  "newMeResponse me =
     Option.bind (NewUserResponse (Me_User me)) (\<lambda>user.
     Option.bind (case Me_Progress me of None \<Rightarrow> Some JNull | Some d \<Rightarrow> parse_json d) (\<lambda>progress.
       Some (json_object [(''user'', Some user), (''progress'', Some progress)])))"

text \<open>\<open>int64(time.Until(t).Seconds())\<close> truncates towards zero.\<close>

definition seconds_until :: "gotime \<Rightarrow> gotime \<Rightarrow> int" where
  "seconds_until t at = (Nanos t - Nanos at) sdiv 1000000000"

definition newSessionResponse :: "gotime \<Rightarrow> Session \<Rightarrow> json option" where
  "newSessionResponse at session =
     Option.bind (NewUserResponse (S_User session)) (\<lambda>user.
       if Token session = []
       then Some (json_object [(''pendingVerification'', Some (JBool True)), (''user'', Some user)])
       else Option.bind (enc_time (ExpiresAt session)) (\<lambda>expiry.
         let expiresIn = seconds_until (ExpiresAt session) at in
         Some (json_object [(''token'', Some (enc_string (Token session))), (''tokenType'', Some (enc_string ''Bearer'')),
           (''expiresAt'', Some expiry), (''expiresIn'', if expiresIn = 0 then None else Some (enc_int expiresIn)),
           (''pendingVerification'', Some (JBool False)), (''user'', Some user)])))"

definition send_session :: "(json option \<Rightarrow> response result) \<Rightarrow> Session \<Rightarrow> (world, response) proc" where
  "send_session send session =
     (if Token session = [] then lift (send (newSessionResponse zero_time session))
      else andThen read_clock (\<lambda>at. lift (send (newSessionResponse at session))))"

section \<open>Errors\<close>

definition auth_toHTTPError :: "goerr \<Rightarrow> goerr" where
  "auth_toHTTPError err =
     (if errors_Is err ErrEmailAlreadyExists
      then WithCause (Conflict ''email_already_registered'' ''that email is already registered'') err
      else if errors_Is err ErrInvalidCredentials
      then WithCause (Unauthorized ''invalid_credentials'' ''the email or password is incorrect'') err
      else if errors_Is err ErrUserNotFound
      then WithCause (NotFound ''user_not_found'' ''the user does not exist'') err
      else if errors_Is err ErrInvalidVerificationCode
      then WithCause (Validation ''invalid_verification_code'' ''the verification code is not valid or has expired'') err
      else if errors_Is err ErrEmailAlreadyVerified
      then WithCause (Conflict ''email_already_verified'' ''this address is already verified, please sign in'') err
      else if errors_Is err ErrEmailNotVerified
      then WithCause (Forbidden ''email_not_verified'' ''confirm your email address before signing in'') err
      else if errors_Is err ErrInvalidResetToken
      then WithCause (Validation ''invalid_reset_token'' ''this reset link is not valid or has expired'') err
      else err)"

section \<open>Handlers\<close>

text \<open>The body of the request, parsed and validated.\<close>

definition parsed :: "('a) validator_lib_scheme \<Rightarrow> (json \<Rightarrow> 'r option) \<Rightarrow> ('r \<Rightarrow> vfield list) \<Rightarrow> Ctx \<Rightarrow>
    ('r \<Rightarrow> (world, response) proc) \<Rightarrow> (world, response) proc" where
  "parsed lib dec rules c k =
     or_fail id (lift (ParseBody lib dec c)) (\<lambda>req.
     or_fail id (lift (validator_Struct lib (rules req))) (\<lambda>_. k req))"

definition handle_Register :: "('a) validator_lib_scheme \<Rightarrow> world AuthService \<Rightarrow> world handler" where
  "handle_Register lib s c =
     parsed lib dec_Credentials rules_RegisterRequest c (\<lambda>req.
     or_fail auth_toHTTPError (Register s req) (\<lambda>session. send_session Created session))"

definition handle_Login :: "('a) validator_lib_scheme \<Rightarrow> world AuthService \<Rightarrow> world handler" where
  "handle_Login lib s c =
     parsed lib dec_Credentials rules_LoginRequest c (\<lambda>req.
     or_fail auth_toHTTPError (Login s req) (\<lambda>session. send_session OK session))"

definition handle_VerifyEmail :: "('a) validator_lib_scheme \<Rightarrow> world AuthService \<Rightarrow> world handler" where
  "handle_VerifyEmail lib s c =
     parsed lib dec_VerifyEmailRequest rules_VerifyEmailRequest c (\<lambda>req.
     or_fail auth_toHTTPError (VerifyEmail s (rq_Email req) (rq_Code req)) (\<lambda>session. send_session OK session))"

definition handle_ResendVerification :: "('a) validator_lib_scheme \<Rightarrow> world AuthService \<Rightarrow> world handler" where
  "handle_ResendVerification lib s c =
     parsed lib dec_EmailRequest rules_EmailRequest c (\<lambda>email.
     or_fail auth_toHTTPError (ResendVerification s email) (\<lambda>_. lift NoContent))"

definition handle_ForgotPassword :: "('a) validator_lib_scheme \<Rightarrow> world AuthService \<Rightarrow> world handler" where
  "handle_ForgotPassword lib s c =
     parsed lib dec_EmailRequest rules_EmailRequest c (\<lambda>email.
     or_fail auth_toHTTPError (ForgotPassword s email) (\<lambda>_. lift NoContent))"

definition handle_ResetPassword :: "('a) validator_lib_scheme \<Rightarrow> world AuthService \<Rightarrow> world handler" where
  "handle_ResetPassword lib s c =
     parsed lib dec_ResetPasswordRequest rules_ResetPasswordRequest c (\<lambda>req.
     or_fail auth_toHTTPError (ResetPassword s (rq_Token req) (rq_Password req)) (\<lambda>_. lift NoContent))"

definition handle_Me :: "world AuthService \<Rightarrow> world handler" where
  "handle_Me s c =
     or_fail id (lift (ctx_UserID c)) (\<lambda>userID.
     or_fail auth_toHTTPError (service_Me s userID) (\<lambda>me. lift (OK (newMeResponse me))))"

definition handle_SaveProfile :: "('a) validator_lib_scheme \<Rightarrow> world AuthService \<Rightarrow> world handler" where
  "handle_SaveProfile lib s c =
     or_fail id (lift (ctx_UserID c)) (\<lambda>userID.
     parsed lib dec_ProfileRequest rules_ProfileRequest c (\<lambda>req.
     or_fail auth_toHTTPError (lift (profile_of_request req)) (\<lambda>profile.
     or_fail auth_toHTTPError (SaveProfile s userID profile) (\<lambda>saved. lift (OK (NewUserResponse saved))))))"

definition handle_Logout :: "world handler" where
  "handle_Logout c = lift NoContent"

section \<open>Lemmas\<close>

lemma keeps_parsed [keeps_intros]: "(\<And>req. keeps I (k req)) \<Longrightarrow> keeps I (parsed lib dec rules c k)"
  unfolding parsed_def by (intro keeps_intros)

lemma parsed_cases:
  obtains (refused) resp where "parsed lib dec rules c k w = (Ok resp, w)" "Status resp = 400"
    | (run) req where "BodyParser lib dec c = Some req" "validator_Struct lib (rules req) = Ok ()" "parsed lib dec rules c k w = k req w"
proof (cases "BodyParser lib dec c")
  case None
  then show thesis using refused
    by (simp add: parsed_def ParseBody_def Validation_def newError_def)
next
  case (Some req)
  show thesis
  proof (cases "validator_Struct lib (rules req)")
    case (Ok u)
    then show thesis using Some run by (simp add: parsed_def ParseBody_def)
  next
    case (Err e)
    then show thesis using Some refused validator_Struct_Err [OF Err] by (auto simp: parsed_def ParseBody_def)
  next
    case (Panic m)
    then show thesis by (simp add: validator_Struct_def split: list.splits)
  qed
qed

text \<open>A success comes from a payload that was parsed and validated and a use case that returned.\<close>

lemma parsed_success:
  assumes "parsed lib dec rules c k w = (Ok resp, w1)" "Status resp < 300"
  obtains req where "BodyParser lib dec c = Some req" "validator_Struct lib (rules req) = Ok ()" "k req w = (Ok resp, w1)"
  using assms by (cases rule: parsed_cases [of lib dec rules c k w]) auto

lemma handle_Login_success:
  assumes "handle_Login lib s c w = (Ok resp, w1)" "Status resp < 300"
  shows "\<exists>req sess w2. BodyParser lib dec_Credentials c = Some req \<and> validator_Struct lib (rules_LoginRequest req) = Ok () \<and>
    Login s req w = (Ok sess, w2) \<and> send_session OK sess w2 = (Ok resp, w1)"
  using assms unfolding handle_Login_def by (elim parsed_success or_fail_success) auto

lemma handle_Register_success:
  assumes "handle_Register lib s c w = (Ok resp, w1)" "Status resp < 300"
  shows "\<exists>req sess w2. BodyParser lib dec_Credentials c = Some req \<and> validator_Struct lib (rules_RegisterRequest req) = Ok () \<and>
    Register s req w = (Ok sess, w2) \<and> send_session Created sess w2 = (Ok resp, w1)"
  using assms unfolding handle_Register_def by (elim parsed_success or_fail_success) auto

lemma handle_VerifyEmail_success:
  assumes "handle_VerifyEmail lib s c w = (Ok resp, w1)" "Status resp < 300"
  shows "\<exists>req sess w2. BodyParser lib dec_VerifyEmailRequest c = Some req \<and>
    VerifyEmail s (rq_Email req) (rq_Code req) w = (Ok sess, w2) \<and> send_session OK sess w2 = (Ok resp, w1)"
  using assms unfolding handle_VerifyEmail_def by (elim parsed_success or_fail_success) auto

lemma handle_ResetPassword_success:
  assumes "handle_ResetPassword lib s c w = (Ok resp, w1)" "Status resp < 300"
  shows "\<exists>req. BodyParser lib dec_ResetPasswordRequest c = Some req \<and> validator_Struct lib (rules_ResetPasswordRequest req) = Ok () \<and>
    ResetPassword s (rq_Token req) (rq_Password req) w = (Ok (), w1)"
  using assms unfolding handle_ResetPassword_def by (elim parsed_success or_fail_success) auto

lemma send_session_state: "send_session send sess w = (r, w1) \<Longrightarrow> db w1 = db w \<and> collation_key w1 = collation_key w"
  by (auto simp: send_session_def andThen_def read_clock_def split: if_splits list.splits)

end
