(* ===== verification/Api.thy ===== *)
theory Api
  imports Composition ProgressHandler AuthHandler
begin

text \<open>
  The whole API: the routes with their guards (\<^verbatim>\<open>routes.go\<close> of both modules,
  \<^verbatim>\<open>cmd/api/main.go\<close>) over the wired services, and the requests the server goes through as steps on
  the world. Which route a request matches and whether a limiter lets it through are Fiber's, and
  inputs of \<open>serve\<close>.
\<close>

section \<open>Routes\<close>

datatype endpoint =
    EP_Register | EP_Login | EP_Logout | EP_VerifyEmail | EP_ResendVerification | EP_ForgotPassword | EP_ResetPassword
  | EP_Me | EP_SaveProfile | EP_GetProgress | EP_SaveProgress | EP_MergeProgress | EP_Answer | EP_CompleteLesson

datatype bucket = LoginBucket | RegisterBucket | EmailBucket | VerifyBucket

datatype guard = Authenticated | Throttled bucket

definition apiPrefix :: string where "apiPrefix = ''/api''"

text \<open>Method, path below the prefix, guards in their order.\<close>

fun route_of :: "endpoint \<Rightarrow> string \<times> string \<times> guard list" where
  "route_of EP_Register = (''POST'', ''/auth/register'', [Throttled RegisterBucket])"
| "route_of EP_Login = (''POST'', ''/auth/login'', [Throttled LoginBucket])"
| "route_of EP_Logout = (''POST'', ''/auth/logout'', [])"
| "route_of EP_VerifyEmail = (''POST'', ''/auth/verify-email'', [Throttled VerifyBucket])"
| "route_of EP_ResendVerification = (''POST'', ''/auth/resend-verification'', [Throttled EmailBucket])"
| "route_of EP_ForgotPassword = (''POST'', ''/auth/forgot-password'', [Throttled EmailBucket])"
| "route_of EP_ResetPassword = (''POST'', ''/auth/reset-password'', [Throttled VerifyBucket])"
| "route_of EP_Me = (''GET'', ''/me'', [Authenticated])"
| "route_of EP_SaveProfile = (''PUT'', ''/profile'', [Authenticated])"
| "route_of EP_GetProgress = (''GET'', ''/progress'', [Authenticated])"
| "route_of EP_SaveProgress = (''PUT'', ''/progress'', [Authenticated])"
| "route_of EP_MergeProgress = (''PATCH'', ''/progress'', [Authenticated])"
| "route_of EP_Answer = (''POST'', ''/progress/answer'', [Authenticated])"
| "route_of EP_CompleteLesson = (''POST'', ''/progress/lesson-complete'', [Authenticated])"

definition guards_of :: "endpoint \<Rightarrow> guard list" where
  "guards_of e = snd (snd (route_of e))"

text \<open>The buckets of \<open>cmd/api/main.go\<close>: their limits and what keys them.\<close>

definition bucket_config :: "RateLimitConfig \<Rightarrow> bucket \<Rightarrow> (int \<times> int \<times> bool) option" where
  "bucket_config r b =
     (if \<not> limit_Enabled r then None
      else Some (case b of
          LoginBucket \<Rightarrow> (limit_LoginMax r, limit_LoginWindow r, False)
        | RegisterBucket \<Rightarrow> (limit_RegisterMax r, limit_RegisterWindow r, False)
        | EmailBucket \<Rightarrow> (limit_EmailMax r, limit_EmailWindow r, True)
        | VerifyBucket \<Rightarrow> (limit_LoginMax r, limit_LoginWindow r, False)))"

section \<open>Serving a request\<close>

record api =
  api_auth :: auth_lib
  api_crypto :: crypto_lib
  api_validator :: validator_lib
  api_config :: Config

definition services :: "api \<Rightarrow> world AuthService \<times> world Service" where
  "services a =
     (wired_auth (api_auth a) (api_crypto a) (api_config a), wired_progress (api_auth a) (api_crypto a) (api_config a))"

fun handler_of :: "api \<Rightarrow> endpoint \<Rightarrow> world handler" where
  "handler_of a EP_Register = handle_Register (api_validator a) (fst (services a))"
| "handler_of a EP_Login = handle_Login (api_validator a) (fst (services a))"
| "handler_of a EP_Logout = handle_Logout"
| "handler_of a EP_VerifyEmail = handle_VerifyEmail (api_validator a) (fst (services a))"
| "handler_of a EP_ResendVerification = handle_ResendVerification (api_validator a) (fst (services a))"
| "handler_of a EP_ForgotPassword = handle_ForgotPassword (api_validator a) (fst (services a))"
| "handler_of a EP_ResetPassword = handle_ResetPassword (api_validator a) (fst (services a))"
| "handler_of a EP_Me = handle_Me (fst (services a))"
| "handler_of a EP_SaveProfile = handle_SaveProfile (api_validator a) (fst (services a))"
| "handler_of a EP_GetProgress = handle_Get (snd (services a))"
| "handler_of a EP_SaveProgress = handle_Save (snd (services a))"
| "handler_of a EP_MergeProgress = handle_Merge (snd (services a))"
| "handler_of a EP_Answer = handle_Answer (api_validator a) (snd (services a))"
| "handler_of a EP_CompleteLesson = handle_CompleteLesson (api_validator a) (snd (services a))"

text \<open>The guards run in order; a bucket that is switched off lets everything through.\<close>

fun guarded :: "api \<Rightarrow> (bucket \<Rightarrow> bool) \<Rightarrow> guard list \<Rightarrow> world handler \<Rightarrow> world handler" where
  "guarded a allowed [] h = h"
| "guarded a allowed (Authenticated # gs) h =
     JWTAuth (jwt_Verify (api_crypto a) (wired_tokens (api_config a))) (guarded a allowed gs h)"
| "guarded a allowed (Throttled b # gs) h =
     RateLimit (bucket_config (cfg_RateLimit (api_config a)) b = None \<or> allowed b) (guarded a allowed gs h)"

text \<open>A request arrives with no user in its locals. \<open>None\<close> is a request no route matches.\<close>

definition serve :: "api \<Rightarrow> (bucket \<Rightarrow> bool) \<Rightarrow> endpoint option \<Rightarrow> Ctx \<Rightarrow> world \<Rightarrow> response \<times> world" where
  "serve a allowed e c w =
     (case e of
        None \<Rightarrow> (ErrorHandler (FiberError 404 ''Not Found''), w)
      | Some e \<Rightarrow> (case guarded a allowed (guards_of e) (handler_of a e) (c\<lparr>Local_UserID := None\<rparr>) w of
                     (r, w1) \<Rightarrow> (render_outcome r, w1)))"

section \<open>Frames of the handlers\<close>

lemma keeps_send_session [keeps_intros]: "keeps I read_clock \<Longrightarrow> keeps I (send_session send session)"
  unfolding send_session_def by (intro keeps_If keeps_lift keeps_andThen)

lemma keeps_guarded:
  assumes "keeps I read_clock" "\<And>c. keeps I (h c)"
  shows "keeps I (guarded a allowed gs h c)"
  using assms
proof (induction gs arbitrary: c)
  case (Cons g gs)
  then show ?case
    by (cases g) (simp_all add: jwt_Verify_def keeps_JWTAuth keeps_RateLimit keeps_andThen)
qed simp

text \<open>What every use case keeps, a request keeps.\<close>

locale use_cases_keep =
  fixes a :: api and I :: "world \<Rightarrow> bool" and excluded :: "endpoint set"
  assumes clock: "keeps I read_clock"
    and auth: "EP_Register \<notin> excluded \<Longrightarrow> keeps I (Register (fst (services a)) creds)"
      "EP_Login \<notin> excluded \<Longrightarrow> keeps I (Login (fst (services a)) creds)"
      "EP_VerifyEmail \<notin> excluded \<Longrightarrow> keeps I (VerifyEmail (fst (services a)) e cd)"
      "EP_ResendVerification \<notin> excluded \<Longrightarrow> keeps I (ResendVerification (fst (services a)) e)"
      "EP_ForgotPassword \<notin> excluded \<Longrightarrow> keeps I (ForgotPassword (fst (services a)) e)"
      "EP_ResetPassword \<notin> excluded \<Longrightarrow> keeps I (ResetPassword (fst (services a)) tk pw)"
      "EP_Me \<notin> excluded \<Longrightarrow> keeps I (service_Me (fst (services a)) n)"
      "EP_SaveProfile \<notin> excluded \<Longrightarrow> keeps I (SaveProfile (fst (services a)) n pf)"
    and progress: "EP_GetProgress \<notin> excluded \<Longrightarrow> keeps I (Get (snd (services a)) n)"
      "EP_SaveProgress \<notin> excluded \<Longrightarrow> keeps I (Save (snd (services a)) n d)"
      "EP_MergeProgress \<notin> excluded \<Longrightarrow> keeps I (Merge (snd (services a)) n d)"
      "EP_Answer \<notin> excluded \<Longrightarrow> keeps I (RecordAnswer (snd (services a)) n ans)"
      "EP_CompleteLesson \<notin> excluded \<Longrightarrow> keeps I (CompleteLesson (snd (services a)) n d)"
begin

lemmas handler_keeps = keeps_or_fail keeps_parsed keeps_lift keeps_send_session [OF clock] auth progress

lemma keeps_handler: "e \<notin> excluded \<Longrightarrow> keeps I (handler_of a e c)"
  by (cases e)
    (simp_all add: handle_Register_def handle_Login_def handle_VerifyEmail_def handle_ResendVerification_def
      handle_ForgotPassword_def handle_ResetPassword_def handle_Me_def handle_SaveProfile_def handle_Logout_def
      handle_defs handler_keeps)

lemma serve_keeps:
  assumes "\<And>x. e = Some x \<Longrightarrow> x \<notin> excluded" "I w"
  shows "I (snd (serve a allowed e c w))"
proof (cases e)
  case (Some x)
  have "keeps I (guarded a allowed (guards_of x) (handler_of a x) (c\<lparr>Local_UserID := None\<rparr>))"
    by (rule keeps_guarded [OF clock keeps_handler]) (use Some assms(1) in simp)
  then show ?thesis
    using Some assms(2) by (auto simp: serve_def dest: keepsD split: prod.splits)
qed (use assms(2) in \<open>simp add: serve_def\<close>)

end

text \<open>From the frames of the repositories: all endpoints, or all but the one that stores a password.\<close>

locale api_frame_but_password = progress_store_frame "api_auth a" I + auth_store_frame_but_password "api_auth a" I
  for a :: api and I :: "world \<Rightarrow> bool"

sublocale api_frame_but_password \<subseteq> most_requests: use_cases_keep a I "{EP_ResetPassword}"
  by unfold_locales
    (simp_all add: services_def keeps_clock tables_only auth_use_cases.keeps_use_cases progress_use_cases.keeps_use_cases)

locale api_frame = progress_store_frame "api_auth a" I + auth_store_frame "api_auth a" I
  for a :: api and I :: "world \<Rightarrow> bool"

sublocale api_frame \<subseteq> requests: use_cases_keep a I "{}"
  by unfold_locales
    (simp_all add: services_def keeps_clock tables_only auth_use_cases.keeps_use_cases
      all_auth_use_cases.keeps_ResetPassword progress_use_cases.keeps_use_cases)

end
