(* ===== verification/System.thy ===== *)
theory System
  imports Api
begin

text \<open>
  The server over time: the worlds it goes through from a start, one request or one change of the
  environment after the other, and the invariants of all of them, from the frames of \<open>Composition\<close>
  and \<open>Api\<close>.
\<close>

section \<open>Runs\<close>

text \<open>Between requests the clock goes on, faults and random numbers come as they come: everything but the
  tables and the collation is the environment's.\<close>

inductive step :: "api \<Rightarrow> world \<Rightarrow> world \<Rightarrow> bool" for a where
  request: "serve a allowed e c w = (resp, w1) \<Longrightarrow> step a w w1"
| environment: "db w1 = db w \<Longrightarrow> collation_key w1 = collation_key w \<Longrightarrow> step a w w1"

inductive reachable :: "api \<Rightarrow> world \<Rightarrow> world \<Rightarrow> bool" for a w0 where
  start: "reachable a w0 w0"
| next_world: "reachable a w0 w \<Longrightarrow> step a w w1 \<Longrightarrow> reachable a w0 w1"

inductive_cases step_cases: "step a w w1"

lemma reachable_keeps:
  assumes "reachable a w0 w" "db_only I" "\<And>allowed e c w. I w \<Longrightarrow> I (snd (serve a allowed e c w))" "I w0"
  shows "I w"
  using assms(1)
proof (induction rule: reachable.induct)
  case (next_world w w1)
  from next_world.hyps(2) show ?case
  proof (rule step_cases)
    fix allowed e c resp
    assume "serve a allowed e c w = (resp, w1)"
    then show ?case using assms(3) [OF next_world.IH, of allowed e c] by simp
  next
    assume "db w1 = db w" "collation_key w1 = collation_key w"
    then show ?case by (rule db_onlyD [OF assms(2) next_world.IH])
  qed
qed (rule assms(4))

lemma reachable_request: "reachable a w (snd (serve a allowed e c w))"
  by (rule next_world [OF start], rule request [of a allowed e c w "fst (serve a allowed e c w)"]) simp

section \<open>Observations of some tables\<close>

definition depends_on :: "(tables \<Rightarrow> 't) \<Rightarrow> (world \<Rightarrow> bool) \<Rightarrow> bool" where
  "depends_on g I \<longleftrightarrow> (\<forall>w w1. g (db w1) = g (db w) \<longrightarrow> I w \<longrightarrow> I w1)"

lemma depends_onD: "depends_on g I \<Longrightarrow> I w \<Longrightarrow> g (db w1) = g (db w) \<Longrightarrow> I w1"
  by (auto simp: depends_on_def)

lemma depends_on_db_only: "depends_on g I \<Longrightarrow> db_only I"
  by (simp add: depends_on_def db_only_def)

lemma keeps_unrelated:
  assumes "depends_on g I" "\<And>w. g (db (snd (f w))) = g (db w)"
  shows "keeps I (statement f)"
  by (rule keeps_statement) (erule depends_onD [OF assms(1)], simp add: assms(2))+

lemma keeps_conj: "keeps A m \<Longrightarrow> keeps B m \<Longrightarrow> keeps (\<lambda>w. A w \<and> B w) m"
  by (auto simp: keeps_def)

section \<open>Accounts are kept\<close>

text \<open>Every account of \<open>base\<close> is still there, related by \<open>R\<close> to what it was.\<close>

definition kept_users :: "(user_row \<Rightarrow> user_row \<Rightarrow> bool) \<Rightarrow> user_row list \<Rightarrow> world \<Rightarrow> bool" where
  "kept_users R base w \<longleftrightarrow> (\<forall>r \<in> set base. \<exists>r' \<in> set (users (db w)). R r r')"

lemma depends_kept: "depends_on users (kept_users R base)"
  by (simp add: depends_on_def kept_users_def)

lemma kept_insert: "keeps (kept_users R base) (insert_user u)"
  unfolding insert_user_def by (rule keeps_statement) (auto simp: kept_users_def)

lemma kept_update:
  assumes "\<And>x y at. R x y \<Longrightarrow> R x ((f y)\<lparr>u_updated_at := at\<rparr>)"
  shows "keeps (kept_users R base) (update_user i f)"
  unfolding update_user_def
proof (rule keeps_statement)
  fix w
  assume w: "kept_users R base w"
  let ?p = "\<lambda>r. u_id r = i \<and> f r \<noteq> r" and ?g = "\<lambda>r. (f r)\<lparr>u_updated_at := current_timestamp w\<rparr>"
  have "\<exists>r' \<in> set (update_rows ?p ?g (users (db w))). R r r'" if r: "r \<in> set base" for r
  proof -
    obtain y where y: "y \<in> set (users (db w))" "R r y" using w r unfolding kept_users_def by blast
    then have "(if ?p y then ?g y else y) \<in> set (update_rows ?p ?g (users (db w)))"
      unfolding update_rows_def set_map by (intro imageI)
    moreover have "R r (if ?p y then ?g y else y)" using y(2) assms by simp
    ultimately show ?thesis by blast
  qed
  then show "kept_users R base (snd (Ok (length (filter ?p (users (db w)))), on_db (\<lambda>t. t\<lparr>users := update_rows ?p ?g (users t)\<rparr>) w))"
    by (simp add: kept_users_def)
qed (simp add: kept_users_def)

text \<open>The other tables do not matter to it.\<close>

lemma kept_others:
  fixes R :: "user_row \<Rightarrow> user_row \<Rightarrow> bool"
  shows "keeps (kept_users R base) (queryOne lib p)" "keeps (kept_users R base) (mysql_PutVerification v)"
    "keeps (kept_users R base) (mysql_FindVerification i)" "keeps (kept_users R base) (mysql_RecordVerificationAttempt i)"
    "keeps (kept_users R base) (mysql_ConsumeVerification i t)" "keeps (kept_users R base) (mysql_PutReset rs)"
    "keeps (kept_users R base) (mysql_FindResetByHash h)" "keeps (kept_users R base) (mysql_ConsumeReset i t)"
    "keeps (kept_users R base) (select_progress n)" "keeps (kept_users R base) (upsert_progress n d)"
    "keeps (kept_users R base) begin_tx" "keeps (kept_users R base) commit_tx"
  unfolding queryOne_def mysql_PutVerification_def mysql_FindVerification_def mysql_RecordVerificationAttempt_def
    mysql_ConsumeVerification_def mysql_PutReset_def mysql_FindResetByHash_def mysql_ConsumeReset_def update_code_def
    select_progress_def upsert_progress_def begin_tx_def commit_tx_def Let_def
  by (intro keeps_onErr keeps_andThen keeps_lift keeps_unrelated [OF depends_kept];
      simp add: put_progress_def split: option.split)+

lemma kept_finds:
  "keeps (kept_users R base) (mysql_FindByEmail lib e)" "keeps (kept_users R base) (mysql_FindByID lib i)"
  unfolding mysql_FindByEmail_def mysql_FindByID_def by (rule kept_others)+

lemma kept_progress_frame:
  assumes "\<And>x y d at. R x y \<Longrightarrow> R x ((touch_row d y)\<lparr>u_updated_at := at\<rparr>)"
  shows "progress_store_frame lib (kept_users R base)"
proof unfold_locales
  show "keeps (kept_users R base) (mysql_TouchActivity lib i d)" for i d
    unfolding mysql_TouchActivity_def by (intro keeps_onErr keeps_andThen kept_update kept_finds assms)
qed (auto intro: kept_finds kept_others depends_on_db_only [OF depends_kept] simp: kept_users_def)

lemma kept_auth_frame:
  assumes "\<And>x y d at. R x y \<Longrightarrow> R x ((touch_row d y)\<lparr>u_updated_at := at\<rparr>)"
    and "\<And>x y t at. R x y \<Longrightarrow> R x (y\<lparr>u_email_verified_at := Some t, u_updated_at := at\<rparr>)"
    and "\<And>x y p at. R x y \<Longrightarrow> R x ((profile_row p y)\<lparr>u_updated_at := at\<rparr>)"
  shows "auth_store_frame_but_password lib (kept_users R base)"
proof -
  have "progress_store_frame lib (kept_users R base)" by (rule kept_progress_frame) (rule assms(1))
  then have a: "activity_frame lib (kept_users R base)" by (simp add: progress_store_frame_def)
  have "keeps (kept_users R base) (mysql_MarkEmailVerified lib i t)" "keeps (kept_users R base) (mysql_SaveProfile lib i p)" for i t p
    unfolding mysql_MarkEmailVerified_def mysql_SaveProfile_def
    by (intro keeps_onErr keeps_andThen keeps_lift kept_update kept_finds; simp add: assms)+
  then show ?thesis
    by (intro auth_store_frame_but_password.intro [OF a] auth_store_frame_but_password_axioms.intro kept_insert kept_finds kept_others)
qed

text \<open>An account keeps its id and its address, a confirmed address stays confirmed; and, but for a
  reset, the password stays the one it was.\<close>

definition same_account :: "user_row \<Rightarrow> user_row \<Rightarrow> bool" where
  "same_account r r' \<longleftrightarrow> u_id r' = u_id r \<and> u_email r' = u_email r \<and>
     (u_email_verified_at r \<noteq> None \<longrightarrow> u_email_verified_at r' \<noteq> None)"

definition same_login :: "user_row \<Rightarrow> user_row \<Rightarrow> bool" where
  "same_login r r' \<longleftrightarrow> same_account r r' \<and> u_password_hash r' = u_password_hash r"

lemma same_rows:
  "same_account x y \<Longrightarrow> same_account x ((touch_row d y)\<lparr>u_updated_at := at\<rparr>)"
  "same_account x y \<Longrightarrow> same_account x (y\<lparr>u_email_verified_at := Some t, u_updated_at := at\<rparr>)"
  "same_account x y \<Longrightarrow> same_account x ((profile_row p y)\<lparr>u_updated_at := at\<rparr>)"
  "same_account x y \<Longrightarrow> same_account x (y\<lparr>u_password_hash := h, u_updated_at := at\<rparr>)"
  "same_login x y \<Longrightarrow> same_login x ((touch_row d y)\<lparr>u_updated_at := at\<rparr>)"
  "same_login x y \<Longrightarrow> same_login x (y\<lparr>u_email_verified_at := Some t, u_updated_at := at\<rparr>)"
  "same_login x y \<Longrightarrow> same_login x ((profile_row p y)\<lparr>u_updated_at := at\<rparr>)"
  by (simp_all add: same_account_def same_login_def touch_row_def profile_row_def Let_def)

interpretation accounts: api_frame a "kept_users same_account base" for a base
proof (intro api_frame.intro)
  show "progress_store_frame (api_auth a) (kept_users same_account base)"
    by (rule kept_progress_frame) (rule same_rows)
  have "auth_store_frame_but_password (api_auth a) (kept_users same_account base)"
    by (rule kept_auth_frame) (rule same_rows; assumption)+
  moreover have "keeps (kept_users same_account base) (mysql_UpdatePassword i h)" for i h
    unfolding mysql_UpdatePassword_def
    by (intro keeps_onErr keeps_andThen keeps_lift kept_update) (simp add: same_rows)
  ultimately show "auth_store_frame (api_auth a) (kept_users same_account base)"
    by (intro auth_store_frame.intro auth_store_frame_axioms.intro)
qed

interpretation logins: api_frame_but_password a "kept_users same_login base" for a base
  by (intro api_frame_but_password.intro kept_progress_frame kept_auth_frame) (rule same_rows; assumption)+

section \<open>The tables stay consistent\<close>

lemma consistency_activity: "activity_frame lib (db_ok ck)"
  using db_ok_users(3,4) [of ck lib] by unfold_locales (simp_all add: db_only_ok mysql_users_def)

interpretation consistency: api_frame a "db_ok ck" for a ck
proof (intro api_frame.intro progress_store_frame.intro auth_store_frame.intro auth_store_frame_but_password.intro
    consistency_activity)
  show "progress_store_frame_axioms (db_ok ck)"
    by unfold_locales (auto simp: db_ok_select_progress db_ok_upsert_progress begin_tx_def commit_tx_def db_ok_def
        intro: keeps_db_ok_statement)
  show "auth_store_frame_but_password_axioms (api_auth a) (db_ok ck)"
    using db_ok_users [of ck "api_auth a"] db_ok_secrets [of ck]
    by unfold_locales
      (simp_all add: mysql_users_def mysql_verifications_def mysql_resets_def db_ok_insert_user db_ok_select_progress)
  show "auth_store_frame_axioms (db_ok ck)"
    using db_ok_users(6) [of ck "api_auth a"] by unfold_locales (simp add: mysql_users_def)
qed

section \<open>What belongs to the other module\<close>

text \<open>Authentication never writes a progress document; grading never changes an account, a code or a link.\<close>

lemma depends_stored: "depends_on progress (\<lambda>w. stored_progress w = x)"
  by (simp add: depends_on_def stored_progress_def progress_of_def fun_eq_iff)

lemmas keeps_stored_unrelated = keeps_unrelated [OF depends_stored]

interpretation stored_by_auth: auth_store_frame lib "\<lambda>w. stored_progress w = x" for lib x
proof unfold_locales
  show "keeps (\<lambda>w. stored_progress w = x) (insert_user u)" for u
    unfolding insert_user_def by (rule keeps_stored_unrelated) simp
  show "keeps (\<lambda>w. stored_progress w = x) (mysql_FindByEmail lib e)" for e
    unfolding mysql_FindByEmail_def by (rule keeps_stored_query)
  show "keeps (\<lambda>w. stored_progress w = x) (mysql_MarkEmailVerified lib i t)"
    "keeps (\<lambda>w. stored_progress w = x) (mysql_SaveProfile lib i p)"
    "keeps (\<lambda>w. stored_progress w = x) (mysql_UpdatePassword i h)" for i t p h
    unfolding mysql_MarkEmailVerified_def mysql_SaveProfile_def mysql_UpdatePassword_def
    by (intro keeps_intros keeps_stored_update keeps_stored_find)+
  show "keeps (\<lambda>w. stored_progress w = x) (mysql_PutVerification v)" "keeps (\<lambda>w. stored_progress w = x) (mysql_FindVerification i)"
    "keeps (\<lambda>w. stored_progress w = x) (mysql_RecordVerificationAttempt i)"
    "keeps (\<lambda>w. stored_progress w = x) (mysql_ConsumeVerification i t)"
    "keeps (\<lambda>w. stored_progress w = x) (mysql_PutReset r)" "keeps (\<lambda>w. stored_progress w = x) (mysql_FindResetByHash h)"
    "keeps (\<lambda>w. stored_progress w = x) (mysql_ConsumeReset i t)" "keeps (\<lambda>w. stored_progress w = x) (select_progress n)"
    for v i t r h n
    unfolding mysql_PutVerification_def mysql_FindVerification_def mysql_RecordVerificationAttempt_def
      mysql_ConsumeVerification_def mysql_PutReset_def mysql_FindResetByHash_def mysql_ConsumeReset_def update_code_def
      select_progress_def Let_def
    by (intro keeps_onErr keeps_andThen keeps_lift keeps_stored_unrelated; simp)+
qed

text \<open>The collation is fixed; a transaction puts back the tables of the same server.\<close>

definition credentials :: "(string \<Rightarrow> string) \<Rightarrow> auth_state \<Rightarrow> world \<Rightarrow> bool" where
  "credentials ck x w \<longleftrightarrow> collation_key w = ck \<and> auth_state_of w = x"

lemma keeps_credentials_statement:
  assumes "\<And>w. collation_key (snd (f w)) = collation_key w" "\<And>w. auth_state_of (snd (f w)) = auth_state_of w"
  shows "keeps (credentials ck x) (statement f)"
  by (rule keeps_statement) (simp_all add: credentials_def assms)

interpretation credentials_by_progress: progress_store_frame lib "credentials ck x" for lib ck x
proof unfold_locales
  show "db_only (credentials ck x)"
    unfolding db_only_def credentials_def using auth_state_cong by metis
  have find: "keeps (credentials ck x) (mysql_FindByID lib i)" for i
    unfolding mysql_FindByID_def queryOne_def by (intro keeps_andThen keeps_onErr keeps_lift keeps_credentials_statement) simp_all
  then show "keeps (credentials ck x) (mysql_FindByID lib i)" for i .
  have "keeps (\<lambda>w. collation_key w = ck) (mysql_TouchActivity lib i d)" for i d
    unfolding mysql_TouchActivity_def mysql_FindByID_def queryOne_def update_user_def
    by (intro keeps_intros keeps_statement) simp_all
  then show "keeps (credentials ck x) (mysql_TouchActivity lib i d)" for i d
    using mysql_user_store.touch_keeps [of x lib i d]
    unfolding credentials_def mysql_users_def by (intro keeps_conj) simp_all
  have state: "auth_state_of (w\<lparr>db := put_progress n d at (db w)\<rparr>) = auth_state_of w" for w n d at
    by (simp add: auth_state_of_def same_email_def user_row_of_def code_of_def reset_of_hash_def put_progress_def split: option.split)
  show "keeps (credentials ck x) (select_progress n)" "keeps (credentials ck x) (upsert_progress n d)"
    "keeps (credentials ck x) begin_tx" "keeps (credentials ck x) commit_tx" for n d
    unfolding select_progress_def upsert_progress_def begin_tx_def commit_tx_def
    by (intro keeps_credentials_statement; simp add: state)+
  show "credentials ck x w \<Longrightarrow> credentials ck x w1 \<Longrightarrow> credentials ck x (w1\<lparr>db := db w\<rparr>)" for w w1
    unfolding credentials_def using auth_state_cong [of "w1\<lparr>db := db w\<rparr>" w] by simp
qed

section \<open>Documents\<close>

text \<open>Every stored document passed the checks of the service.\<close>

definition documents_checked :: "world \<Rightarrow> bool" where
  "documents_checked w \<longleftrightarrow> (\<forall>u d. stored_progress w u = Some d \<longrightarrow> validateData d = Ok ())"

lemma keeps_checked: "(\<And>x. keeps (\<lambda>w. stored_progress w = x) m) \<Longrightarrow> keeps documents_checked m"
  unfolding keeps_def documents_checked_def by metis

lemma checked_cong: "documents_checked w = wired_progress.all_checked w"
  by (simp add: documents_checked_def wired_progress.all_checked_def)

lemma stored_auth_use_cases:
  "keeps (\<lambda>w. stored_progress w = x) (Register (wired_auth lib crypto c) creds)"
  "keeps (\<lambda>w. stored_progress w = x) (Login (wired_auth lib crypto c) creds)"
  "keeps (\<lambda>w. stored_progress w = x) (VerifyEmail (wired_auth lib crypto c) e cd)"
  "keeps (\<lambda>w. stored_progress w = x) (ResendVerification (wired_auth lib crypto c) e)"
  "keeps (\<lambda>w. stored_progress w = x) (ForgotPassword (wired_auth lib crypto c) e)"
  "keeps (\<lambda>w. stored_progress w = x) (ResetPassword (wired_auth lib crypto c) tk pw)"
  "keeps (\<lambda>w. stored_progress w = x) (service_Me (wired_auth lib crypto c) n)"
  "keeps (\<lambda>w. stored_progress w = x) (SaveProfile (wired_auth lib crypto c) n pf)"
  by (rule stored_by_auth.auth_use_cases.keeps_use_cases stored_by_auth.all_auth_use_cases.keeps_ResetPassword)+

lemma keeps_Get_stored: "keeps (\<lambda>w. stored_progress w = x) (Get (wired_progress lib crypto c) n)"
proof (rule keepsI)
  fix w
  assume "stored_progress w = x"
  then show "stored_progress (snd (Get (wired_progress lib crypto c) n w)) = x"
    using wired_progress.find_keeps [of lib crypto c n w]
    by (cases rule: NewID_cases [of n]) (auto simp: Get_def)
qed

interpretation checked: use_cases_keep a documents_checked "{}" for a
proof unfold_locales
  show "keeps documents_checked read_clock" by (rule keeps_checked) (rule keeps_clock [OF db_only_stored])
qed (auto simp: services_def checked_cong keeps_def wired_progress.all_checked_use_cases
    intro: keeps_checked [THEN keepsD, unfolded checked_cong] stored_auth_use_cases keeps_Get_stored)

section \<open>Whose document a request can change\<close>

lemma keeps_at: "(\<And>x. keeps (\<lambda>w. stored_progress w = x) m) \<Longrightarrow> keeps (\<lambda>w. stored_progress w j = y) m"
  unfolding keeps_def by metis

lemma keeps_own:
  assumes "j \<noteq> u"
  shows "keeps (\<lambda>w. stored_progress w j = y) (Save (wired_progress lib crypto c) u d)"
    "keeps (\<lambda>w. stored_progress w j = y) (RecordAnswer (wired_progress lib crypto c) u a)"
    "keeps (\<lambda>w. stored_progress w j = y) (CompleteLesson (wired_progress lib crypto c) u l)"
    "keeps (\<lambda>w. stored_progress w j = y) (Merge (wired_progress lib crypto c) u p)"
  by (rule keepsI; simp add: wired_progress.own_document_only [OF assms])+

lemma keeps_user_handler:
  assumes "Local_UserID c \<noteq> Some j"
  shows "keeps (\<lambda>w. stored_progress w j = y) (handler_of a e c)"
proof -
  let ?I = "\<lambda>w. stored_progress w j = y"
  have clock: "keeps ?I read_clock" by (rule keeps_at) (rule keeps_clock [OF db_only_stored])
  have user: "keeps ?I (or_fail id (lift (ctx_UserID c)) k)" if "\<And>u. u \<noteq> j \<Longrightarrow> keeps ?I (k u)" for k
  proof (cases "ctx_UserID c")
    case (Ok u)
    then have "u \<noteq> j" using assms by auto
    moreover have "or_fail id (lift (ctx_UserID c)) k = k u" by (rule ext) (simp only: Ok or_fail_lift)
    ultimately show ?thesis using that by simp
  qed (simp_all add: keeps_def)
  note rules = keeps_or_fail keeps_parsed keeps_lift keeps_send_session [OF clock] user
    keeps_at [OF stored_auth_use_cases(1)] keeps_at [OF stored_auth_use_cases(2)] keeps_at [OF stored_auth_use_cases(3)]
    keeps_at [OF stored_auth_use_cases(4)] keeps_at [OF stored_auth_use_cases(5)] keeps_at [OF stored_auth_use_cases(6)]
    keeps_at [OF stored_auth_use_cases(7)] keeps_at [OF stored_auth_use_cases(8)] keeps_at [OF keeps_Get_stored]
    keeps_own
  show ?thesis
    by (cases e)
      (simp_all add: services_def handle_Register_def handle_Login_def handle_VerifyEmail_def handle_ResendVerification_def
        handle_ForgotPassword_def handle_ResetPassword_def handle_Me_def handle_SaveProfile_def handle_Logout_def
        handle_defs rules)
qed

lemma jwt_Verify_Ok: "jwt_Verify crypto m raw w = (Ok cl, w1) \<Longrightarrow> jwt_VerifyAt crypto m (now w) raw = Ok cl"
  by (auto simp: jwt_Verify_def andThen_Ok_iff read_clock_def)

lemma only_the_owner:
  assumes "serve a allowed e c w = (resp, w1)" "stored_progress w1 j \<noteq> stored_progress w j"
  obtains x claims where "e = Some x" "Authenticated \<in> set (guards_of x)" "starts_with bearerPrefix (Authorization c)"
    "jwt_VerifyAt (api_crypto a) (wired_tokens (api_config a)) (now w) (TrimSpace (drop (length bearerPrefix) (Authorization c))) = Ok claims"
    "Claims_UserID claims = j"
proof -
  let ?I = "\<lambda>v. stored_progress v j = stored_progress w j" and ?v = "jwt_Verify (api_crypto a) (wired_tokens (api_config a))"
  obtain x where x: "e = Some x" using assms by (cases e) (auto simp: serve_def)
  obtain r where r: "guarded a allowed (guards_of x) (handler_of a x) (c\<lparr>Local_UserID := None\<rparr>) w = (r, w1)"
    using assms(1) x by (auto simp: serve_def split: prod.splits)
  have clock: "keeps ?I read_clock" by (rule keeps_at) (rule keeps_clock [OF db_only_stored])
  then have verify: "keeps ?I (?v raw)" for raw unfolding jwt_Verify_def by (intro keeps_andThen keeps_lift)
  have public: "keeps ?I (handler_of a x (c\<lparr>Local_UserID := None\<rparr>))" by (rule keeps_user_handler) simp
  have changed: "\<not> ?I w1" using assms(2) by simp
  show thesis
  proof (cases "Authenticated \<in> set (guards_of x)")
    case True
    then have "guards_of x = [Authenticated]" by (cases x) (auto simp: guards_of_def)
    with r have "JWTAuth ?v (handler_of a x) (c\<lparr>Local_UserID := None\<rparr>) w = (r, w1)" by simp
    then show thesis
    proof (cases rule: JWTAuth_cases)
      case (passed raw claims w2)
      show thesis
      proof (cases "Claims_UserID claims = j")
        case True
        then show thesis using that x \<open>Authenticated \<in> set (guards_of x)\<close> jwt_Verify_Ok [OF passed(1)] passed(3,4) by simp
      next
        case False
        have "?I w2" using keepsD [OF verify, of w raw] passed(1) by simp
        moreover have "keeps ?I (handler_of a x (c\<lparr>Local_UserID := None, Local_UserID := Some (Claims_UserID claims)\<rparr>))"
          by (rule keeps_user_handler) (use False in simp)
        ultimately have "?I w1" using keepsD passed(2) by fastforce
        with changed show thesis by simp
      qed
    next
      case (panicked raw m)
      then show thesis using changed keepsD [OF verify, of w raw] by simp
    next
      case (refused resp)
      then show thesis using changed keepsD [OF verify, of w] by (metis (no_types, lifting) snd_conv)
    qed
  next
    case False
    then have "guards_of x = [] \<or> (\<exists>b. guards_of x = [Throttled b])" by (cases x) (auto simp: guards_of_def)
    then have "w1 = w \<or> handler_of a x (c\<lparr>Local_UserID := None\<rparr>) w = (r, w1)"
      using r by (auto simp: RateLimit_def split: if_splits)
    then have "?I w1" using keepsD [OF public, of w] by auto
    with changed show thesis by simp
  qed
qed

section \<open>The two modules side by side\<close>

definition grading_endpoints :: "endpoint set" where
  "grading_endpoints = {EP_GetProgress, EP_SaveProgress, EP_MergeProgress, EP_Answer, EP_CompleteLesson}"

interpretation grading: use_cases_keep a "credentials ck x" "- grading_endpoints" for a ck x
  by unfold_locales
    (auto simp: services_def grading_endpoints_def credentials_by_progress.progress_use_cases.keeps_use_cases
      intro: keeps_clock [OF credentials_by_progress.tables_only])

interpretation identity: use_cases_keep a "\<lambda>w. stored_progress w = x" grading_endpoints for a x
  by unfold_locales
    (auto simp: services_def grading_endpoints_def stored_auth_use_cases intro: keeps_clock [OF db_only_stored])

section \<open>Successful requests\<close>

lemma BodyParser_local [simp]: "BodyParser lib dec (c\<lparr>Local_UserID := u\<rparr>) = BodyParser lib dec c"
  by (simp add: BodyParser_def)

lemma render_success: "Status (render_outcome r) < 300 \<Longrightarrow> r = Ok (render_outcome r)"
  using fail_response_not_success by (cases r) (auto simp: ErrorHandler_def)

lemma serve_success:
  assumes "serve a allowed (Some x) c w = (resp, w1)" "Status resp < 300"
  shows "guarded a allowed (guards_of x) (handler_of a x) (c\<lparr>Local_UserID := None\<rparr>) w = (Ok resp, w1)"
proof -
  obtain r where r: "guarded a allowed (guards_of x) (handler_of a x) (c\<lparr>Local_UserID := None\<rparr>) w = (r, w1)"
      "resp = render_outcome r"
    using assms(1) by (auto simp: serve_def split: prod.splits)
  with render_success assms(2) show ?thesis by simp
qed

text \<open>A public route: the handler ran. A guarded one: the token verified, and the handler ran for its user.\<close>

lemma serve_public_success:
  assumes "serve a allowed (Some x) c w = (resp, w1)" "Status resp < 300" "Authenticated \<notin> set (guards_of x)"
  shows "handler_of a x (c\<lparr>Local_UserID := None\<rparr>) w = (Ok resp, w1)"
proof -
  have "guards_of x = [] \<or> (\<exists>b. guards_of x = [Throttled b])" using assms(3) by (cases x) (auto simp: guards_of_def)
  then show ?thesis
    using serve_success [OF assms(1,2)] assms(2) fail_response_not_success
    by (auto simp: RateLimit_def split: if_splits)
qed

lemma serve_guarded_success:
  assumes "serve a allowed (Some x) c w = (resp, w1)" "Status resp < 300" "Authenticated \<in> set (guards_of x)"
  shows "\<exists>raw claims w2. jwt_VerifyAt (api_crypto a) (wired_tokens (api_config a)) (now w) raw = Ok claims \<and>
    db w2 = db w \<and> handler_of a x (c\<lparr>Local_UserID := Some (Claims_UserID claims)\<rparr>) w2 = (Ok resp, w1)"
proof -
  let ?v = "jwt_Verify (api_crypto a) (wired_tokens (api_config a))"
  have "guards_of x = [Authenticated]" using assms(3) by (cases x) (auto simp: guards_of_def)
  then have "JWTAuth ?v (handler_of a x) (c\<lparr>Local_UserID := None\<rparr>) w = (Ok resp, w1)"
    using serve_success [OF assms(1,2)] by simp
  then show ?thesis
  proof (cases rule: JWTAuth_cases)
    case (refused r)
    then show ?thesis using assms(2) by simp
  next
    case (passed raw claims w2)
    have "db w2 = db w" using passed(1) by (auto simp: jwt_Verify_def andThen_Ok_iff read_clock_def split: list.splits)
    then show ?thesis using passed jwt_Verify_Ok [OF passed(1)] by auto
  qed simp
qed

lemma keeps_db_invar: "(\<And>ck. keeps (db_ok ck) m) \<Longrightarrow> keeps db_invar m"
  by (auto simp: keeps_def db_invar_def db_ok_def)

lemma wired_db_invar:
  "keeps db_invar (FindByEmail (Repo (wired_auth lib crypto c)) e)" "keeps db_invar (Hash (wired_auth lib crypto c) p)"
  "keeps db_invar (Clock (wired_auth lib crypto c))"
  unfolding wired_auth_sel by (rule keeps_db_invar; rule db_ok_users keeps_hash keeps_clock; rule db_only_ok)+

end
