(* ===== verification/Interleaving.thy ===== *)
theory Interleaving
  imports System
begin

text \<open>
  Requests at the same time. The statements of one request may fall between those of any others:
  \<open>disturbed m\<close> lets the next entry of a list of foreign steps happen before \<open>m\<close>, and notes the world
  in which it happened. The services are
  polymorphic in the state of their ports, so the use cases of the program run as they are on ports that
  are disturbed statement by statement (\<open>shared_users\<close>, \<open>shared_auth\<close>, \<open>shared_repository\<close>); a
  transaction, which holds the lock of its row, is one step. With no foreign step these are the ports of
  the program (\<open>shared_users_alone\<close>, \<open>shared_mark_alone\<close>, \<open>shared_repository_alone\<close>).
\<close>

section \<open>Steps of other requests\<close>

text \<open>The world, the foreign steps to come, and the worlds in which the ones so far happened.\<close>

type_synonym 'w shared = "'w \<times> ('w \<Rightarrow> 'w) list \<times> 'w list"

definition disturbed :: "('w, 'a) proc \<Rightarrow> ('w shared, 'a) proc" where
  "disturbed m = (\<lambda>(w, fs, seen). case fs of
       [] \<Rightarrow> (case m w of (r, w1) \<Rightarrow> (r, (w1, [], seen)))
     | f # rest \<Rightarrow> (case m (f w) of (r, w1) \<Rightarrow> (r, (w1, rest, seen @ [w]))))"

text \<open>A step that nobody disturbs: what runs inside a transaction.\<close>

definition alone :: "('w shared, 'a) proc \<Rightarrow> ('w, 'a) proc" where
  "alone m w = (case m (w, [], []) of (r, (w1, _)) \<Rightarrow> (r, w1))"

lemma alone_disturbed [simp]: "alone (disturbed m) = m"
  by (rule ext) (simp add: alone_def disturbed_def split: prod.split)

lemma disturbed_quiet: "disturbed m (w, [], seen) = (fst (m w), (snd (m w), [], seen))"
  by (simp add: disturbed_def split: prod.split)

lemma disturbed_step: "disturbed m (w, f # fs, seen) = (fst (m (f w)), (snd (m (f w)), fs, seen @ [w]))"
  by (simp add: disturbed_def split: prod.split)

text \<open>An invariant of the world that the foreign steps to come keep.\<close>

definition under :: "('w \<Rightarrow> bool) \<Rightarrow> 'w shared \<Rightarrow> bool" where
  "under I p \<longleftrightarrow> I (fst p) \<and> (\<forall>f \<in> set (fst (snd p)). \<forall>w. I w \<longrightarrow> I (f w))"

lemma keeps_disturbed [keeps_intros]: "keeps I m \<Longrightarrow> keeps (under I) (disturbed m)"
  unfolding keeps_def under_def
proof (intro allI impI, goal_cases)
  case (1 p)
  then show ?case by (cases p; cases "fst (snd p)") (auto simp: disturbed_quiet disturbed_step)
qed

lemma keeps_alone: "keeps (under I) m \<Longrightarrow> keeps I (alone m)"
proof (rule keepsI)
  fix w
  assume m: "keeps (under I) m" and w: "I w"
  then have "under I (snd (m (w, [], [])))" by (intro keepsD [OF m]) (simp add: under_def)
  then show "I (snd (alone m w))" by (cases "m (w, [], [])") (auto simp: alone_def under_def)
qed

section \<open>The ports of a request, statement by statement\<close>

text \<open>Most of the ports are a statement and the look-up of the account.\<close>

definition then_find :: "auth_lib \<Rightarrow> ID \<Rightarrow> (world, 'a) proc \<Rightarrow> (world shared, User) proc" where
  "then_find lib i m = andThen (disturbed m) (\<lambda>_. disturbed (mysql_FindByID lib i))"

definition shared_users :: "auth_lib \<Rightarrow> world shared UserRepository" where
  "shared_users lib =
     \<lparr>Create = (\<lambda>u.
        andThen (onErr (\<lambda>err. if isDuplicateEntry err then Sentinel ErrEmailAlreadyExists else Errorf ''insert user'' [err])
          (disturbed (insert_user u))) (\<lambda>i.
        andThen (onErr (\<lambda>err. Errorf ''inserted user id'' [err]) (lift (NewID i))) (\<lambda>uid.
          disturbed (mysql_FindByID lib uid)))),
      FindByEmail = (\<lambda>e. disturbed (mysql_FindByEmail lib e)), FindByID = (\<lambda>i. disturbed (mysql_FindByID lib i)),
      TouchActivity = (\<lambda>i d. then_find lib i (onErr (\<lambda>err. Errorf ''update user activity'' [err]) (update_user i (touch_row d)))),
      MarkEmailVerified = (\<lambda>i t. then_find lib i
        (andThen (onErr (\<lambda>err. Errorf ''mark email verified'' [err])
          (update_user i (\<lambda>r. r\<lparr>u_email_verified_at := Some (seconds t)\<rparr>))) (\<lambda>n. lift (requireOneRow n)))),
      UpdatePassword = (\<lambda>i h. disturbed (mysql_UpdatePassword i h)),
      PutProfile = (\<lambda>i p. then_find lib i (onErr (\<lambda>err. Errorf ''save profile'' [err]) (update_user i (profile_row p))))\<rparr>"

definition shared_auth :: "world AuthService \<Rightarrow> (int \<Rightarrow> (world shared, string option) proc) option \<Rightarrow> world shared AuthService" where
  "shared_auth s snapshot =
     \<lparr>Repo = shared_users (Lib s),
      Verifications =
        \<lparr>PutVerification = (\<lambda>v. disturbed (PutVerification (Verifications s) v)),
         FindVerification = (\<lambda>i. disturbed (FindVerification (Verifications s) i)),
         RecordVerificationAttempt = (\<lambda>i. disturbed (RecordVerificationAttempt (Verifications s) i)),
         ConsumeVerification = (\<lambda>i t. disturbed (ConsumeVerification (Verifications s) i t))\<rparr>,
      Resets =
        \<lparr>PutReset = (\<lambda>r. disturbed (PutReset (Resets s) r)), FindResetByHash = (\<lambda>h. disturbed (FindResetByHash (Resets s) h)),
         ConsumeReset = (\<lambda>i t. disturbed (ConsumeReset (Resets s) i t))\<rparr>,
      Hash = (\<lambda>p. disturbed (Hash s p)), Compare = (\<lambda>h p. disturbed (Compare s h p)), Issue = (\<lambda>i. disturbed (Issue s i)),
      SendVerificationCode = (\<lambda>e cd. disturbed (SendVerificationCode s e cd)),
      SendPasswordReset = (\<lambda>e tk. disturbed (SendPasswordReset s e tk)),
      VerificationCode = disturbed (VerificationCode s), ResetToken = disturbed (ResetToken s),
      Snapshot = snapshot, Policy_of = Policy_of s, Clock = disturbed (Clock s), Lib = Lib s\<rparr>"

definition shared_repository :: "world shared Repository" where
  "shared_repository =
     \<lparr>FindByUserID = (\<lambda>u. disturbed (mysql_FindByUserID u)),
      Upsert = (\<lambda>u d. andThen (onErr (write_error ''upsert progress'') (disturbed (upsert_progress u d)))
        (\<lambda>_. disturbed (mysql_FindByUserID u))),
      Mutate = (\<lambda>u fn.
        andThen (onErr (\<lambda>err. Errorf ''begin progress transaction'' [err]) (disturbed begin_tx)) (\<lambda>_.
        andThen (disturbed (transaction (tx_body u (\<lambda>c. alone (fn c))))) (\<lambda>_.
          disturbed (mysql_FindByUserID u))))\<rparr>"

section \<open>With nobody else about, these are the ports of the program\<close>

text \<open>A step that uses up no more foreign steps than there are.\<close>

definition settles :: "('w shared, 'a) proc \<Rightarrow> bool" where
  "settles m \<longleftrightarrow> (\<forall>w seen. snd (snd (m (w, [], seen))) = ([], seen))"

lemma settles_simps [simp]: "settles (disturbed p)" "settles (lift r)" "settles (onErr f m) = settles m"
  by (simp_all add: settles_def disturbed_quiet snd_onErr)

lemma alone_andThen [simp]:
  assumes "settles m"
  shows "alone (andThen m k) = andThen (alone m) (\<lambda>x. alone (k x))"
proof
  fix w
  obtain r v p where m: "m (w, [], []) = (r, (v, p))" by (metis prod.exhaust)
  with assms have "p = ([], [])" unfolding settles_def by (metis snd_conv)
  with m show "alone (andThen m k) w = andThen (alone m) (\<lambda>x. alone (k x)) w"
    by (cases r) (simp_all add: alone_def andThen_def)
qed

lemma settles_andThen [simp]:
  assumes "settles m" "\<And>x. settles (k x)"
  shows "settles (andThen m k)"
  unfolding settles_def
proof (intro allI)
  fix w
  fix seen
  obtain r v p where m: "m (w, [], seen) = (r, (v, p))" by (metis prod.exhaust)
  with assms(1) have "p = ([], seen)" unfolding settles_def by (metis snd_conv)
  with m assms(2) show "snd (snd (andThen m k (w, [], seen))) = ([], seen)" by (cases r) (simp_all add: andThen_def settles_def)
qed

lemma settles_handling [simp]:
  assumes "settles m" "\<And>x. settles (k x)"
  shows "settles (handling m k)"
  unfolding settles_def
proof (intro allI)
  fix w
  fix seen
  obtain r v p where m: "m (w, [], seen) = (r, (v, p))" by (metis prod.exhaust)
  with assms(1) have "p = ([], seen)" unfolding settles_def by (metis snd_conv)
  with m assms(2) show "snd (snd (handling m k (w, [], seen))) = ([], seen)" by (cases r) (simp_all add: handling_def settles_def)
qed

lemma alone_handling [simp]:
  assumes "settles m"
  shows "alone (handling m k) = handling (alone m) (\<lambda>x. alone (k x))"
proof
  fix w
  obtain r v p where m: "m (w, [], []) = (r, (v, p))" by (metis prod.exhaust)
  with assms have "p = ([], [])" unfolding settles_def by (metis snd_conv)
  with m show "alone (handling m k) w = handling (alone m) (\<lambda>x. alone (k x)) w"
    by (cases r) (simp_all add: alone_def handling_def)
qed

lemma alone_simps [simp]:
  "alone (lift r) = lift r" "alone (onErr f m) = onErr f (alone m)"
  by (auto simp: alone_def onErr_def fun_eq_iff split: prod.split)

lemma shared_users_alone:
  "alone (Create (shared_users lib) u) = mysql_Create lib u"
  "alone (FindByEmail (shared_users lib) e) = mysql_FindByEmail lib e"
  "alone (FindByID (shared_users lib) i) = mysql_FindByID lib i"
  "alone (TouchActivity (shared_users lib) i d) = mysql_TouchActivity lib i d"
  "alone (UpdatePassword (shared_users lib) i h) = mysql_UpdatePassword i h"
  "alone (PutProfile (shared_users lib) i p) = mysql_SaveProfile lib i p"
  by (simp_all add: shared_users_def then_find_def mysql_Create_def mysql_TouchActivity_def mysql_SaveProfile_def)

lemma andThen_assoc: "andThen (andThen m k) n = andThen m (\<lambda>x. andThen (k x) n)"
  by (auto simp: andThen_def fun_eq_iff split: prod.split result.split)

lemma shared_mark_alone: "alone (MarkEmailVerified (shared_users lib) i t) = mysql_MarkEmailVerified lib i t"
  by (simp add: shared_users_def then_find_def mysql_MarkEmailVerified_def andThen_assoc)

lemma shared_repository_alone:
  "alone (FindByUserID shared_repository u) = mysql_FindByUserID u"
  "alone (Upsert shared_repository u d) = mysql_Upsert u d"
  "alone (Mutate shared_repository u (\<lambda>c. disturbed (fn c))) = mysql_Mutate u fn"
  by (simp_all add: shared_repository_def mysql_Upsert_def mysql_Mutate_eq)

end
