(* ===== verification/Panics.thy ===== *)
theory Panics
  imports Api
begin

text \<open>
  Where a run time panic can come from. A step \<open>returns\<close> when it never unwinds, whatever the world is;
  every repository, use case and handler returns, except for the one that records an answer, which
  assigns into the maps of the stored document. Of the third parties it is assumed that they return
  their failures as errors (\<open>crypto_returns\<close>).
\<close>

section \<open>Steps that return\<close>

definition no_panic :: "'a result \<Rightarrow> bool" where
  "no_panic r \<longleftrightarrow> (\<forall>m. r \<noteq> Panic m)"

definition returns :: "('w, 'a) proc \<Rightarrow> bool" where
  "returns m \<longleftrightarrow> (\<forall>w. no_panic (fst (m w)))"

named_theorems returns_intros \<open>introduction rules of steps that return\<close>

lemma no_panic_simps [simp]: "no_panic (Ok x)" "no_panic (Err e)" "\<not> no_panic (Panic m)"
  by (simp_all add: no_panic_def)

lemma no_panic_bind: "no_panic r \<Longrightarrow> (\<And>x. no_panic (k x)) \<Longrightarrow> no_panic (result_bind r k)"
  by (cases r) simp_all

lemma no_panic_map_err [simp]: "no_panic (result_map_err f r) \<longleftrightarrow> no_panic r"
  by (cases r) simp_all

lemma returnsI: "(\<And>w. no_panic (fst (m w))) \<Longrightarrow> returns m"
  by (simp add: returns_def)

lemma returnsD: "returns m \<Longrightarrow> m w \<noteq> (Panic p, w1)"
  unfolding returns_def by (metis fst_conv no_panic_simps(3))

lemma returns_lift [returns_intros]: "no_panic r \<Longrightarrow> returns (lift r)"
  by (simp add: returns_def)

lemma returns_ret [simp, returns_intros]: "returns (lift (Ok x))" "returns (lift (Err e))"
  by (simp_all add: returns_def)

lemma returns_andThen [returns_intros]:
  assumes "returns m" "\<And>x. returns (k x)"
  shows "returns (andThen m k)"
proof (rule returnsI)
  fix w
  obtain r w1 where m: "m w = (r, w1)" by fastforce
  moreover have "no_panic r" using assms(1) m by (metis fst_conv returns_def)
  ultimately show "no_panic (fst (andThen m k w))"
    using assms(2) by (cases r) (simp_all add: andThen_def returns_def)
qed

text \<open>A panic comes from the first step when the rest returns.\<close>

lemma andThen_panic:
  assumes "fst (andThen m k w) = Panic p" "\<And>x. returns (k x)"
  shows "fst (m w) = Panic p"
proof -
  obtain r w1 where m: "m w = (r, w1)" by fastforce
  show ?thesis
  proof (cases r)
    case (Ok x)
    then show ?thesis using assms m returnsD [OF assms(2), of x w1 p] by (metis andThen_cases(1) prod.collapse)
  qed (use assms(1) m in \<open>simp_all add: andThen_def\<close>)
qed

lemma returns_onErr [returns_intros]: "returns m \<Longrightarrow> returns (onErr f m)"
  by (auto simp: returns_def onErr_def split: prod.splits) (metis fst_conv)

lemma returns_handling [returns_intros]:
  assumes "returns m" "\<And>x. returns (k x)"
  shows "returns (handling m k)"
proof (rule returnsI)
  fix w
  obtain r w1 where m: "m w = (r, w1)" by fastforce
  moreover have "no_panic r" using assms(1) m by (metis fst_conv returns_def)
  ultimately show "no_panic (fst (handling m k w))"
    using assms(2) by (cases r) (simp_all add: handling_def returns_def)
qed

lemma returns_or_fail [returns_intros]: "returns m \<Longrightarrow> (\<And>x. returns (k x)) \<Longrightarrow> returns (or_fail f m k)"
  unfolding or_fail_def by (rule returns_handling) (auto split: sum.split)

lemma returns_If [returns_intros]: "returns a \<Longrightarrow> returns b \<Longrightarrow> returns (if c then a else b)"
  by simp

lemma returns_case_sum [returns_intros]:
  "(\<And>x. returns (a x)) \<Longrightarrow> (\<And>x. returns (b x)) \<Longrightarrow> returns (case c of Inl x \<Rightarrow> a x | Inr x \<Rightarrow> b x)"
  by (cases c) auto

lemma returns_case_option [returns_intros]:
  "(c = None \<Longrightarrow> returns a) \<Longrightarrow> (\<And>x. c = Some x \<Longrightarrow> returns (b x)) \<Longrightarrow> returns (case c of None \<Rightarrow> a | Some x \<Rightarrow> b x)"
  by (cases c) auto

lemma returns_statement [returns_intros]: "returns f \<Longrightarrow> returns (statement f)"
  by (auto simp: returns_def statement_def split: list.splits)

section \<open>The repositories\<close>

lemma no_panic_values [simp]:
  "no_panic (NewID n)" "no_panic (NewEmail lib raw)" "no_panic (requireOneRow k)" "no_panic (user_of_row alib r)"
  "no_panic (verification_of_row c)" "no_panic (reset_of_row s)"
  by (auto simp: NewID_def NewEmail_def Let_def requireOneRow_def user_of_row_def verification_of_row_def reset_of_row_def
      intro!: no_panic_bind split: sum.split)

lemma returns_users [returns_intros]:
  "returns (mysql_FindByID lib i)" "returns (mysql_FindByEmail lib e)" "returns (update_user i f)"
  "returns (mysql_Create lib u)" "returns (mysql_TouchActivity lib i d)" "returns (mysql_MarkEmailVerified lib i t)"
  "returns (mysql_UpdatePassword i h)" "returns (mysql_SaveProfile lib i p)"
proof -
  show q: "returns (mysql_FindByID lib i)" "returns (mysql_FindByEmail lib e)" for lib :: "'a auth_lib_scheme" and i e
    unfolding mysql_FindByID_def mysql_FindByEmail_def queryOne_def
    by (intro returns_intros; simp add: returns_def split: option.split)+
  show u: "returns (update_user i f)" for i f
    unfolding update_user_def by (intro returns_intros) (simp add: returns_def)
  have "returns (insert_user u)" for u
    unfolding insert_user_def by (intro returns_intros) (simp add: returns_def)
  then show "returns (mysql_Create lib u)" "returns (mysql_TouchActivity lib i d)" "returns (mysql_MarkEmailVerified lib i t)"
    "returns (mysql_UpdatePassword i h)" "returns (mysql_SaveProfile lib i p)"
    unfolding mysql_Create_def mysql_TouchActivity_def mysql_MarkEmailVerified_def mysql_UpdatePassword_def mysql_SaveProfile_def
    by (intro returns_intros q u; simp)+
qed

lemma returns_secrets [returns_intros]:
  "returns (mysql_PutVerification v)" "returns (mysql_FindVerification i)" "returns (mysql_RecordVerificationAttempt i)"
  "returns (mysql_ConsumeVerification i t)" "returns (mysql_PutReset r)" "returns (mysql_FindResetByHash h)"
  "returns (mysql_ConsumeReset i t)"
  unfolding mysql_PutVerification_def mysql_FindVerification_def mysql_RecordVerificationAttempt_def update_code_def
    mysql_ConsumeVerification_def mysql_PutReset_def mysql_FindResetByHash_def mysql_ConsumeReset_def Let_def
  by (intro returns_intros; simp add: returns_def split: option.split)+

lemma returns_progress [returns_intros]: "returns (mysql_FindByUserID u)" "returns (mysql_Upsert u d)"
  using mysql_progress.find_no_panic mysql_progress.upsert_no_panic
  by (simp_all add: returns_def no_panic_def mysql_progress_repository_def)

section \<open>The other ports\<close>

definition crypto_returns :: "crypto_lib \<Rightarrow> bool" where
  "crypto_returns lib \<longleftrightarrow>
     (\<forall>cost salt plain. no_panic (bcrypt_Generate lib cost salt plain)) \<and>
     (\<forall>hash plain. no_panic (bcrypt_Compare lib hash plain)) \<and>
     (\<forall>alg k c. no_panic (jwt_Sign lib alg k c)) \<and>
     (\<forall>kf methods iss required t token. no_panic (jwt_Parse lib kf methods iss required t token))"

lemma returns_clock [returns_intros]: "returns read_clock"
  by (simp add: returns_def read_clock_def split: list.split)

lemma returns_draw: "returns draw"
  by (simp add: returns_def draw_def split: list.split)

lemma returns_generators [returns_intros]: "returns secret_VerificationCode" "returns secret_ResetToken"
  unfolding secret_VerificationCode_def secret_ResetToken_def rand_Int_def rand_Read_def Let_def
  by (intro returns_intros returns_draw; simp)+

lemma returns_crypto:
  assumes "crypto_returns lib"
  shows "returns (hasher_Hash lib cost plain)" "returns (lift (hasher_Compare lib hash plain))"
    "returns (jwt_Issue lib m uid)" "returns (jwt_Verify lib m token)"
proof -
  show "returns (hasher_Hash lib cost plain)"
    unfolding hasher_Hash_def using assms by (intro returns_intros returns_draw) (simp add: crypto_returns_def)
  show "returns (lift (hasher_Compare lib hash plain))"
    unfolding hasher_Compare_def using assms by (intro returns_lift) (simp add: crypto_returns_def)
  show "returns (jwt_Issue lib m uid)"
    unfolding jwt_Issue_def Let_def using assms by (intro returns_intros) (simp_all add: crypto_returns_def)
  have "no_panic (jwt_VerifyAt lib m t token)" for t
    unfolding jwt_VerifyAt_def using assms
    by (intro no_panic_bind) (auto simp: crypto_returns_def split: option.split)
  then show "returns (jwt_Verify lib m token)"
    unfolding jwt_Verify_def by (intro returns_intros)
qed

lemma returns_net: "returns (net_step what)" "returns (when_step b what)" "returns (deliver rcpt data)"
  by (auto simp: returns_def net_step_def when_step_def deliver_def split: list.split)

lemma returns_mailer: "returns (newMailer c m)"
proof -
  have "no_panic (Message_Validate m)" by (simp add: Message_Validate_def)
  then show ?thesis unfolding newMailer_def
    by (auto simp: LogMailer_Send_def SMTPMailer_Send_def returns_def[of "\<lambda>w. (Ok (), _ w)"] intro!: returns_andThen returns_lift returns_net)
qed

lemma returns_notifier [returns_intros]:
  "returns (notifier_SendVerificationCode (wired_notifier c) e cd)" "returns (notifier_SendPasswordReset (wired_notifier c) e tk)"
  unfolding notifier_SendVerificationCode_def notifier_SendPasswordReset_def wired_notifier_def NewNotifier_def Let_def
  by (simp_all add: returns_mailer)

section \<open>The use cases\<close>

lemma no_panic_checks [simp]:
  "no_panic (checkPasswordLength p)" "no_panic (normaliseProfile lib pf t)" "no_panic (validateData d)"
  "no_panic (validateAnswer a)" "no_panic (validateLessonID l)" "no_panic (parsePatch p)" "no_panic (email_of s raw)"
  "no_panic (profile_of_request r)" "no_panic (ctx_UserID c)" "no_panic (ParseBody lib2 dec c)" "no_panic (validator_Struct lib3 fds)"
  by (auto simp: checkPasswordLength_def normaliseProfile_def normaliseTimezone_def invalidProfile_def Let_def validateData_def
      validateAnswer_def validateLessonID_def parsePatch_def email_of_def profile_of_request_def ctx_UserID_def
      ParseBody_def validator_Struct_def intro!: no_panic_bind split: option.split gmap.split list.split)

lemma no_panic_document [simp]:
  "no_panic (schemaVersion doc)" "no_panic (parseDocument raw)" "no_panic (marshal doc)" "no_panic (merge_patch doc changes)"
  "no_panic (addLesson l doc)" "no_panic (appendAttempt at doc)" "no_panic (lessons doc)" "no_panic (set_field f j doc)"
  "no_panic (skills doc)" "no_panic (mastery doc)"
  by (auto simp: schemaVersion_def parseDocument_def marshal_def merge_patch_def addLesson_def appendAttempt_def lessons_def
      attempts_def set_field_def skills_def mastery_def unreadable_def Let_def intro!: no_panic_bind split: option.split gmap.split)

lemma returns_wired_auth:
  assumes "crypto_returns crypto"
  shows "returns (Register (wired_auth lib crypto c) creds)" "returns (Login (wired_auth lib crypto c) creds)"
    "returns (VerifyEmail (wired_auth lib crypto c) e cd)" "returns (ResendVerification (wired_auth lib crypto c) e)"
    "returns (ForgotPassword (wired_auth lib crypto c) e)" "returns (ResetPassword (wired_auth lib crypto c) tk pw)"
    "returns (SaveProfile (wired_auth lib crypto c) n pf)" "returns (service_FindByID (wired_auth lib crypto c) n)"
    "returns (RecordActivity (wired_auth lib crypto c) n)"
proof -
  let ?s = "wired_auth lib crypto c"
  have p: "returns (Create (Repo ?s) u)" "returns (FindByEmail (Repo ?s) e)" "returns (FindByID (Repo ?s) i)"
      "returns (TouchActivity (Repo ?s) i d)" "returns (MarkEmailVerified (Repo ?s) i t)" "returns (PutProfile (Repo ?s) i pf)"
      "returns (UpdatePassword (Repo ?s) i h)" for u e i d t pf h
    by (simp_all add: mysql_users_def returns_users)
  have v: "returns (PutVerification (Verifications ?s) vf)" "returns (FindVerification (Verifications ?s) i)"
      "returns (RecordVerificationAttempt (Verifications ?s) i)" "returns (ConsumeVerification (Verifications ?s) i t)"
      "returns (PutReset (Resets ?s) r)" "returns (FindResetByHash (Resets ?s) h)" "returns (ConsumeReset (Resets ?s) i t)" for vf i t r h
    by (simp_all add: mysql_verifications_def mysql_resets_def returns_secrets)
  have o: "returns (Hash ?s pw)" "returns (Compare ?s h pw)" "returns (Issue ?s n)" "returns (SendVerificationCode ?s e cd)"
      "returns (SendPasswordReset ?s e tk)" "returns (VerificationCode ?s)" "returns (ResetToken ?s)" "returns (Clock ?s)" for pw h n e cd tk
    by (simp_all add: returns_crypto [OF assms] returns_notifier returns_generators returns_clock)
  have session: "returns (openSession ?s u)" for u
    unfolding openSession_def by (intro returns_intros o) (auto split: prod.split)
  have issue: "returns (issueVerificationCode ?s u)" for u
    unfolding issueVerificationCode_def by (intro returns_intros o v)
  note defs = Register_def Login_def VerifyEmail_def ResendVerification_def ForgotPassword_def ResetPassword_def SaveProfile_def
    service_FindByID_def RecordActivity_def
  show "returns (Register ?s creds)" unfolding defs by (intro returns_intros p v o session issue; simp)
  show "returns (Login ?s creds)" unfolding defs by (intro returns_intros p v o session; simp)
  show "returns (VerifyEmail ?s e cd)" unfolding defs by (intro returns_intros p v o session; simp)
  show "returns (ResendVerification ?s e)" unfolding defs by (intro returns_intros p v o issue; simp)
  show "returns (ForgotPassword ?s e)" unfolding defs by (intro returns_intros p v o; simp)
  show "returns (ResetPassword ?s tk pw)" unfolding defs by (intro returns_intros p v o; simp)
  show "returns (SaveProfile ?s n pf)" unfolding defs by (intro returns_intros p v o; simp)
  show "returns (service_FindByID ?s n)" unfolding defs by (intro returns_intros p v o; simp)
  show "returns (RecordActivity ?s n)" unfolding defs by (intro returns_intros p v o; simp)
qed

text \<open>The progress use cases other than the one that grades.\<close>

lemma returns_mutate:
  assumes "\<And>doc. returns (f doc)" "\<And>doc v. stored_progress (snd (f doc v)) = stored_progress v"
  shows "returns (mutate (wired_progress lib crypto c) u f)"
proof (rule returnsI, unfold no_panic_def, intro allI notI)
  fix w m
  assume "fst (mutate (wired_progress lib crypto c) u f w) = Panic m"
  then have "fst (Mutate mysql_progress_repository u (mutation f) w) = Panic m"
    by (cases "Mutate mysql_progress_repository u (mutation f) w") (auto simp: mutate_def onErr_def)
  moreover have "stored_progress (snd (mutation f d v)) = stored_progress v" for d v
  proof -
    have "keeps (\<lambda>w. stored_progress w = x) (mutation f d)" for x
      by (rule keeps_mutation) (simp add: keeps_def assms(2))
    then show ?thesis using keepsD [of "\<lambda>w. stored_progress w = stored_progress v" "mutation f d" v] by simp
  qed
  ultimately obtain v where "fst (mutation f (current_of (stored_progress w u)) v) = Panic m"
    using mysql_progress.mutate_panic by blast
  moreover have "returns (mutation f d)" for d
    unfolding mutation_def by (intro returns_intros assms(1); simp)
  ultimately show False by (simp add: returns_def no_panic_def)
qed

lemma returns_recorder:
  assumes "crypto_returns crypto"
  shows "returns (recordActivity (wired_progress lib crypto c) u)"
  by (simp add: recordActivity_def wired_activity_eq) (intro returns_intros returns_wired_auth(9) [OF assms])

lemma returns_wired_progress:
  assumes "crypto_returns crypto"
  shows "returns (Get (wired_progress lib crypto c) n)" "returns (Save (wired_progress lib crypto c) n d)"
    "returns (Merge (wired_progress lib crypto c) n d)" "returns (CompleteLesson (wired_progress lib crypto c) n d)"
proof -
  let ?s = "wired_progress lib crypto c"
  have p: "returns (FindByUserID (repo ?s) u)" "returns (Upsert (repo ?s) u d)" for u d
    by (simp_all add: mysql_progress_repository_def returns_progress)
  note r = returns_recorder [OF assms, where lib = lib and c = c]
  show "returns (Get ?s n)" unfolding Get_def by (intro returns_intros p; simp)
  show "returns (Save ?s n d)" unfolding Save_def by (intro returns_intros p r; simp)
  show "returns (Merge ?s n d)" unfolding Merge_def by (intro returns_intros returns_mutate; simp)
  show "returns (CompleteLesson ?s n d)" unfolding CompleteLesson_def Let_def by (intro returns_intros returns_mutate r; simp)
qed

lemma returns_Me:
  assumes "crypto_returns crypto"
  shows "returns (service_Me (wired_auth lib crypto c) n)"
proof -
  have "returns (wired_snapshot lib crypto c n)"
    unfolding wired_snapshot_def by (intro returns_handling returns_wired_progress [OF assms]) (auto split: sum.split)
  then show ?thesis
    by (simp add: service_Me_def) (intro returns_intros returns_wired_auth [OF assms])
qed

section \<open>Grading\<close>

text \<open>Grading panics exactly on a document that it can read and where one of the two maps is null.\<close>

definition null_members :: "document \<Rightarrow> bool" where
  "null_members doc \<longleftrightarrow> (\<exists>sk ms. skills doc = Ok sk \<and> mastery doc = Ok ms \<and> (sk = NilMap \<or> ms = NilMap))"

lemma no_panic_put: "no_panic (gmap_put k v m) \<longleftrightarrow> m \<noteq> NilMap"
  by (cases m) simp_all

lemma gradeScores_panic: "\<not> no_panic (gradeScores a doc) \<longleftrightarrow> null_members doc"
proof (cases "skills doc")
  case sk: (Ok sk)
  show ?thesis
  proof (cases "mastery doc")
    case (Ok ms)
    then show ?thesis using sk
      by (cases sk; cases ms) (auto simp: gradeScores_def null_members_def Let_def no_panic_bind)
  next
    case (Panic m)
    then show ?thesis using no_panic_document(10) [of doc] by simp
  qed (simp add: sk gradeScores_def null_members_def)
next
  case (Panic m)
  then show ?thesis using no_panic_document(9) [of doc] by simp
qed (simp add: gradeScores_def null_members_def)

lemma gradeAnswer_panic:
  assumes "returns rn"
  shows "\<not> no_panic (fst (gradeAnswer rn a doc w)) \<longleftrightarrow> null_members doc"
proof (cases "gradeScores a doc")
  case (Ok d)
  have "returns (andThen rn (\<lambda>at. lift (appendAttempt (attempt_of a at) d)))"
    by (intro returns_intros assms; simp)
  then show ?thesis using Ok gradeScores_panic [of a doc] by (simp add: gradeAnswer_def returns_def)
qed (use gradeScores_panic [of a doc] in \<open>simp_all add: gradeAnswer_def\<close>)

lemma RecordAnswer_panic:
  assumes "crypto_returns crypto" "fst (RecordAnswer (wired_progress lib crypto c) u a w) = Panic m"
  shows "\<exists>doc. parseDocument (current_of (stored_progress w u)) = Ok doc \<and> null_members doc"
proof -
  let ?s = "wired_progress lib crypto c" and ?f = "gradeAnswer read_clock a"
  have q: "returns (recordActivity ?s u)" for u by (rule returns_recorder [OF assms(1)])
  then have tail: "returns (andThen (recordActivity ?s u) (\<lambda>_. ret p))" for u p by (intro returns_intros)
  have "NewID u = Ok u" "validateAnswer a = Ok ()"
    using assms(2) no_panic_checks(4) [of a]
    by (cases rule: NewID_cases [of u]; cases "validateAnswer a"; auto simp: RecordAnswer_def)+
  then have "fst (andThen (mutate ?s u ?f) (\<lambda>saved. andThen (recordActivity ?s u) (\<lambda>_. ret saved)) w) = Panic m"
    using assms(2) by (simp add: RecordAnswer_def)
  then have "fst (mutate ?s u ?f w) = Panic m"
    by (rule andThen_panic) (rule tail)
  then have "fst (Mutate mysql_progress_repository u (mutation ?f) w) = Panic m"
    by (cases "Mutate mysql_progress_repository u (mutation ?f) w") (auto simp: mutate_def onErr_def)
  moreover have "stored_progress (snd (mutation ?f d v)) = stored_progress v" for d v
  proof -
    have "keeps (\<lambda>w. stored_progress w = x) read_clock" for x
      by (rule keeps_clock [OF db_only_stored])
    then have "keeps (\<lambda>w. stored_progress w = stored_progress v) (mutation ?f d)" by (intro keeps_mutation keeps_gradeAnswer)
    then show ?thesis using keepsD [of "\<lambda>w. stored_progress w = stored_progress v" "mutation ?f d" v] by simp
  qed
  ultimately obtain v where v: "fst (mutation ?f (current_of (stored_progress w u)) v) = Panic m"
    using mysql_progress.mutate_panic by blast
  then obtain doc where d: "parseDocument (current_of (stored_progress w u)) = Ok doc"
    using no_panic_document(2) by (cases "parseDocument (current_of (stored_progress w u))") (auto simp: mutation_def no_panic_def)
  have "null_members doc"
  proof (rule ccontr)
    assume "\<not> null_members doc"
    then have "no_panic (fst (?f doc v))" for v using gradeAnswer_panic [OF returns_clock, of a doc v] by blast
    then have f: "returns (?f doc)" by (rule returnsI)
    have "returns (andThen (?f doc) (\<lambda>doc. andThen (lift (marshal doc)) (\<lambda>encoded.
        andThen (lift (validateData encoded)) (\<lambda>_. ret encoded))))"
      by (intro returns_intros f; simp)
    then have "returns (mutation ?f (current_of (stored_progress w u)))"
      by (simp add: mutation_def d returns_def)
    with v show False by (simp add: returns_def no_panic_def)
  qed
  with d show ?thesis by blast
qed

section \<open>The handlers\<close>

lemma returns_parsed: "(\<And>req. returns (k req)) \<Longrightarrow> returns (parsed lib dec rules c k)"
  unfolding parsed_def by (intro returns_intros; simp)

lemma returns_send_session: "(\<And>j. no_panic (send j)) \<Longrightarrow> returns (send_session send sess)"
  unfolding send_session_def by (intro returns_intros; simp)

lemma no_panic_send [simp]: "no_panic (OK j)" "no_panic (Created j)" "no_panic NoContent"
  by (simp_all add: OK_def Created_def NoContent_def send_JSON_def split: option.split)

lemma returns_handler:
  assumes "crypto_returns (api_crypto a)" "e \<noteq> EP_Answer"
  shows "returns (handler_of a e c)"
  using assms(2)
  by (cases e)
    (simp_all add: services_def handle_Register_def handle_Login_def handle_VerifyEmail_def handle_ResendVerification_def
      handle_ForgotPassword_def handle_ResetPassword_def handle_Me_def handle_SaveProfile_def handle_Logout_def
      handle_Get_def handle_Save_def handle_Merge_def handle_CompleteLesson_def
      returns_or_fail returns_parsed returns_lift returns_send_session returns_wired_auth [OF assms(1)]
      returns_wired_progress [OF assms(1)] returns_Me [OF assms(1)])

lemma or_fail_panic:
  assumes "or_fail f m k w = (Panic p, w1)"
  obtains "m w = (Panic p, w1)" | x w2 where "m w = (Ok x, w2)" "k x w2 = (Panic p, w1)"
  using assms by (cases "m w"; cases "fst (m w)") (auto simp: or_fail_def handling_def)

lemma handle_Answer_panic:
  assumes "handle_Answer lib s c w = (Panic m, w1)"
  shows "\<exists>u req. Local_UserID c = Some u \<and> BodyParser lib dec_AnswerRequest c = Some req \<and>
    fst (RecordAnswer s u (answer_of req) w) = Panic m"
  using assms no_panic_checks(9) [of c] no_panic_checks(11) [of lib]
  unfolding handle_Answer_def
  by (elim or_fail_panic) (auto simp: ParseBody_def no_panic_def split: option.splits)

text \<open>A request that panics: the one that records an answer, on a document of its user with a null map.\<close>

lemma guarded_panic:
  assumes lib: "crypto_returns (api_crypto a)"
    and run: "guarded a allowed (guards_of e) (handler_of a e) c w = (Panic m, w1)"
  shows "e = EP_Answer \<and> (\<exists>token claims doc. jwt_VerifyAt (api_crypto a) (wired_tokens (api_config a)) (now w) token = Ok claims \<and>
    parseDocument (current_of (stored_progress w (Claims_UserID claims))) = Ok doc \<and> null_members doc)"
proof -
  let ?v = "jwt_Verify (api_crypto a) (wired_tokens (api_config a))"
  have run': "(\<exists>raw claims w2. ?v raw w = (Ok claims, w2) \<and>
      handler_of a e (c\<lparr>Local_UserID := Some (Claims_UserID claims)\<rparr>) w2 = (Panic m, w1)) \<or> handler_of a e c w = (Panic m, w1)"
  proof (cases "Authenticated \<in> set (guards_of e)")
    case True
    then have "guards_of e = [Authenticated]" by (cases e) (auto simp: guards_of_def)
    then have "JWTAuth ?v (handler_of a e) c w = (Panic m, w1)" using run by simp
    then show ?thesis
      using returnsD [OF returns_crypto(4) [OF lib]] by (cases rule: JWTAuth_cases) auto
  next
    case False
    then have "guards_of e = [] \<or> (\<exists>b. guards_of e = [Throttled b])" by (cases e) (auto simp: guards_of_def)
    then show ?thesis using run by (auto simp: RateLimit_def split: if_splits)
  qed
  have e: "e = EP_Answer"
  proof (rule ccontr)
    assume "e \<noteq> EP_Answer"
    from returnsD [OF returns_handler [OF lib this]] run' show False by blast
  qed
  then have h: "handler_of a e c2 w2 = (Panic m, w1) \<Longrightarrow> \<exists>u req. Local_UserID c2 = Some u \<and>
      fst (RecordAnswer (wired_progress (api_auth a) (api_crypto a) (api_config a)) u (answer_of req) w2) = Panic m" for c2 w2
    using handle_Answer_panic by (fastforce simp: services_def)
  obtain raw claims w2 where v: "?v raw w = (Ok claims, w2)"
      "handler_of a e (c\<lparr>Local_UserID := Some (Claims_UserID claims)\<rparr>) w2 = (Panic m, w1)"
    using run returnsD [OF returns_crypto(4) [OF lib]] unfolding e guards_of_def by (auto elim: JWTAuth_cases)
  have w2: "db w2 = db w" "jwt_VerifyAt (api_crypto a) (wired_tokens (api_config a)) (now w) raw = Ok claims"
    using v(1) by (auto simp: jwt_Verify_def andThen_Ok_iff read_clock_def split: list.splits)
  obtain req where "fst (RecordAnswer (wired_progress (api_auth a) (api_crypto a) (api_config a)) (Claims_UserID claims) (answer_of req) w2) = Panic m"
    using h [OF v(2)] by auto
  from RecordAnswer_panic [OF lib this] w2 e show ?thesis by (auto simp: stored_progress_def)
qed

end
