(* ===== verification/Samples.thy ===== *)
theory Samples
  imports System Panics
begin

text \<open>
  Concrete inputs for the witnesses of the properties: a configuration, a site with one account and
  third parties that do as documented on it. Each lemma is the value of one step there.
\<close>


definition sample_config :: Config where
  "sample_config =
     (let c = read_config (\<lambda>_. None)
      in c\<lparr>cfg_Auth := (cfg_Auth c)\<lparr>auth_JWTSecret := ''key'', auth_JWTIssuer := ''japo''\<rparr>\<rparr>)"

text \<open>Bodies are forms here: whatever the text, Fiber finds these members in it.\<close>

definition sample_members :: "(string \<times> json) list" where
  "sample_members = [(''email'', JStr ''a@b.c''), (''password'', JStr ''secret12''), (''code'', JStr ''123456''), (''token'', JStr ''link'')]"

definition sample_validator :: validator_lib where
  "sample_validator =
     \<lparr>json_content = (\<lambda>_. False), other_body = (\<lambda>_ _. Some (JObj sample_members)), builtin = (\<lambda>_ _ _. True), run_validator = (\<lambda>_ _. []),
      IsLetter = (\<lambda>r. 97 \<le> r \<and> r \<le> 122), IsDigit = (\<lambda>r. 48 \<le> r \<and> r \<le> 57)\<rparr>"

definition sample_api :: api where
  "sample_api = \<lparr>api_auth = sample_lib, api_crypto = sample_crypto, api_validator = sample_validator, api_config = sample_config\<rparr>"

definition sample_user :: user_row where
  "sample_user = \<lparr>u_id = 1, u_email = ''a@b.c'', u_password_hash = ''$secret12'', u_email_verified_at = None,
     u_name = None, u_gender = None, u_birth_date = None, u_timezone = None, u_last_active_date = None,
     u_distinct_login_days = 1, u_streak_days = 1, u_created_at = 0, u_updated_at = 0\<rparr>"

definition sample_site :: world where
  "sample_site = sample_world\<lparr>db := (db sample_world)\<lparr>users := [sample_user], next_user_id := 2\<rparr>\<rparr>"

lemma sample_cfg: "cfg_Auth sample_config = \<lparr>auth_JWTSecret = ''key'', auth_JWTIssuer = ''japo'', auth_JWTTTL = 3600000000000, auth_BcryptCost = 10,
  auth_RequireVerifiedEmail = False, auth_VerificationCodeTTL = 900000000000, auth_MaxVerificationAttempts = 5, auth_ResetTokenTTL = 3600000000000\<rparr>"
  by (simp add: sample_config_def read_config_def env_def envInt_def envBool_def envDuration_def minute_def hour_def)

lemma sample_email: "NewEmail (mail_lib.truncate sample_lib) ''a@b.c'' = Ok ''a@b.c''"
  by (simp add: NewEmail_def sample_lib_def mail_lib.truncate_def TrimSpace_graphic graphic_def MaxEmailLength_def)


definition sample_User :: User where
  "sample_User = \<lparr>User_ID = 1, Email = ''a@b.c'', PasswordHash = ''$secret12'', Profile_of = emptyProfile,
     Activity_of = \<lparr>LastActiveDate = None, DistinctLoginDays = 1, StreakDays = 1\<rparr>, EmailVerifiedAt = None,
     User_CreatedAt = 0, User_UpdatedAt = 0\<rparr>"

lemma sample_site_sel: "users (db sample_site) = [sample_user]" "faults sample_site = []" "collation_key sample_site = (\<lambda>s. s)"
  "now sample_site = of_seconds 1700000000" "ticks sample_site = []" "codes (db sample_site) = []" "resets (db sample_site) = []"
  "progress (db sample_site) = []" "entropy sample_site = [123456, 7, 99, 5, 6]"
  by (simp_all add: sample_site_def sample_world_def)

lemma sample_row: "user_of_row sample_lib sample_user = Ok sample_User"
  by (simp add: user_of_row_def NewID_def sample_email sample_user_def sample_User_def str_or_empty_def emptyProfile_def)

lemma sample_user_sel: "u_id sample_user = 1" "u_email sample_user = ''a@b.c''" by (simp_all add: sample_user_def)

lemma sample_tokens: "wired_tokens sample_config = sample_manager"
  by (simp add: wired_tokens_def sample_cfg sample_manager_def)

lemma sample_issue: "now w = of_seconds 1700000000 \<Longrightarrow> ticks w = [] \<Longrightarrow> jwt_Issue sample_crypto sample_manager 1 w = (Ok (''token'', of_seconds 1700003600), w)"
  by (simp add: jwt_Issue_def andThen_def onErr_def read_clock_def sample_crypto_def sample_claims_def UTC_def
        of_seconds_def Let_def) (simp add: sample_manager_def NewJWTManager_def)

lemma sample_policy: "wired_policy sample_config =
    \<lparr>RequireVerifiedEmail = False, VerificationCodeTTL = 900000000000, MaxVerificationAttempts = 5, ResetTokenTTL = 3600000000000\<rparr>"
  by (simp add: wired_policy_def sample_cfg)

definition sample_ctx :: "string \<Rightarrow> Ctx" where
  "sample_ctx body = \<lparr>Authorization = ''Bearer token'', ContentType = ''application/json'', Body = body, IP = ''10.0.0.1'', Local_UserID = None\<rparr>"

lemma sample_ctx_local: "(sample_ctx body)\<lparr>Local_UserID := None\<rparr> = sample_ctx body"
  by (simp add: sample_ctx_def)

lemma sample_body: "BodyParser sample_validator dec c = dec (JObj sample_members)"
  by (simp add: BodyParser_def sample_validator_def)

lemma sample_payloads:
  "BodyParser sample_validator dec_Credentials c = Some \<lparr>C_Email = ''a@b.c'', Password = ''secret12''\<rparr>"
  "BodyParser sample_validator dec_VerifyEmailRequest c = Some \<lparr>rq_Email = ''a@b.c'', rq_Code = ''123456''\<rparr>"
  "BodyParser sample_validator dec_ResetPasswordRequest c = Some \<lparr>rq_Token = ''link'', rq_Password = ''secret12''\<rparr>"
  unfolding sample_body by code_simp+

lemma sample_valid: "validator_Struct sample_validator rules = Ok ()"
  by (simp add: validator_Struct_def sample_validator_def)

section \<open>One account\<close>

text \<open>A world where nothing fails, time stands still and the one account is \<open>sample_user\<close>.\<close>

definition quiet :: "world \<Rightarrow> bool" where
  "quiet w \<longleftrightarrow> faults w = [] \<and> ticks w = [] \<and> collation_key w = (\<lambda>s. s) \<and> now w = of_seconds 1700000000 \<and>
     accepts_text w = (\<lambda>_. True) \<and> users (db w) = [sample_user]"

lemma quiet_site: "quiet sample_site"
  by (simp add: quiet_def sample_site_def sample_world_def)

lemma quiet_clock: "quiet w \<Longrightarrow> read_clock w = (Ok (of_seconds 1700000000), w)"
  by (simp add: quiet_def read_clock_def)

lemma quiet_row: "quiet w \<Longrightarrow> row_with (\<lambda>r. u_id r = 1) (users (db w)) = Some sample_user"
  by (simp add: quiet_def row_with_def sample_user_sel)

lemma quiet_find: "quiet w \<Longrightarrow> mysql_FindByID sample_lib 1 w = (Ok sample_User, w)"
  by (simp add: mysql_FindByID_def queryOne_def andThen_def onErr_def statement_def quiet_def row_with_def sample_user_sel sample_row)

lemma quiet_find_email: "quiet w \<Longrightarrow> mysql_FindByEmail sample_lib ''a@b.c'' w = (Ok sample_User, w)"
  by (simp add: mysql_FindByEmail_def queryOne_def andThen_def onErr_def statement_def quiet_def row_with_def same_email_def
      sample_user_sel sample_row)

text \<open>Updates of the one account.\<close>

lemma one_row:
  assumes "u_id r = 1" "u_email r = ''a@b.c''"
  shows "\<exists>u. user_of_row sample_lib r = Ok u \<and> User_ID u = 1 \<and> User_CreatedAt u = u_created_at r"
  using assms by (simp add: user_of_row_def NewID_def sample_email)

lemma one_find:
  "faults w = [] \<Longrightarrow> users (db w) = [r] \<Longrightarrow> u_id r = 1 \<Longrightarrow> user_of_row sample_lib r = Ok u \<Longrightarrow>
   mysql_FindByID sample_lib 1 w = (Ok u, w)"
  by (simp add: mysql_FindByID_def queryOne_def andThen_def onErr_def statement_def row_with_def)

lemma one_update:
  assumes "faults w = []" "users (db w) = [r]" "u_id r = 1" "u_id (f r) = 1" "u_email (f r) = ''a@b.c''"
    "u_created_at (f r) = u_created_at r" "u_email r = ''a@b.c''"
  shows "\<exists>n us u. update_user 1 f w = (Ok n, w\<lparr>db := (db w)\<lparr>users := us\<rparr>\<rparr>) \<and> (f r \<noteq> r \<longrightarrow> n = 1) \<and>
    mysql_FindByID sample_lib 1 (w\<lparr>db := (db w)\<lparr>users := us\<rparr>\<rparr>) = (Ok u, w\<lparr>db := (db w)\<lparr>users := us\<rparr>\<rparr>) \<and>
    User_ID u = 1 \<and> User_CreatedAt u = u_created_at r \<and>
    (\<exists>r'. us = [r'] \<and> u_id r' = 1 \<and> u_email r' = ''a@b.c'' \<and> u_created_at r' = u_created_at r)"
proof -
  define r' where "r' = (if f r = r then r else (f r)\<lparr>u_updated_at := current_timestamp w\<rparr>)"
  have r': "u_id r' = 1" "u_email r' = ''a@b.c''" "u_created_at r' = u_created_at r"
    using assms by (simp_all add: r'_def)
  obtain u where u: "user_of_row sample_lib r' = Ok u" "User_ID u = 1" "User_CreatedAt u = u_created_at r"
    using one_row [OF r'(1,2)] r'(3) by auto
  have "mysql_FindByID sample_lib 1 (w\<lparr>db := (db w)\<lparr>users := [r']\<rparr>\<rparr>) = (Ok u, w\<lparr>db := (db w)\<lparr>users := [r']\<rparr>\<rparr>)"
    by (rule one_find [OF _ _ r'(1) u(1)]) (simp_all add: assms(1))
  then show ?thesis using assms u r'
    by (intro exI [of _ "if f r = r then 0 else 1"] exI [of _ "[r']"] exI [of _ u])
      (simp add: update_user_def statement_def update_rows_def r'_def)
qed

lemma one_touch:
  assumes "faults w = []" "users (db w) = [r]" "u_id r = 1" "u_email r = ''a@b.c''"
  shows "\<exists>u us. mysql_TouchActivity sample_lib 1 d w = (Ok u, w\<lparr>db := (db w)\<lparr>users := us\<rparr>\<rparr>) \<and>
    User_ID u = 1 \<and> User_CreatedAt u = u_created_at r"
proof -
  have "u_id (touch_row d r) = 1" "u_email (touch_row d r) = ''a@b.c''" "u_created_at (touch_row d r) = u_created_at r"
    using assms(3,4) by (simp_all add: touch_row_def Let_def)
  from one_update [where f = "touch_row d", OF assms(1-3) this assms(4)] obtain n us u where "update_user 1 (touch_row d) w = (Ok n, w\<lparr>db := (db w)\<lparr>users := us\<rparr>\<rparr>)"
      "mysql_FindByID sample_lib 1 (w\<lparr>db := (db w)\<lparr>users := us\<rparr>\<rparr>) = (Ok u, w\<lparr>db := (db w)\<lparr>users := us\<rparr>\<rparr>)"
      "User_ID u = 1" "User_CreatedAt u = u_created_at r" by blast
  then show ?thesis
    by (intro exI [of _ u] exI [of _ us]) (simp add: mysql_TouchActivity_def andThen_def onErr_def)
qed

lemma quiet_touch:
  assumes "quiet w"
  shows "\<exists>u us. mysql_TouchActivity sample_lib 1 d w = (Ok u, w\<lparr>db := (db w)\<lparr>users := us\<rparr>\<rparr>) \<and> User_ID u = 1 \<and> User_CreatedAt u = 0"
  using one_touch [of w sample_user d] assms by (simp add: quiet_def sample_user_def)

abbreviation sample_progress :: "world Service" where
  "sample_progress \<equiv> wired_progress sample_lib sample_crypto sample_config"

lemma quiet_activity:
  assumes "quiet w"
  shows "\<exists>us. recordActivity sample_progress 1 w = (Ok (), w\<lparr>db := (db w)\<lparr>users := us\<rparr>\<rparr>)"
proof -
  obtain u us where "mysql_TouchActivity sample_lib 1 (DayIn (of_seconds 1700000000) (Location sample_lib (Profile_of sample_User))) w =
      (Ok u, w\<lparr>db := (db w)\<lparr>users := us\<rparr>\<rparr>)"
    using quiet_touch [OF assms] by blast
  then show ?thesis using assms
    by (intro exI [of _ us]) (simp add: recordActivity_def wired_activity_def RecordActivity_def mysql_users_def NewID_def andThen_def onErr_def
        handling_def quiet_find quiet_clock)
qed

section \<open>Sessions\<close>

abbreviation sample_auth :: "world AuthService" where
  "sample_auth \<equiv> wired_auth sample_lib sample_crypto sample_config"

lemma sample_login: "\<exists>sess w1. Login sample_auth \<lparr>C_Email = ''a@b.c'', Password = ''secret12''\<rparr> sample_site = (Ok sess, w1) \<and>
    User_CreatedAt (S_User sess) = 0 \<and> ExpiresAt sess = of_seconds 1700003600"
proof -
  obtain u us where u: "mysql_TouchActivity sample_lib 1 (DayIn (of_seconds 1700000000) (Location sample_lib emptyProfile)) sample_site =
      (Ok u, sample_site\<lparr>db := (db sample_site)\<lparr>users := us\<rparr>\<rparr>)" "User_ID u = 1" "User_CreatedAt u = 0"
    using quiet_touch [OF quiet_site] by blast
  have c: "hasher_Compare sample_crypto ''$secret12'' ''secret12'' = Ok ()" by (simp add: hasher_Compare_def sample_crypto_def)
  have s: "PasswordHash sample_User = ''$secret12''" "User_ID sample_User = 1" "Profile_of sample_User = emptyProfile" by (simp_all add: sample_User_def)
  have g: "RequireVerifiedEmail (withDefaults (wired_policy sample_config)) = False" by (simp add: withDefaults_def sample_policy)
  show ?thesis
    by (simp add: Login_def email_of_def sample_email mysql_users_def quiet_find_email [OF quiet_site] quiet_clock [OF quiet_site]
        andThen_def onErr_def c s g u openSession_def sample_tokens sample_issue sample_site_sel)
qed

lemma sample_dates: "date_of 0 = (1970, 1, 1)" "date_of 19675 = (2023, 11, 14)"
  by code_simp+

lemma sample_times: "\<exists>j. enc_time (of_seconds 0) = Some j" "\<exists>j. enc_time (of_seconds 1700000000) = Some j"
    "\<exists>j. enc_time (of_seconds 1700003600) = Some j"
  by (simp_all add: enc_time_def format_RFC3339_def wall_day_def wall_seconds_def of_seconds_def sample_dates)

lemma sample_send:
  assumes "User_CreatedAt (S_User sess) \<in> {0, 1700000000}" "Token sess \<noteq> [] \<longrightarrow> ExpiresAt sess = of_seconds 1700003600"
    and "send = OK \<and> st = 200 \<or> send = Created \<and> st = 201"
  shows "\<exists>resp w1. send_session send sess w = (Ok resp, w1) \<and> Status resp = st"
proof -
  obtain j where j: "enc_time (of_seconds (User_CreatedAt (S_User sess))) = Some j"
    using sample_times(1,2) assms(1) by auto
  obtain k where k: "enc_time (of_seconds 1700003600) = Some k" using sample_times(3) by blast
  have "\<exists>u. NewUserResponse (S_User sess) = Some u" using j by (simp add: NewUserResponse_def)
  then have n: "\<exists>r. newSessionResponse at sess = Some r" for at
    using k assms(2) by (cases "Token sess = []") (auto simp: newSessionResponse_def Let_def)
  have r: "\<exists>r. send (newSessionResponse at sess) = Ok r \<and> Status r = st" for at
    using assms(3) n [of at] by (auto simp: OK_def Created_def send_JSON_def json_response_def)
  obtain at w1 where c: "read_clock w = (Ok at, w1)" by (metis read_clock_Ok prod.collapse)
  show ?thesis
    using r [of zero_time] r [of at] c by (cases "Token sess = []") (auto simp: send_session_def andThen_def)
qed

lemma sample_serve:
  assumes "guards_of x = [Throttled b]" "handler_of sample_api x (sample_ctx body) w = (Ok resp, w1)"
  shows "serve sample_api (\<lambda>_. True) (Some x) (sample_ctx body) w = (resp, w1)"
  using assms by (simp add: serve_def sample_ctx_local RateLimit_def)

lemma sample_login_served:
  "\<exists>resp w1. serve sample_api (\<lambda>_. True) (Some EP_Login) (sample_ctx []) sample_site = (resp, w1) \<and> Status resp = 200"
proof -
  obtain sess w1 where l: "Login sample_auth \<lparr>C_Email = ''a@b.c'', Password = ''secret12''\<rparr> sample_site = (Ok sess, w1)"
      "User_CreatedAt (S_User sess) = 0" "ExpiresAt sess = of_seconds 1700003600"
    using sample_login by blast
  obtain resp w2 where "send_session OK sess w1 = (Ok resp, w2)" "Status resp = 200"
    using sample_send [of sess OK 200 w1] l by auto
  then have "handler_of sample_api EP_Login (sample_ctx []) sample_site = (Ok resp, w2)" "Status resp = 200"
    using l(1) by (simp_all add: handle_Login_def parsed_def ParseBody_def sample_api_def services_def sample_payloads
      sample_valid or_fail_def handling_def)
  then show ?thesis using sample_serve [of EP_Login] by (auto simp: guards_of_def)
qed

section \<open>A document\<close>

definition with_document :: "string \<Rightarrow> world \<Rightarrow> world" where
  "with_document d w = w\<lparr>db := (db w)\<lparr>progress := [\<lparr>p_id = 1, p_user_id = 1, p_data = d, p_created_at = 1700000000, p_updated_at = 1700000000\<rparr>],
     next_progress_id := 2\<rparr>\<rparr>"

lemma with_document_quiet: "quiet w \<Longrightarrow> quiet (with_document d w)"
  by (simp add: quiet_def with_document_def)

lemma stored_with_document: "stored_progress (with_document d w) u = (if u = 1 then Some d else None)"
  by (simp add: stored_progress_def with_document_def progress_of_def row_with_def)

lemma sample_upsert:
  assumes "quiet w" "progress (db w) = []" "next_progress_id (db w) = 1"
  shows "upsert_progress 1 d w = (Ok (), with_document d w)"
proof -
  have "current_timestamp w = 1700000000" using assms(1) by (simp add: quiet_def current_timestamp_def seconds_def of_seconds_def)
  then show ?thesis using assms quiet_row [OF assms(1)]
    by (simp add: upsert_progress_def statement_def quiet_def put_progress_def progress_of_def row_with_def with_document_def)
qed

lemma sample_find_document:
  assumes "quiet w"
  shows "\<exists>p. mysql_FindByUserID 1 (with_document d w) = (Ok p, with_document d w) \<and> Data p = d"
  using with_document_quiet [OF assms, of d]
  by (simp add: mysql_FindByUserID_def select_progress_def statement_def quiet_def andThen_def onErr_def NewID_def progress_of_def
      row_with_def with_document_def)

lemma sample_save:
  assumes "quiet w" "progress (db w) = []" "next_progress_id (db w) = 1" "validateData d = Ok ()"
  shows "\<exists>p us. Save sample_progress 1 d w =
    (Ok p, (with_document d w)\<lparr>db := (db (with_document d w))\<lparr>users := us\<rparr>\<rparr>) \<and> Data p = d"
proof -
  obtain us where "recordActivity sample_progress 1 (with_document d w) =
      (Ok (), (with_document d w)\<lparr>db := (db (with_document d w))\<lparr>users := us\<rparr>\<rparr>)"
    using quiet_activity [OF with_document_quiet [OF assms(1)]] by blast
  moreover obtain p where "mysql_FindByUserID 1 (with_document d w) = (Ok p, with_document d w)" "Data p = d"
    using sample_find_document [OF assms(1)] by blast
  ultimately show ?thesis using sample_upsert [OF assms(1-3), of d] assms(4)
    by (intro exI [of _ p] exI [of _ us]) (simp add: Save_def NewID_def andThen_def onErr_def mysql_Upsert_def del: validateData_Ok)
qed

lemma empty_object: "validateData ''{}'' = Ok ()"
proof -
  have "json_Valid ''{}''" by code_simp
  then show ?thesis by (simp add: MaxDataSize_def)
qed

lemma site_free: "progress (db sample_site) = []" "next_progress_id (db sample_site) = 1"
  by (simp_all add: sample_site_def sample_world_def)

section \<open>A request with a token\<close>

lemma sample_token: "jwt_VerifyAt sample_crypto (wired_tokens sample_config) (of_seconds 1700000000) ''token'' = Ok sample_claims"
  unfolding sample_tokens
  by (simp add: jwt_VerifyAt_def sample_crypto_def of_seconds_def key_function_def is_HMAC_def HS256_def
        sample_manager_def NewJWTManager_def sample_claims_def claims_for_def)

lemma sample_guard:
  assumes "quiet w"
  shows "JWTAuth (jwt_Verify sample_crypto (wired_tokens sample_config)) h (sample_ctx body) w =
    h ((sample_ctx body)\<lparr>Local_UserID := Some 1\<rparr>) w"
proof -
  have "TrimSpace ''token'' = ''token''" by (simp add: TrimSpace_graphic graphic_def)
  moreover have "Claims_UserID sample_claims = 1" by (simp add: sample_claims_def claims_for_def)
  ultimately show ?thesis
    by (simp add: JWTAuth_def sample_ctx_def starts_with_def bearerPrefix_def jwt_Verify_def or_fail_def handling_def andThen_def Let_def
        quiet_clock [OF assms] sample_token)
qed

lemma sample_put:
  "\<exists>resp us. serve sample_api (\<lambda>_. True) (Some EP_SaveProgress) (sample_ctx ''{}'') sample_site =
    (resp, (with_document ''{}'' sample_site)\<lparr>db := (db (with_document ''{}'' sample_site))\<lparr>users := us\<rparr>\<rparr>) \<and> Status resp = 200"
proof -
  obtain p us where s: "Save sample_progress 1 ''{}'' sample_site =
      (Ok p, (with_document ''{}'' sample_site)\<lparr>db := (db (with_document ''{}'' sample_site))\<lparr>users := us\<rparr>\<rparr>)"
    using sample_save [OF quiet_site site_free empty_object] by blast
  show ?thesis
    by (simp add: serve_def guards_of_def sample_api_def sample_ctx_local sample_guard [OF quiet_site] services_def handle_Save_def
        documentFromBody_def ctx_UserID_def or_fail_def handling_def)
      (simp add: sample_ctx_def s send_document_def, blast)
qed
section \<open>The other public requests\<close>

text \<open>A registration on an empty site, whose random numbers run out after the salt.\<close>

definition empty_site :: world where
  "empty_site = sample_world\<lparr>entropy := [7]\<rparr>"

definition new_row :: user_row where
  "new_row = sample_user\<lparr>u_last_active_date := Some 19675, u_created_at := 1700000000, u_updated_at := 1700000000\<rparr>"

definition registered :: world where
  "registered = empty_site\<lparr>entropy := [], db := (db empty_site)\<lparr>users := [new_row], next_user_id := 2\<rparr>\<rparr>"

definition new_User :: User where
  "new_User = sample_User\<lparr>Activity_of := \<lparr>LastActiveDate = Some 19675, DistinctLoginDays = 1, StreakDays = 1\<rparr>,
     User_CreatedAt := 1700000000, User_UpdatedAt := 1700000000\<rparr>"

lemma new_row: "user_of_row sample_lib new_row = Ok new_User"
  by (simp add: user_of_row_def NewID_def sample_email new_row_def new_User_def sample_user_def sample_User_def str_or_empty_def emptyProfile_def)

lemma create_sample:
  "mysql_Create sample_lib \<lparr>User_ID = 0, Email = ''a@b.c'', PasswordHash = ''$secret12'', Profile_of = emptyProfile,
     Activity_of = \<lparr>LastActiveDate = Some 19675, DistinctLoginDays = 1, StreakDays = 1\<rparr>,
     EmailVerifiedAt = None, User_CreatedAt = 0, User_UpdatedAt = 0\<rparr> (empty_site\<lparr>entropy := []\<rparr>) = (Ok new_User, registered)"
proof -
  have i: "insert_user \<lparr>User_ID = 0, Email = ''a@b.c'', PasswordHash = ''$secret12'', Profile_of = emptyProfile,
     Activity_of = \<lparr>LastActiveDate = Some 19675, DistinctLoginDays = 1, StreakDays = 1\<rparr>,
     EmailVerifiedAt = None, User_CreatedAt = 0, User_UpdatedAt = 0\<rparr> (empty_site\<lparr>entropy := []\<rparr>) = (Ok 1, registered)"
    by (simp add: insert_user_def statement_def empty_site_def sample_world_def registered_def new_row_def sample_user_def
        current_timestamp_def seconds_def of_seconds_def)
  have "mysql_FindByID sample_lib 1 registered = (Ok new_User, registered)"
  proof -
    have "faults registered = []" "users (db registered) = [new_row]" "u_id new_row = 1"
      by (simp_all add: registered_def empty_site_def sample_world_def new_row_def sample_user_def)
    then show ?thesis
      by (simp add: mysql_FindByID_def queryOne_def statement_def row_with_def andThen_def onErr_def new_row)
  qed
  with i show ?thesis by (simp add: mysql_Create_def andThen_def onErr_def NewID_def)
qed

lemma sample_register:
  "\<exists>sess. Register sample_auth \<lparr>C_Email = ''a@b.c'', Password = ''secret12''\<rparr> empty_site = (Ok sess, registered) \<and>
    User_CreatedAt (S_User sess) = 1700000000 \<and> ExpiresAt sess = of_seconds 1700003600"
proof -
  have f: "mysql_FindByEmail sample_lib ''a@b.c'' empty_site = (Err (Sentinel ErrUserNotFound), empty_site)"
    by (simp add: mysql_FindByEmail_def queryOne_def andThen_def onErr_def statement_def row_with_def empty_site_def sample_world_def)
  have h: "hasher_Hash sample_crypto n ''secret12'' empty_site = (Ok ''$secret12'', empty_site\<lparr>entropy := []\<rparr>)" for n
    by (simp add: hasher_Hash_def bcryptMaxPasswordLength_def draw_def empty_site_def andThen_def onErr_def sample_crypto_def)
  have c: "read_clock (empty_site\<lparr>entropy := []\<rparr>) = (Ok (of_seconds 1700000000), empty_site\<lparr>entropy := []\<rparr>)"
    "read_clock registered = (Ok (of_seconds 1700000000), registered)"
    by (simp_all add: read_clock_def empty_site_def registered_def sample_world_def)
  have v: "secret_VerificationCode registered = (Err (Errorf ''draw verification code'' [LibError ''rand'']), registered)"
    by (simp add: secret_VerificationCode_eq rand_Int_def draw_def andThen_def onErr_def registered_def)
  have d: "UTCDay (of_seconds 1700000000) = 19675"
    by (simp add: UTCDay_def DayIn_def of_seconds_def seconds_def)
  have i: "jwt_Issue sample_crypto sample_manager 1 registered = (Ok (''token'', of_seconds 1700003600), registered)"
    by (rule sample_issue) (simp_all add: registered_def empty_site_def sample_world_def)
  have u: "User_ID new_User = 1" "User_CreatedAt new_User = 1700000000" by (simp_all add: new_User_def sample_User_def)
  have g: "RequireVerifiedEmail (withDefaults (wired_policy sample_config)) = False" by (simp add: withDefaults_def sample_policy)
  show ?thesis
    by (simp add: Register_def email_of_def sample_email checkPasswordLength_def MinPasswordLength_def MaxPasswordLength_def
        mysql_users_def f h c d g andThen_def onErr_def handling_def create_sample issueVerificationCode_def v openSession_def
        sample_tokens i u)
qed

section \<open>An account with a live code and a live link\<close>


text \<open>A live code and a live link of the account.\<close>

definition coded_site :: world where
  "coded_site = sample_site\<lparr>db := (db sample_site)\<lparr>
     codes := [\<lparr>c_user_id = 1, c_code_hash = ''#123456'', c_attempts = 0, c_expires_at = 1700000900, c_consumed_at = None\<rparr>],
     resets := [\<lparr>r_user_id = 1, r_token_hash = ''#link'', r_expires_at = 1700003600, r_consumed_at = None\<rparr>]\<rparr>\<rparr>"

lemma quiet_coded: "quiet coded_site"
  by (simp add: quiet_def coded_site_def sample_site_def sample_world_def)

lemma one_mark:
  assumes "faults w = []" "users (db w) = [r]" "u_id r = 1" "u_email r = ''a@b.c''" "u_email_verified_at r = None"
  shows "\<exists>u us. mysql_MarkEmailVerified sample_lib 1 t w = (Ok u, w\<lparr>db := (db w)\<lparr>users := us\<rparr>\<rparr>) \<and>
    User_ID u = 1 \<and> User_CreatedAt u = u_created_at r \<and>
    (\<exists>r'. us = [r'] \<and> u_id r' = 1 \<and> u_email r' = ''a@b.c'' \<and> u_created_at r' = u_created_at r)"
proof -
  let ?f = "\<lambda>r. r\<lparr>u_email_verified_at := Some (seconds t)\<rparr>"
  have f: "u_id (?f r) = 1" "u_email (?f r) = ''a@b.c''" "u_created_at (?f r) = u_created_at r" "?f r \<noteq> r"
    using assms(3-5) by (simp_all, metis option.distinct(1) user_row.select_convs(4) user_row.surjective user_row.update_convs(4))
  from one_update [where f = ?f, OF assms(1-3) f(1-3) assms(4)] f(4)
  obtain us u where "update_user 1 ?f w = (Ok 1, w\<lparr>db := (db w)\<lparr>users := us\<rparr>\<rparr>)"
      "mysql_FindByID sample_lib 1 (w\<lparr>db := (db w)\<lparr>users := us\<rparr>\<rparr>) = (Ok u, w\<lparr>db := (db w)\<lparr>users := us\<rparr>\<rparr>)"
      "User_ID u = 1" "User_CreatedAt u = u_created_at r"
      "\<exists>r'. us = [r'] \<and> u_id r' = 1 \<and> u_email r' = ''a@b.c'' \<and> u_created_at r' = u_created_at r" by blast
  then show ?thesis
    by (intro exI [of _ u] exI [of _ us]) (simp add: mysql_MarkEmailVerified_def andThen_def onErr_def requireOneRow_def)
qed


text \<open>The code is redeemed; the link is.\<close>

definition redeemed_site :: world where
  "redeemed_site = coded_site\<lparr>db := (db coded_site)\<lparr>
     codes := [\<lparr>c_user_id = 1, c_code_hash = ''#123456'', c_attempts = 0, c_expires_at = 1700000900, c_consumed_at = Some 1700000000\<rparr>]\<rparr>\<rparr>"

lemma coded_sel: "faults coded_site = []" "users (db coded_site) = [sample_user]"
    "codes (db coded_site) = [\<lparr>c_user_id = 1, c_code_hash = ''#123456'', c_attempts = 0, c_expires_at = 1700000900, c_consumed_at = None\<rparr>]"
    "resets (db coded_site) = [\<lparr>r_user_id = 1, r_token_hash = ''#link'', r_expires_at = 1700003600, r_consumed_at = None\<rparr>]"
    "faults redeemed_site = []" "ticks redeemed_site = []" "now redeemed_site = of_seconds 1700000000"
    "users (db redeemed_site) = [sample_user]" "u_email_verified_at sample_user = None" "u_created_at sample_user = 0"
    "entropy coded_site = [123456, 7, 99, 5, 6]"
  by (simp_all add: coded_site_def redeemed_site_def sample_site_def sample_world_def sample_user_def)

lemma sample_verify:
  "\<exists>sess w1. VerifyEmail sample_auth ''a@b.c'' ''123456'' coded_site = (Ok sess, w1) \<and>
     User_CreatedAt (S_User sess) = 0 \<and> ExpiresAt sess = of_seconds 1700003600 \<and> Token sess = ''token''"
proof -
  let ?v = "\<lparr>V_UserID = 1, CodeHash = ''#123456'', Attempts = 0, V_ExpiresAt = of_seconds 1700000900, V_ConsumedAt = None\<rparr>"
  have pol: "MaxVerificationAttempts (withDefaults (wired_policy sample_config)) = 5" by (simp add: withDefaults_def sample_policy)
  have f: "mysql_FindVerification 1 coded_site = (Ok ?v, coded_site)"
    by (simp add: mysql_FindVerification_def andThen_def onErr_def statement_def coded_sel code_of_def row_with_def
        verification_of_row_def NewID_def)
  have c: "mysql_ConsumeVerification 1 t coded_site = (Ok (), redeemed_site)" if "seconds t = 1700000000" for t
    using that by (simp add: mysql_ConsumeVerification_def update_code_def onErr_def statement_def coded_sel update_rows_def
        redeemed_site_def)
  obtain u us where m: "mysql_MarkEmailVerified sample_lib 1 (of_seconds 1700000000) redeemed_site = (Ok u, redeemed_site\<lparr>db := (db redeemed_site)\<lparr>users := us\<rparr>\<rparr>)"
      "User_ID u = 1" "User_CreatedAt u = 0"
    and us: "\<exists>r'. us = [r'] \<and> u_id r' = 1 \<and> u_email r' = ''a@b.c'' \<and> u_created_at r' = 0"
    using one_mark [of redeemed_site sample_user "of_seconds 1700000000"] by (auto simp: coded_sel sample_user_sel)
  obtain r' where r: "us = [r']" "u_id r' = 1" "u_email r' = ''a@b.c''" "u_created_at r' = 0" using us by blast
  define w2 where "w2 = redeemed_site\<lparr>db := (db redeemed_site)\<lparr>users := us\<rparr>\<rparr>"
  have w2: "faults w2 = []" "users (db w2) = [r']" by (simp_all add: w2_def r(1) coded_sel)
  obtain u2 us2 where t: "mysql_TouchActivity sample_lib 1 (DayIn (of_seconds 1700000000) (Location sample_lib (Profile_of u))) w2 =
      (Ok u2, w2\<lparr>db := (db w2)\<lparr>users := us2\<rparr>\<rparr>)" "User_ID u2 = 1" "User_CreatedAt u2 = 0"
    using one_touch [OF w2 r(2,3), of "DayIn (of_seconds 1700000000) (Location sample_lib (Profile_of u))"] r(4) by auto
  define w3 where "w3 = w2\<lparr>db := (db w2)\<lparr>users := us2\<rparr>\<rparr>"
  have i: "jwt_Issue sample_crypto sample_manager 1 w3 = (Ok (''token'', of_seconds 1700003600), w3)"
    by (rule sample_issue) (simp_all add: w3_def w2_def coded_sel)
  have s: "EmailVerified sample_User = False" "User_ID sample_User = 1" by (simp_all add: sample_User_def EmailVerified_def)
  have h: "hashSecret sample_lib ''123456'' = ''#123456''" by (simp add: hashSecret_def sample_lib_def)
  have v: "Verification_Usable ?v (of_seconds 1700000000) (MaxVerificationAttempts (withDefaults (wired_policy sample_config)))"
    unfolding pol by (simp add: Verification_Usable_def UTC_def of_seconds_def)
  have utc: "UTC (of_seconds 1700000000) = of_seconds 1700000000" "seconds (of_seconds 1700000000) = 1700000000"
    by (simp_all add: UTC_def of_seconds_def seconds_def)
  note [simp] = f c m t s h v utc
  show ?thesis
    by (simp add: VerifyEmail_def email_of_def sample_email mysql_users_def mysql_verifications_def quiet_find_email [OF quiet_coded]
        quiet_clock [OF quiet_coded] andThen_def onErr_def handling_def sameSecret_def w2_def [symmetric] w3_def [symmetric]
        openSession_def sample_tokens i)
qed

text \<open>The account has another password when the link is used.\<close>

definition linked_site :: world where
  "linked_site = coded_site\<lparr>db := (db coded_site)\<lparr>users := [sample_user\<lparr>u_password_hash := ''$forgotten''\<rparr>]\<rparr>\<rparr>"

definition salted_site :: world where
  "salted_site = linked_site\<lparr>entropy := [7, 99, 5, 6]\<rparr>"

lemma linked_sel: "faults linked_site = []" "ticks linked_site = []" "now linked_site = of_seconds 1700000000"
    "entropy linked_site = [123456, 7, 99, 5, 6]" "faults salted_site = []"
    "users (db salted_site) = [sample_user\<lparr>u_password_hash := ''$forgotten''\<rparr>]"
    "resets (db linked_site) = [\<lparr>r_user_id = 1, r_token_hash = ''#link'', r_expires_at = 1700003600, r_consumed_at = None\<rparr>]"
  by (simp_all add: linked_site_def salted_site_def coded_site_def sample_site_def sample_world_def)

lemma sample_reset: "\<exists>w1. ResetPassword sample_auth ''link'' ''secret12'' linked_site = (Ok (), w1)"
proof -
  let ?v = "\<lparr>R_UserID = 1, TokenHash = ''#link'', R_ExpiresAt = of_seconds 1700003600, R_ConsumedAt = None\<rparr>"
  have f: "mysql_FindResetByHash ''#link'' linked_site = (Ok ?v, linked_site)"
    by (simp add: mysql_FindResetByHash_def andThen_def onErr_def statement_def linked_sel reset_of_hash_def row_with_def
        reset_of_row_def NewID_def)
  have h: "hashSecret sample_lib ''link'' = ''#link''" by (simp add: hashSecret_def sample_lib_def)
  have b: "hasher_Hash sample_crypto n ''secret12'' linked_site = (Ok ''$secret12'', salted_site)" for n
    by (simp add: hasher_Hash_def bcryptMaxPasswordLength_def draw_def linked_sel andThen_def onErr_def sample_crypto_def salted_site_def)
  let ?r = "sample_user\<lparr>u_password_hash := ''$forgotten''\<rparr>" and ?f = "\<lambda>r. r\<lparr>u_password_hash := ''$secret12''\<rparr>"
  have r: "u_id ?r = 1" "u_email ?r = ''a@b.c''" "?f ?r \<noteq> ?r" by (simp_all add: sample_user_def)
  obtain n us where u: "update_user 1 ?f salted_site = (Ok n, salted_site\<lparr>db := (db salted_site)\<lparr>users := us\<rparr>\<rparr>)" "n = 1"
    using one_update [where f = ?f and r = ?r, OF linked_sel(5,6)] r by auto
  define w2 where "w2 = salted_site\<lparr>db := (db salted_site)\<lparr>users := us\<rparr>\<rparr>"
  have p: "mysql_UpdatePassword 1 ''$secret12'' salted_site = (Ok (), w2)"
    using u by (simp add: mysql_UpdatePassword_def andThen_def onErr_def requireOneRow_def w2_def)
  have "faults w2 = []" by (simp add: w2_def linked_sel)
  then obtain w3 where c: "mysql_ConsumeReset 1 (of_seconds 1700000000) w2 = (Ok (), w3)"
    by (simp add: mysql_ConsumeReset_def onErr_def statement_def)
  have k: "read_clock linked_site = (Ok (of_seconds 1700000000), linked_site)" by (simp add: read_clock_def linked_sel)
  have v: "Reset_Usable ?v (of_seconds 1700000000)" "UTC (of_seconds 1700000000) = of_seconds 1700000000"
    by (simp_all add: Reset_Usable_def UTC_def of_seconds_def)
  obtain x w4 where m: "mysql_MarkEmailVerified sample_lib 1 (of_seconds 1700000000) w3 = (x, w4)" by fastforce
  have np: "x \<noteq> Panic q" for q using m returnsD [OF returns_users(6)] by blast
  note [simp] = f h b p c k v m
  show ?thesis
    by (simp add: ResetPassword_def checkPasswordLength_def MinPasswordLength_def MaxPasswordLength_def mysql_users_def mysql_resets_def
        andThen_def onErr_def handling_def) (cases x; simp add: np)
qed

section \<open>The public requests served\<close>


lemma sample_register_served:
  "\<exists>resp w1. serve sample_api (\<lambda>_. True) (Some EP_Register) (sample_ctx []) empty_site = (resp, w1) \<and> Status resp = 201"
proof -
  obtain sess where r: "Register sample_auth \<lparr>C_Email = ''a@b.c'', Password = ''secret12''\<rparr> empty_site = (Ok sess, registered)"
      "User_CreatedAt (S_User sess) = 1700000000" "ExpiresAt sess = of_seconds 1700003600"
    using sample_register by blast
  obtain resp w2 where "send_session Created sess registered = (Ok resp, w2)" "Status resp = 201"
    using sample_send [of sess Created 201 registered] r by auto
  then have "handler_of sample_api EP_Register (sample_ctx []) empty_site = (Ok resp, w2)" "Status resp = 201"
    using r(1) by (simp_all add: handle_Register_def parsed_def ParseBody_def sample_api_def services_def sample_payloads
      sample_valid or_fail_def handling_def)
  then show ?thesis using sample_serve [of EP_Register] by (auto simp: guards_of_def)
qed

lemma sample_verify_served:
  "\<exists>resp w1. serve sample_api (\<lambda>_. True) (Some EP_VerifyEmail) (sample_ctx []) coded_site = (resp, w1) \<and> Status resp = 200"
proof -
  obtain sess w1 where l: "VerifyEmail sample_auth ''a@b.c'' ''123456'' coded_site = (Ok sess, w1)"
      "User_CreatedAt (S_User sess) = 0" "ExpiresAt sess = of_seconds 1700003600"
    using sample_verify by blast
  obtain resp w2 where "send_session OK sess w1 = (Ok resp, w2)" "Status resp = 200"
    using sample_send [of sess OK 200 w1] l by auto
  then have "handler_of sample_api EP_VerifyEmail (sample_ctx []) coded_site = (Ok resp, w2)" "Status resp = 200"
    using l(1) by (simp_all add: handle_VerifyEmail_def parsed_def ParseBody_def sample_api_def services_def sample_payloads
      sample_valid or_fail_def handling_def)
  then show ?thesis using sample_serve [of EP_VerifyEmail] by (auto simp: guards_of_def)
qed

lemma sample_reset_served:
  "\<exists>resp w1. serve sample_api (\<lambda>_. True) (Some EP_ResetPassword) (sample_ctx []) linked_site = (resp, w1) \<and> Status resp = 204"
proof -
  obtain w1 where l: "ResetPassword sample_auth ''link'' ''secret12'' linked_site = (Ok (), w1)"
    using sample_reset by blast
  then have "handler_of sample_api EP_ResetPassword (sample_ctx []) linked_site = (Ok \<lparr>Status = 204, Payload = NoBody\<rparr>, w1)"
    by (simp add: handle_ResetPassword_def parsed_def ParseBody_def sample_api_def services_def sample_payloads
      sample_valid or_fail_def handling_def NoContent_def)
  then show ?thesis using sample_serve [of EP_ResetPassword] by (auto simp: guards_of_def)
qed

lemma sample_tables: "tables_ok (\<lambda>s. s) (db sample_site)" "tables_ok (\<lambda>s. s) (db empty_site)" "tables_ok (\<lambda>s. s) (db coded_site)"
  by (simp_all add: tables_ok_def keys_ok_def owned_def sample_site_def sample_world_def empty_site_def coded_site_def sample_user_def)

lemma sample_keys: "collation_key sample_site = (\<lambda>s. s)" "collation_key empty_site = (\<lambda>s. s)" "collation_key coded_site = (\<lambda>s. s)"
  by (simp_all add: sample_site_def sample_world_def empty_site_def coded_site_def)

end
