(* ===== verification/SampleAnswers.thy ===== *)
theory SampleAnswers
  imports Samples
begin

text \<open>
  A first answer on the sample site, evaluated through the service and the route, and the same answer
  on a document whose map of scores is null.
\<close>

section \<open>The size of rendered text\<close>

lemma length_html_esc: "length (html_esc s) \<le> 6 * length s"
  by (induction s rule: html_esc.induct) (auto simp: take_Suc_conv_app_nth)

lemma length_quote_piece: "b \<noteq> [] \<Longrightarrow> length (quote_piece r b) \<le> 6 * length b"
proof -
  assume "b \<noteq> []"
  then have "1 \<le> length b" by (cases b) simp_all
  moreover have "length (if c then x else y) \<le> n" if "length x \<le> n" "length y \<le> n" for c and x y :: string and n
    using that by simp
  note if_bound = this
  have "length (quote_piece r b) \<le> max 6 (length b)"
    unfolding quote_piece_def by (intro if_bound) simp_all
  ultimately show ?thesis by linarith
qed

lemma length_quote: "length (quote s) \<le> 6 * length s"
proof (induction s rule: split_runes.induct)
  case (2 c cs)
  let ?n = "snd (decode_rune (c # cs))"
  have "take ?n (c # cs) \<noteq> []" using decode_rune_size_pos [of "c # cs"] by simp
  from length_quote_piece [OF this, of "fst (decode_rune (c # cs))"] 2 [OF refl]
  have "length (quote (c # cs)) \<le> 6 * length (take ?n (c # cs)) + 6 * length (drop ?n (c # cs))"
    by (simp add: quote_def Let_def del: take_Cons drop_Cons)
  also have "\<dots> = 6 * length (take ?n (c # cs) @ drop ?n (c # cs))" by (simp del: append_take_drop_id)
  finally show ?case by simp
qed (simp add: quote_def)

section \<open>The answer\<close>

definition kana_a :: string where "kana_a = [CHR 0xE3, CHR 0x81, CHR 0x82]"

definition sample_answer :: Answer where
  "sample_answer = \<lparr>Kana = kana_a, ASkill = SkillReading, Correct = True, Chosen = ''a''\<rparr>"

lemma kana_runes: "to_runes kana_a = [0x3042]"
  by (simp add: kana_a_def to_runes_def second_byte_def cont_byte_def Let_def)

lemma sample_answer_valid: "validateAnswer sample_answer = Ok ()" 
  by (simp add: validateAnswer_def sample_answer_def validKana_characterUnit kana_runes characterUnit_def MaxChosenLength_def Skill_Valid_def isKana_def isKanaBase_def)

lemma fields: "fieldSkills = ''skillsByKana''" "fieldMastery = ''masteryByKana''" "fieldAttempts = ''recentAttempts''"
    "fieldSchemaVersion = ''schemaVersion''"
  by (simp_all add: fieldSkills_def fieldMastery_def fieldAttempts_def fieldSchemaVersion_def)

definition first_skills :: Skills where
  "first_skills = setScore SkillReading (applyAnswer (score zeroSkills SkillReading) True) zeroSkills"

lemma sample_scores: "gradeScores sample_answer [] =
   Ok [(''masteryByKana'', enc_map enc_string (GMap [(kana_a, masteryFor first_skills)])), (''skillsByKana'', enc_map enc_skills (GMap [(kana_a, first_skills)]))]"
  by (simp add: gradeScores_def skills_def mastery_def set_field_def Let_def fields sample_answer_def gmap_get_def first_skills_def
     del: enc_map.simps)

definition sample_attempt :: json where
  "sample_attempt = JObj [(''kana'', enc_string kana_a), (''skill'', enc_string SkillReading), (''correct'', JBool True), (''chosen'', enc_string ''a''), (''at'', JStr ''2023-11-14T22:13:20Z'')]"

lemma sample_encoded: "enc_attempt (attempt_of sample_answer (of_seconds 1700000000)) = Some sample_attempt"
proof -
  have "format_RFC3339 (UTC (of_seconds 1700000000)) = Some ''2023-11-14T22:13:20Z''" by code_simp
  then show ?thesis
    by (simp add: enc_attempt_def attempt_of_def sample_answer_def enc_time_def omitempty_def sample_attempt_def kana_a_def SkillReading_def)
qed

definition first_document :: document where
  "first_document = [(''masteryByKana'', enc_map enc_string (GMap [(kana_a, masteryFor first_skills)])), (''recentAttempts'', JArr [sample_attempt]),
     (''skillsByKana'', enc_map enc_skills (GMap [(kana_a, first_skills)]))]"

lemma sample_graded: "quiet w \<Longrightarrow> gradeAnswer read_clock sample_answer [] w = (Ok first_document, w)"
  by (simp add: gradeAnswer_def sample_scores andThen_def quiet_clock appendAttempt_def attempts_def fields newest_def MaxRecentAttempts_def
      enc_attempts_def sample_encoded set_field_def first_document_def)

lemma length_escaped: "length (html_esc (quote s)) \<le> 36 * length s"
  using length_html_esc [of "quote s"] length_quote [of s] by linarith

lemma sample_values: "masteryFor first_skills = ''discovered''" "Itoa 2 = ''2''" "Itoa 0 = ''0''" "Itoa (Reading first_skills) = ''20''"
    "Recognition first_skills = 0" "Writing first_skills = 0" "Listening first_skills = 0"
  by code_simp+

lemma sample_length: "length (render (enc_document (mput fieldSchemaVersion (enc_int 2) first_document))) \<le> MaxDataSize"
proof -
  have e: "length (html_esc (quote s)) \<le> 504" if "length s \<le> 14" for s
    using length_escaped [of s] that by linarith
  show ?thesis
    using e [of kana_a] e [of "''masteryByKana''"] e [of "''discovered''"] e [of "''recentAttempts''"] e [of SkillReading]
      e [of "''a''"] e [of "''schemaVersion''"] e [of "''skillsByKana''"]
    by (simp add: enc_document_def fields first_document_def enc_int_def sample_attempt_def enc_string_def enc_skills_def
        sample_values MaxDataSize_def kana_a_def SkillReading_def)
qed

lemma sample_doc_ok: "doc_ok first_document"
proof -
  have "enc_attempts [attempt_of sample_answer (of_seconds 1700000000)] = Some (JArr [sample_attempt])"
    by (simp add: enc_attempts_def sample_encoded)
  from member_ok_attempts [OF this] show ?thesis
    unfolding first_document_def doc_ok_def
    by (simp add: gomap_ok_def valid_utf8_ascii del: enc_map.simps)
qed

lemma sample_marshal: "\<exists>d. marshal first_document = Ok d \<and> validateData d = Ok ()"
proof -
  have v: "valid_utf8 fieldSchemaVersion" unfolding fields by (intro valid_utf8_ascii) simp
  let ?d = "mput fieldSchemaVersion (enc_int 2) first_document"
  have "doc_ok ?d" by (intro doc_ok_mput sample_doc_ok v member_ok_int)
  then have "json_Valid (render (enc_document ?d))"
    using parse_render_document [of ?d] by (cases "parse_json (render (enc_document ?d))") (auto simp: json_Valid_def)
  then show ?thesis using sample_length render_document_nonempty [of ?d] by (simp add: marshal_eq)
qed

lemma sample_transaction:
  assumes "quiet w" "progress (db w) = []" "next_progress_id (db w) = 1"
  obtains d where "transaction (tx_body 1 (mutation (gradeAnswer read_clock sample_answer))) w = (Ok (), with_document d w)"
proof -
  obtain d where d: "marshal first_document = Ok d" "validateData d = Ok ()" using sample_marshal by blast
  have m: "mutation (gradeAnswer read_clock sample_answer) [] w = (Ok d, w)"
    by (simp add: mutation_def parseDocument_def andThen_def sample_graded [OF assms(1)] d del: validateData_Ok)
  have s: "select_progress 1 w = (Err (Sentinel SqlErrNoRows), w)"
    using assms by (simp add: select_progress_def statement_def quiet_def progress_of_def row_with_def)
  have t: "commit_tx (with_document d w) = (Ok (), with_document d w)"
    using with_document_quiet [OF assms(1), of d] by (simp add: commit_tx_def statement_def quiet_def)
  show thesis
    by (rule that [of d]) (simp add: transaction_def tx_body_def andThen_def onErr_def handling_def t s m sample_upsert [OF assms])
qed

lemma quiet_begin: "quiet w \<Longrightarrow> begin_tx w = (Ok (), w)"
  by (simp add: begin_tx_def statement_def quiet_def)

lemma sample_mutate:
  assumes "quiet w" "progress (db w) = []" "next_progress_id (db w) = 1"
  shows "\<exists>p. mutate sample_progress 1 (gradeAnswer read_clock sample_answer) w = (Ok p, with_document (Data p) w)"
proof -
  obtain d where d: "transaction (tx_body 1 (mutation (gradeAnswer read_clock sample_answer))) w = (Ok (), with_document d w)"
    by (rule sample_transaction [OF assms])
  obtain p where p: "mysql_FindByUserID 1 (with_document d w) = (Ok p, with_document d w)" "Data p = d"
    using sample_find_document [OF assms(1)] by blast
  have "mysql_Mutate 1 (mutation (gradeAnswer read_clock sample_answer)) w = (Ok p, with_document d w)"
    by (simp add: mysql_Mutate_eq andThen_def onErr_def quiet_begin [OF assms(1)] d p)
  then show ?thesis using p by (simp add: mutate_def mysql_progress_repository_def onErr_def)
qed

lemma sample_record:
  assumes "quiet w" "progress (db w) = []" "next_progress_id (db w) = 1"
  shows "\<exists>p us. RecordAnswer sample_progress 1 sample_answer w =
    (Ok p, (with_document (Data p) w)\<lparr>db := (db (with_document (Data p) w))\<lparr>users := us\<rparr>\<rparr>)"
proof -
  obtain p where p: "mutate sample_progress 1 (gradeAnswer read_clock sample_answer) w = (Ok p, with_document (Data p) w)"
    using sample_mutate [OF assms] by blast
  obtain us where "recordActivity sample_progress 1 (with_document (Data p) w) =
      (Ok (), (with_document (Data p) w)\<lparr>db := (db (with_document (Data p) w))\<lparr>users := us\<rparr>\<rparr>)"
    using quiet_activity [OF with_document_quiet [OF assms(1)]] by blast
  with p sample_answer_valid show ?thesis
    by (intro exI [of _ p] exI [of _ us]) (simp add: RecordAnswer_def NewID_def andThen_def)
qed

text \<open>A document whose map of scores is null.\<close>

definition null_document :: string where
  "null_document = CHR ''{'' # quote_char # ''skillsByKana'' @ quote_char # '':null}''"

lemma null_document: "parseDocument null_document = Ok [(''skillsByKana'', JNull)]"
  by code_simp

lemma sample_panic:
  assumes "quiet w"
  shows "\<exists>m w1. RecordAnswer sample_progress 1 sample_answer (with_document null_document w) = (Panic m, w1)"
proof -
  let ?w = "with_document null_document w" and ?f = "mutation (gradeAnswer read_clock sample_answer)"
  have q: "quiet ?w" by (rule with_document_quiet [OF assms])
  have sk: "skills [(''skillsByKana'', JNull)] = Ok NilMap" "mastery [(''skillsByKana'', JNull)] = Ok (GMap [])"
    by (simp_all add: skills_def mastery_def fields)
  then have "gradeScores sample_answer [(''skillsByKana'', JNull)] = Panic ''assignment to entry in nil map''"
    by (simp add: gradeScores_def Let_def)
  then have m: "?f null_document ?w = (Panic ''assignment to entry in nil map'', ?w)"
    by (simp add: mutation_def null_document andThen_def gradeAnswer_def)
  obtain r where s: "select_progress 1 ?w = (Ok r, ?w)" "p_data r = null_document"
    using q by (auto simp: select_progress_def statement_def quiet_def with_document_def progress_of_def row_with_def)
  have t: "begin_tx ?w = (Ok (), ?w)" by (rule quiet_begin [OF q])
  have "\<exists>w1. mysql_Mutate 1 ?f ?w = (Panic ''assignment to entry in nil map'', w1)"
    by (simp add: mysql_Mutate_def transaction_def andThen_def onErr_def handling_def t s m)
  then show ?thesis using sample_answer_valid
    by (auto simp: RecordAnswer_def NewID_def andThen_def mutate_def mysql_progress_repository_def onErr_def)
qed

section \<open>The request\<close>

definition answer_members :: "(string \<times> json) list" where
  "answer_members = [(''kana'', JStr kana_a), (''skill'', JStr ''reading''), (''correct'', JBool True), (''chosen'', JStr ''a'')]"

definition answer_api :: api where
  "answer_api = sample_api\<lparr>api_validator := sample_validator\<lparr>other_body := (\<lambda>_ _. Some (JObj answer_members))\<rparr>\<rparr>"

lemma quote_kana: "quote kana_a = kana_a"
  by (simp add: quote_def kana_a_def second_byte_def cont_byte_def Let_def quote_piece_def rune_error_def)

lemma unquote_kana: "unquote kana_a = kana_a"
proof -
  have "validKana kana_a" by (simp add: validKana_characterUnit kana_runes characterUnit_def isKana_def isKanaBase_def)
  then have "valid_utf8 kana_a" by (rule validKana_utf8)
  from unquote_quote [OF this] show ?thesis by (simp add: quote_kana)
qed

lemma unquote_words: "unquote ''kana'' = ''kana''" "unquote ''skill'' = ''skill''" "unquote ''correct'' = ''correct''"
    "unquote ''chosen'' = ''chosen''" "unquote ''reading'' = ''reading''" "unquote ''a'' = ''a''"
  by code_simp+

lemma answer_payload: "BodyParser (api_validator answer_api) dec_AnswerRequest c =
    Some \<lparr>rq_Kana = kana_a, rq_Skill = ''reading'', rq_Correct = Some True, rq_Chosen = ''a''\<rparr>"
  by (simp add: BodyParser_def answer_api_def sample_validator_def answer_members_def dec_AnswerRequest_def find_field_def
      unquote_words unquote_kana field_def dec_pointer_def)

lemma sample_answer_of: "answer_of \<lparr>rq_Kana = kana_a, rq_Skill = ''reading'', rq_Correct = Some True, rq_Chosen = ''a''\<rparr> = sample_answer"
  by (simp add: answer_of_def sample_answer_def SkillReading_def TrimSpace_graphic graphic_def)

lemma answer_handler:
  assumes "RecordAnswer sample_progress 1 sample_answer w = (r, w1)"
  shows "handler_of answer_api EP_Answer ((sample_ctx [])\<lparr>Local_UserID := Some 1\<rparr>) w =
    (case r of Ok p \<Rightarrow> (Ok (send_document p), w1) | Err e \<Rightarrow> (Ok (fail_response (progress_toHTTPError e)), w1) | Panic m \<Rightarrow> (Panic m, w1))"
proof -
  have v: "validator_Struct (api_validator answer_api) rules = Ok ()" for rules
    by (simp add: validator_Struct_def answer_api_def sample_api_def sample_validator_def)
  have s: "snd (services answer_api) = sample_progress" by (simp add: services_def answer_api_def sample_api_def)
  show ?thesis using assms
    by (cases r) (simp_all add: handle_Answer_def s ParseBody_def answer_payload v sample_answer_of ctx_UserID_def or_fail_def handling_def)
qed

lemma answer_guarded:
  assumes "quiet w"
  shows "guarded answer_api allowed (guards_of EP_Answer) (handler_of answer_api EP_Answer) (sample_ctx []) w =
    handler_of answer_api EP_Answer ((sample_ctx [])\<lparr>Local_UserID := Some 1\<rparr>) w"
  by (simp add: guards_of_def answer_api_def sample_api_def sample_guard [OF assms] del: handler_of.simps)

lemma sample_answer_panics:
  "\<exists>m w1. guarded answer_api (\<lambda>_. True) (guards_of EP_Answer) (handler_of answer_api EP_Answer) (sample_ctx [])
     (with_document null_document sample_site) = (Panic m, w1)"
proof -
  obtain m w1 where "RecordAnswer sample_progress 1 sample_answer (with_document null_document sample_site) = (Panic m, w1)"
    using sample_panic [OF quiet_site] by blast
  from answer_handler [OF this] answer_guarded [OF with_document_quiet [OF quiet_site]] show ?thesis
    by (auto simp del: handler_of.simps)
qed

end
