(* ===== verification/AnswerHistory.thy ===== *)
theory AnswerHistory
  imports SampleAnswers
begin

text \<open>
  What the stored document of an account says after any number of answers: the scores of a kana are
  those of the grading rules applied to the answers given for it, in order, from zero; its mastery
  level is the one of these scores; and the attempts are the newest 200 answers. Between two answers
  anything may happen that leaves the document of the account as it is. The induction is done once from
  the contract of the service (\<open>progress_service\<close>).
\<close>

section \<open>Histories\<close>

text \<open>\<open>answer_history s stored u w0 as w\<close>: from \<open>w0\<close>, the answers \<open>as\<close> of the account \<open>u\<close> were recorded,
  in this order, on the way to \<open>w\<close>.\<close>

inductive answer_history :: "'w Service \<Rightarrow> ('w \<Rightarrow> ID \<Rightarrow> string option) \<Rightarrow> ID \<Rightarrow> 'w \<Rightarrow> Answer list \<Rightarrow> 'w \<Rightarrow> bool"
  for s stored u w0 where
  start: "answer_history s stored u w0 [] w0"
| elsewhere: "answer_history s stored u w0 as w \<Longrightarrow> stored v u = stored w u \<Longrightarrow> answer_history s stored u w0 as v"
| answered: "answer_history s stored u w0 as w \<Longrightarrow> RecordAnswer s u a w = (Ok p, v) \<Longrightarrow> valid_utf8 (Chosen a) \<Longrightarrow>
    answer_history s stored u w0 (as @ [a]) v"

section \<open>What a history amounts to\<close>

definition answers_for :: "string \<Rightarrow> Answer list \<Rightarrow> (Skill \<times> bool) list" where
  "answers_for k as = map (\<lambda>a. (ASkill a, Correct a)) (filter (\<lambda>a. Kana a = k) as)"

text \<open>The scores of a kana after a history, for a kana that was answered at all.\<close>

definition scores_after :: "Answer list \<Rightarrow> string \<Rightarrow> Skills option" where
  "scores_after as k = (if answers_for k as = [] then None else Some (gradeAll (answers_for k as) zeroSkills))"

text \<open>The document records the history: the times of the answers are the server's.\<close>

definition records_history :: "Answer list \<Rightarrow> document \<Rightarrow> bool" where
  "records_history as doc \<longleftrightarrow>
     (\<exists>sk ms ts. skills doc = Ok (GMap sk) \<and> mastery doc = Ok (GMap ms) \<and> length ts = length as \<and>
        map_of sk = scores_after as \<and> map_of ms = (\<lambda>k. map_option masteryFor (scores_after as k)) \<and>
        attempts doc = Ok (newest (map2 attempt_of as ts)))"

lemma newest_snoc: "newest (newest xs @ [x]) = newest (xs @ [x])"
proof (cases "200 < length xs")
  case True
  then have "Suc (length xs - 200) = length xs - 199" by linarith
  with True show ?thesis by (simp add: newest_def MaxRecentAttempts_def)
qed (auto simp: newest_def MaxRecentAttempts_def)

lemma answers_for_snoc:
  "answers_for k (as @ [a]) = (if Kana a = k then answers_for k as @ [(ASkill a, Correct a)] else answers_for k as)"
  by (simp add: answers_for_def)

lemma scores_after_snoc:
  assumes "map_of sk = scores_after as"
  shows "scores_after (as @ [a]) = (scores_after as)(Kana a \<mapsto> graded a sk)"
proof
  fix k
  have "gmap_get zeroSkills (GMap sk) (Kana a) = gradeAll (answers_for (Kana a) as) zeroSkills"
    using assms by (simp add: gmap_get_def scores_after_def gradeAll_simps)
  then show "scores_after (as @ [a]) k = ((scores_after as)(Kana a \<mapsto> graded a sk)) k"
    by (simp add: scores_after_def answers_for_snoc graded_def gradeAll_append gradeAll_simps)
qed

lemma records_nothing: "records_history [] []"
  by (simp add: records_history_def scores_after_def answers_for_def skills_def mastery_def attempts_def newest_def fun_eq_iff)

lemma records_answer:
  assumes "records_history as doc" "answer_recorded a t doc new"
  shows "records_history (as @ [a]) new"
proof -
  obtain sk ms ts where d: "skills doc = Ok (GMap sk)" "mastery doc = Ok (GMap ms)" "length ts = length as"
      "map_of sk = scores_after as" "map_of ms = (\<lambda>k. map_option masteryFor (scores_after as k))"
      "attempts doc = Ok (newest (map2 attempt_of as ts))"
    using assms(1) unfolding records_history_def by blast
  have n: "skills new = Ok (GMap (mput (Kana a) (graded a sk) sk))"
      "mastery new = Ok (GMap (mput (Kana a) (masteryFor (graded a sk)) ms))"
      "attempts new = Ok (newest (newest (map2 attempt_of as ts) @ [attempt_of a t]))"
    using assms(2) d unfolding answer_recorded_def by auto
  show ?thesis
    unfolding records_history_def
    by (intro exI [of _ "mput (Kana a) (graded a sk) sk"] exI [of _ "mput (Kana a) (masteryFor (graded a sk)) ms"]
        exI [of _ "ts @ [t]"]) (auto simp: n d newest_snoc scores_after_snoc [OF d(4)] fun_eq_iff)
qed

context progress_service
begin

lemma history_recorded:
  assumes "answer_history s stored u w0 as w" "stored w0 u = None"
  shows "\<exists>doc. parseDocument (current_of (stored w u)) = Ok doc \<and> records_history as doc"
  using assms
proof (induction rule: answer_history.induct)
  case start
  then show ?case by (intro exI [of _ "[]"]) (simp add: current_of_def parseDocument_def records_nothing)
next
  case (answered as w a p v)
  obtain doc where doc: "parseDocument (current_of (stored w u)) = Ok doc" "records_history as doc"
    using answered.IH answered.prems by blast
  obtain new t where "parseDocument (Data p) = Ok new" "answer_recorded a t doc new" "stored v = (stored w)(u \<mapsto> Data p)"
    using RecordAnswer_Ok [OF answered.hyps(2,3)] doc(1) by auto
  with doc(2) show ?case by (intro exI [of _ new]) (simp add: current_of_def records_answer)
qed auto

end

section \<open>The wired service\<close>

text \<open>C6: The stored progress is the grading rules applied to the history: for an account that had no
  document, after any answers that were recorded, with anything in between that leaves its document
  alone, the stored document has for every kana that was answered the scores of its answers graded in
  order from zero and the mastery level of these scores, nothing for any other kana, and the newest
  200 of the answers.\<close>

theorem stored_progress_is_the_history:
  assumes "answer_history (wired_progress lib crypto c) stored_progress u w0 as w" "stored_progress w0 u = None"
  shows "\<exists>doc sk ms ts. parseDocument (current_of (stored_progress w u)) = Ok doc \<and>
    skills doc = Ok (GMap sk) \<and> mastery doc = Ok (GMap ms) \<and>
    (\<forall>k. map_of sk k = (if answers_for k as = [] then None else Some (gradeAll (answers_for k as) zeroSkills))) \<and>
    (\<forall>k. map_of ms k = (if answers_for k as = [] then None else Some (masteryFor (gradeAll (answers_for k as) zeroSkills)))) \<and>
    length ts = length as \<and> attempts doc = Ok (newest (map2 attempt_of as ts))"
proof -
  obtain doc where doc: "parseDocument (current_of (stored_progress w u)) = Ok doc" "records_history as doc"
    using wired_progress.history_recorded [OF assms] by blast
  then obtain sk ms ts where "skills doc = Ok (GMap sk)" "mastery doc = Ok (GMap ms)" "length ts = length as"
      "map_of sk = scores_after as" "map_of ms = (\<lambda>k. map_option masteryFor (scores_after as k))"
      "attempts doc = Ok (newest (map2 attempt_of as ts))"
    unfolding records_history_def by blast
  with doc(1) show ?thesis by (intro exI [of _ doc] exI [of _ sk] exI [of _ ms] exI [of _ ts]) (simp add: scores_after_def)
qed

theorem stored_progress_is_the_history_witness:
  "\<exists>w doc sk. parseDocument (current_of (stored_progress w 1)) = Ok doc \<and> skills doc = Ok (GMap sk) \<and>
     map_of sk kana_a = Some \<lparr>Recognition = 0, Writing = 0, Listening = 0, Reading = 20\<rparr>"
proof -
  obtain p w where "RecordAnswer sample_progress 1 sample_answer sample_site = (Ok p, w)"
    using sample_record [OF quiet_site site_free] by blast
  moreover have "valid_utf8 (Chosen sample_answer)" by code_simp
  ultimately have h: "answer_history sample_progress stored_progress 1 sample_site ([] @ [sample_answer]) w"
    by (rule answered [OF start])
  have "stored_progress sample_site 1 = None"
    by (simp add: stored_progress_def progress_of_def row_with_def site_free)
  from stored_progress_is_the_history [OF h this] obtain doc sk where
      "parseDocument (current_of (stored_progress w 1)) = Ok doc" "skills doc = Ok (GMap sk)"
      "map_of sk kana_a = Some (gradeAll [(SkillReading, True)] zeroSkills)"
    by (auto simp: answers_for_def sample_answer_def)
  moreover have "gradeAll [(SkillReading, True)] zeroSkills = \<lparr>Recognition = 0, Writing = 0, Listening = 0, Reading = 20\<rparr>"
    by code_simp
  ultimately show ?thesis by auto
qed

end
