(* ===== verification/Concurrency.thy ===== *)
theory Concurrency
  imports Interleaving AnswerHistory
begin

text \<open>
  What holds however requests are interleaved: the steps that statements make of the tables
  (\<open>statement_step\<close>), the invariants every such step keeps, the services of the API over disturbed
  ports, and, by the frames of \<open>Frames\<close>, what a request does that runs among others: its own steps are
  statement steps (\<open>perform_runs\<close>), so the tables stay consistent and accounts persist.
\<close>

section \<open>What statements do to the tables\<close>

definition user_updates :: "(user_row \<Rightarrow> user_row) set" where
  "user_updates = range touch_row \<union> range (\<lambda>t r. r\<lparr>u_email_verified_at := Some t\<rparr>) \<union>
     range (\<lambda>h r. r\<lparr>u_password_hash := h\<rparr>) \<union> range profile_row"

text \<open>Whatever else of the world changes at the same time is the environment's.\<close>

inductive statement_step :: "world \<Rightarrow> world \<Rightarrow> bool" where
  same_tables: "db w1 = db w \<Longrightarrow> collation_key w1 = collation_key w \<Longrightarrow> statement_step w w1"
| user_inserted: "statement_step w (snd (insert_user u w))"
| user_updated: "f \<in> user_updates \<Longrightarrow> statement_step w (snd (update_user i f w))"
| code_put: "statement_step w (snd (mysql_PutVerification v w))"
| attempt_counted: "statement_step w (snd (mysql_RecordVerificationAttempt i w))"
| code_consumed: "statement_step w (snd (mysql_ConsumeVerification i t w))"
| link_put: "statement_step w (snd (mysql_PutReset l w))"
| link_consumed: "statement_step w (snd (mysql_ConsumeReset i t w))"
| document_written: "statement_step w (snd (upsert_progress n d w))"

abbreviation statement_run :: "world \<Rightarrow> world \<Rightarrow> bool" where
  "statement_run \<equiv> rtranclp statement_step"

text \<open>The invariants of \<open>System\<close> hold at every point of such a run.\<close>

lemma user_updates_keep:
  assumes "f \<in> user_updates"
  shows "u_id (f r) = u_id r" "u_email (f r) = u_email r"
    "same_account x y \<Longrightarrow> same_account x ((f y)\<lparr>u_updated_at := at\<rparr>)"
  using assms by (auto simp: user_updates_def touch_row_def profile_row_def same_account_def Let_def)

lemma step_consistent:
  assumes "statement_step w w1" "db_ok ck w"
  shows "db_ok ck w1"
  using assms(1)
proof (cases rule: statement_step.cases)
  case (user_updated f i)
  then show ?thesis using keepsD [OF db_ok_update_user assms(2)] user_updates_keep(1,2) by blast
next
  case same_tables
  then show ?thesis using assms(2) by (simp add: db_ok_def)
qed (use assms(2) db_ok_secrets [of ck, THEN keepsD] db_ok_insert_user [THEN keepsD] db_ok_upsert_progress [THEN keepsD]
    in \<open>simp_all add: mysql_verifications_def mysql_resets_def\<close>)

lemma step_accounts:
  assumes "statement_step w w1" "kept_users same_account base w"
  shows "kept_users same_account base w1"
  using assms(1)
proof (cases rule: statement_step.cases)
  case (user_updated f i)
  then show ?thesis using keepsD [OF kept_update assms(2)] user_updates_keep(3) by blast
next
  case same_tables
  then show ?thesis using assms(2) by (simp add: kept_users_def)
qed (use assms(2) kept_insert [THEN keepsD] kept_others [THEN keepsD] in simp_all)

lemma run_keeps:
  assumes "statement_run w w1"
  shows "db_ok ck w \<Longrightarrow> db_ok ck w1" "kept_users same_account base w \<Longrightarrow> kept_users same_account base w1"
  using assms by (induction rule: rtranclp_induct) (auto intro: step_consistent step_accounts)

section \<open>Every statement of the program is such a step\<close>

lemma run_step: "statement_run w0 w \<Longrightarrow> statement_step w w1 \<Longrightarrow> statement_run w0 w1"
  by (rule rtranclp.rtrancl_into_rtrancl)

lemma run_keepsI: "(\<And>w. statement_step w (snd (m w))) \<Longrightarrow> keeps (statement_run w0) m"
  by (rule keepsI) (rule run_step)

lemma run_tables_only: "db_only (statement_run w0)"
  unfolding db_only_def by (blast intro: run_step same_tables)

lemma run_unread: "(\<And>w. db (snd (f w)) = db w) \<Longrightarrow> (\<And>w. collation_key (snd (f w)) = collation_key w) \<Longrightarrow>
    keeps (statement_run w0) (statement f)"
  by (rule run_keepsI, rule same_tables) (simp_all add: statement_def split: list.split)

lemma run_statements [keeps_intros]:
  "keeps (statement_run w0) (insert_user u)" "f \<in> user_updates \<Longrightarrow> keeps (statement_run w0) (update_user i f)"
  "keeps (statement_run w0) (mysql_PutVerification v)" "keeps (statement_run w0) (mysql_RecordVerificationAttempt i)"
  "keeps (statement_run w0) (mysql_ConsumeVerification i t)" "keeps (statement_run w0) (mysql_PutReset l)"
  "keeps (statement_run w0) (mysql_ConsumeReset i t)" "keeps (statement_run w0) (upsert_progress n d)"
  by (rule run_keepsI; (rule user_inserted code_put attempt_counted code_consumed link_put link_consumed document_written
    | erule user_updated))+

lemma run_reads [keeps_intros]:
  "keeps (statement_run w0) (queryOne lib p)" "keeps (statement_run w0) (select_progress n)"
  "keeps (statement_run w0) (mysql_FindVerification i)" "keeps (statement_run w0) (mysql_FindResetByHash h)"
  "keeps (statement_run w0) begin_tx" "keeps (statement_run w0) commit_tx"
  unfolding queryOne_def select_progress_def mysql_FindVerification_def mysql_FindResetByHash_def begin_tx_def commit_tx_def
  by (intro keeps_andThen keeps_onErr keeps_lift run_unread; simp)+

lemma run_finds [keeps_intros]:
  "keeps (statement_run w0) (mysql_FindByEmail lib e)" "keeps (statement_run w0) (mysql_FindByID lib i)"
  "keeps (statement_run w0) (mysql_FindByUserID n)"
  unfolding mysql_FindByEmail_def mysql_FindByID_def mysql_FindByUserID_def by (intro keeps_intros)+

lemma in_user_updates [simp]:
  "touch_row d \<in> user_updates" "(\<lambda>r. r\<lparr>u_email_verified_at := Some t\<rparr>) \<in> user_updates"
  "(\<lambda>r. r\<lparr>u_password_hash := h\<rparr>) \<in> user_updates" "profile_row p \<in> user_updates"
  by (auto simp: user_updates_def)

lemma run_rollback:
  assumes "statement_run w0 w" "statement_run w0 w1"
  shows "statement_run w0 (w1\<lparr>db := db w\<rparr>)"
proof -
  have "collation_key v1 = collation_key v" if "statement_step v v1" for v v1
    using that
    by (cases rule: statement_step.cases)
      (simp_all add: insert_user_def update_user_def mysql_PutVerification_def mysql_RecordVerificationAttempt_def
        mysql_ConsumeVerification_def update_code_def mysql_PutReset_def mysql_ConsumeReset_def upsert_progress_def
        statement_def Let_def split: list.split)
  note same = this
  have "collation_key v = collation_key w0" if "statement_run w0 v" for v
    using that by (induction rule: rtranclp_induct) (auto dest: same)
  with assms have "collation_key w1 = collation_key w" by metis
  then show ?thesis by (intro run_step [OF assms(1) same_tables]) simp_all
qed

lemma run_transaction [keeps_intros]:
  "(\<And>c. keeps (statement_run w0) (fn c)) \<Longrightarrow> keeps (statement_run w0) (transaction (tx_body u fn))"
  unfolding tx_body_def by (intro keeps_transaction run_rollback keeps_intros)

section \<open>The services of a request among others\<close>

text \<open>Wired as in \<open>Composition\<close>, over disturbed ports.\<close>

definition shared_activity :: "auth_lib \<Rightarrow> crypto_lib \<Rightarrow> Config \<Rightarrow> int \<Rightarrow> (world shared, unit) proc" where
  "shared_activity lib crypto c userID =
     andThen (RecordActivity (shared_auth (auth_with lib crypto c None) None) userID) (\<lambda>_. ret ())"

definition shared_progress :: "auth_lib \<Rightarrow> crypto_lib \<Rightarrow> Config \<Rightarrow> world shared Service" where
  "shared_progress lib crypto c =
     \<lparr>repo = shared_repository, activity = Some (shared_activity lib crypto c), clock = disturbed read_clock\<rparr>"

definition shared_snapshot :: "auth_lib \<Rightarrow> crypto_lib \<Rightarrow> Config \<Rightarrow> int \<Rightarrow> (world shared, string option) proc" where
  "shared_snapshot lib crypto c userID =
     handling (Get (shared_progress lib crypto c) userID) (\<lambda>r.
       case r of
         Inl err \<Rightarrow> if errors_Is err ErrProgressNotFound then ret None else fail err
       | Inr document \<Rightarrow> ret (Some (Data document)))"

definition shared_services :: "api \<Rightarrow> world shared AuthService \<times> world shared Service" where
  "shared_services a =
     (shared_auth (auth_with (api_auth a) (api_crypto a) (api_config a) None)
        (Some (shared_snapshot (api_auth a) (api_crypto a) (api_config a))),
      shared_progress (api_auth a) (api_crypto a) (api_config a))"

text \<open>The use cases behind the routes.\<close>

datatype call =
    Call_Register Credentials | Call_Login Credentials | Call_Me int | Call_SaveProfile int Profile
  | Call_VerifyEmail string string | Call_Resend string | Call_Forgot string | Call_Reset string string
  | Call_Get int | Call_Save int string | Call_Merge int string | Call_Answer int Answer | Call_Lesson int string

definition performed :: "('w, 'a) proc \<Rightarrow> 'w \<Rightarrow> 'w" where
  "performed m w = snd (m w)"

fun perform :: "'w AuthService \<times> 'w Service \<Rightarrow> call \<Rightarrow> 'w \<Rightarrow> 'w" where
  "perform (s, p) (Call_Register creds) = performed (Register s creds)"
| "perform (s, p) (Call_Login creds) = performed (Login s creds)"
| "perform (s, p) (Call_Me n) = performed (service_Me s n)"
| "perform (s, p) (Call_SaveProfile n pf) = performed (SaveProfile s n pf)"
| "perform (s, p) (Call_VerifyEmail e cd) = performed (VerifyEmail s e cd)"
| "perform (s, p) (Call_Resend e) = performed (ResendVerification s e)"
| "perform (s, p) (Call_Forgot e) = performed (ForgotPassword s e)"
| "perform (s, p) (Call_Reset tk pw) = performed (ResetPassword s tk pw)"
| "perform (s, p) (Call_Get n) = performed (Get p n)"
| "perform (s, p) (Call_Save n d) = performed (Save p n d)"
| "perform (s, p) (Call_Merge n d) = performed (Merge p n d)"
| "perform (s, p) (Call_Answer n ans) = performed (RecordAnswer p n ans)"
| "perform (s, p) (Call_Lesson n l) = performed (CompleteLesson p n l)"

section \<open>A request takes statement steps only\<close>

lemma shared_users_run:
  "keeps (under (statement_run w0)) (Create (shared_users lib) u)"
  "keeps (under (statement_run w0)) (FindByEmail (shared_users lib) e)"
  "keeps (under (statement_run w0)) (FindByID (shared_users lib) i)"
  "keeps (under (statement_run w0)) (TouchActivity (shared_users lib) i d)"
  "keeps (under (statement_run w0)) (MarkEmailVerified (shared_users lib) i t)"
  "keeps (under (statement_run w0)) (UpdatePassword (shared_users lib) i h)"
  "keeps (under (statement_run w0)) (PutProfile (shared_users lib) i p)"
  unfolding shared_users_def UserRepository.simps then_find_def mysql_UpdatePassword_def
  by (intro keeps_intros; simp)+

lemma shared_auth_run:
  assumes "\<And>g n. sn = Some g \<Longrightarrow> keeps (under (statement_run w0)) (g n)"
  shows "auth_frame (shared_auth (auth_with lib crypto c None) sn) (under (statement_run w0))"
proof unfold_locales
  note own = keeps_hash keeps_issue keeps_secrets keeps_notifier keeps_clock
  show "keeps (under (statement_run w0)) (Hash (shared_auth (auth_with lib crypto c None) sn) pw)" for pw
    by (simp add: shared_auth_def keeps_disturbed own run_tables_only)
qed (simp_all add: shared_auth_def shared_users_run keeps_disturbed run_statements run_reads mysql_verifications_def mysql_resets_def
    keeps_hash keeps_issue keeps_secrets keeps_notifier keeps_clock keeps_lift run_tables_only assms)


lemma shared_activity_run: "keeps (under (statement_run w0)) (shared_activity lib crypto c u)"
proof -
  have "auth_frame (shared_auth (auth_with lib crypto c None) None) (under (statement_run w0))"
    by (rule shared_auth_run) simp
  then show ?thesis
    unfolding shared_activity_def
    by (intro keeps_intros auth_frame_but_password.keeps_RecordActivity) (simp add: auth_frame_def)
qed

lemma shared_progress_run: "progress_frame (shared_progress lib crypto c) (under (statement_run w0))"
proof unfold_locales
  show "keeps (under (statement_run w0)) (FindByUserID (repo (shared_progress lib crypto c)) u)" for u
    by (simp add: shared_progress_def shared_repository_def keeps_disturbed run_finds)
  show "keeps (under (statement_run w0)) (Upsert (repo (shared_progress lib crypto c)) u d)" for u d
    by (simp add: shared_progress_def shared_repository_def keeps_andThen keeps_onErr keeps_disturbed run_statements run_finds)
  show "keeps (under (statement_run w0)) (Mutate (repo (shared_progress lib crypto c)) u fn)"
    if "\<And>x. keeps (under (statement_run w0)) (fn x)" for u fn
    by (simp add: shared_progress_def shared_repository_def keeps_andThen keeps_onErr keeps_disturbed run_reads run_finds
        run_transaction keeps_alone that)
  show "keeps (under (statement_run w0)) (clock (shared_progress lib crypto c))"
    by (simp add: shared_progress_def keeps_disturbed keeps_clock run_tables_only)
  show "activity (shared_progress lib crypto c) = Some rec \<Longrightarrow> keeps (under (statement_run w0)) (rec n)" for rec n
    using shared_activity_run by (auto simp: shared_progress_def)
qed

lemma shared_snapshot_run: "keeps (under (statement_run w0)) (shared_snapshot lib crypto c u)"
  unfolding shared_snapshot_def
  by (intro keeps_intros progress_frame.keeps_Get [OF shared_progress_run])

lemma keeps_perform:
  assumes "auth_frame s I" "progress_frame p I" "I w"
  shows "I (perform (s, p) call w)"
proof -
  note auth = auth_frame_but_password.keeps_use_cases [OF auth_frame.axioms(1) [OF assms(1)], THEN keepsD, OF assms(3)]
    and me = auth_frame_but_password.keeps_Me [OF auth_frame.axioms(1) [OF assms(1)], THEN keepsD, OF assms(3)]
    and reset = auth_frame.keeps_ResetPassword [OF assms(1), THEN keepsD, OF assms(3)]
    and prog = progress_frame.keeps_use_cases [OF assms(2), THEN keepsD, OF assms(3)]
  show ?thesis
    by (cases call) (simp_all only: perform.simps performed_def auth me reset prog)
qed

lemma perform_runs: "under (statement_run w0) p \<Longrightarrow> under (statement_run w0) (perform (shared_services a) call p)"
  unfolding shared_services_def
  by (rule keeps_perform [OF shared_auth_run shared_progress_run]) (auto simp: shared_snapshot_run)

section \<open>The tables under concurrency\<close>

text \<open>C2: Whatever a request does while others run, statement by statement, in any order: if the
  steps of the others are statements of the program, then so are its own, the tables stay consistent
  (no two rows of one key, no row without its account) and every account keeps its id and address and,
  once confirmed, stays confirmed.\<close>

theorem interleaved_requests_keep_the_tables:
  assumes "\<forall>f \<in> set fs. \<forall>v. statement_run v (f v)" "tables_ok (collation_key w) (db w)"
    and "perform (shared_services a) call (w, fs, seen) = (w1, rest)"
  shows "statement_run w w1 \<and> tables_ok (collation_key w1) (db w1) \<and>
    (\<forall>r \<in> set (users (db w)). \<exists>r1 \<in> set (users (db w1)). same_account r r1)"
proof -
  have "under (statement_run w) (w, fs, seen)"
    using assms(1) by (auto simp: under_def intro: rtranclp_trans)
  from perform_runs [OF this, of a call] have run: "statement_run w w1" using assms(3) by (simp add: under_def)
  have "db_ok (collation_key w) w1" by (rule run_keeps(1) [OF run]) (simp add: db_ok_def assms(2))
  moreover have "kept_users same_account (users (db w)) w1"
    by (rule run_keeps(2) [OF run]) (auto simp: kept_users_def same_account_def)
  ultimately show ?thesis using run by (simp add: db_ok_def kept_users_def)
qed

text \<open>Another request registers an account between two statements of a login.\<close>

definition another_account :: User where
  "another_account = \<lparr>User_ID = 0, Email = ''c@d.e'', PasswordHash = ''$other'', Profile_of = emptyProfile,
     Activity_of = \<lparr>LastActiveDate = None, DistinctLoginDays = 0, StreakDays = 0\<rparr>, EmailVerifiedAt = None,
     User_CreatedAt = 0, User_UpdatedAt = 0\<rparr>"

definition sample_other :: "world \<Rightarrow> world" where
  "sample_other w = snd (insert_user another_account w)"

theorem interleaved_requests_keep_the_tables_witness:
  "\<exists>w1 rest. perform (shared_services sample_api) (Call_Login \<lparr>C_Email = ''a@b.c'', Password = ''secret12''\<rparr>)
      (sample_site, [sample_other, sample_other], []) = (w1, rest) \<and>
    statement_run sample_site w1 \<and> tables_ok (collation_key w1) (db w1)"
proof -
  let ?call = "Call_Login \<lparr>C_Email = ''a@b.c'', Password = ''secret12''\<rparr>"
  obtain w1 rest where p: "perform (shared_services sample_api) ?call (sample_site, [sample_other, sample_other], []) = (w1, rest)"
    by (metis prod.exhaust)
  have "\<forall>f \<in> set [sample_other, sample_other]. \<forall>v. statement_run v (f v)"
    by (auto simp: sample_other_def intro: user_inserted)
  moreover have "tables_ok (collation_key sample_site) (db sample_site)"
    by (simp add: tables_ok_def keys_ok_def owned_def sample_site_def sample_world_def sample_user_def)
  ultimately show ?thesis using p interleaved_requests_keep_the_tables [OF _ _ p] by blast
qed

end
