(* ===== verification/AccountMachine.thy ===== *)
theory AccountMachine
  imports AuthUseCases Frames
begin

text \<open>
  What the authentication module promises, as an abstract machine over \<open>auth_state\<close>: the steps that
  accounts, codes and links may take, with their guards. The locale \<open>auth_machine\<close> shows from the
  contracts of the ports that every use case is a sequence of such steps, whatever it returns and
  whatever fails on the way.
\<close>

section \<open>The machine\<close>

text \<open>\<open>mx\<close> is the number of guesses a code allows.\<close>

inductive account_step :: "int \<Rightarrow> auth_state \<Rightarrow> auth_state \<Rightarrow> bool" for mx where
  opened: "owner s e = None \<Longrightarrow> account s i = None \<Longrightarrow> owner s1 e = Some i \<Longrightarrow>
    (\<And>x. owner s1 x = owner s x \<or> owner s x = None \<and> owner s1 x = Some i) \<Longrightarrow>
    account s1 = (account s)(i \<mapsto> (h, False)) \<Longrightarrow> code s1 = code s \<Longrightarrow> reset s1 = reset s \<Longrightarrow> account_step mx s s1"
| code_issued: "account s i \<noteq> None \<Longrightarrow> V_UserID v = i \<Longrightarrow> Attempts v = 0 \<Longrightarrow> V_ConsumedAt v = None \<Longrightarrow>
    account_step mx s (s\<lparr>code := (code s)(i \<mapsto> v)\<rparr>)"
| code_missed: "code s i = Some v \<Longrightarrow> Verification_Usable v t mx \<Longrightarrow> account_step mx s (on_code i missed s)"
| code_used: "code s i = Some v \<Longrightarrow> Verification_Usable v t mx \<Longrightarrow> account s i = Some (h, False) \<Longrightarrow>
    account_step mx s (on_code i (used_code t) s)"
| confirmed: "code s i = Some v \<Longrightarrow> Verification_Usable v t mx \<Longrightarrow> account s i = Some (h, False) \<Longrightarrow>
    account_step mx s (on_account i (\<lambda>(h, v). (h, True)) (on_code i (used_code t) s))"
| link_issued: "account s (R_UserID v) \<noteq> None \<Longrightarrow> R_ConsumedAt v = None \<Longrightarrow> reset s (TokenHash v) = None \<Longrightarrow>
    account_step mx s (with_reset v s)"
| link_renewed: "reset s k = Some v \<Longrightarrow> TokenHash v = k \<Longrightarrow>
    account_step mx s (s\<lparr>reset := (reset s)(k \<mapsto> v\<lparr>R_ExpiresAt := t, R_ConsumedAt := None\<rparr>)\<rparr>)"
| password_set: "reset s k = Some v \<Longrightarrow> Reset_Usable v t \<Longrightarrow> R_UserID v = i \<Longrightarrow>
    account_step mx s (on_account i (\<lambda>(g, b). (h, b)) s)"
| redeemed: "reset s k = Some v \<Longrightarrow> Reset_Usable v t \<Longrightarrow> R_UserID v = i \<Longrightarrow>
    account_step mx s ((on_account i (\<lambda>(g, b). (h, b \<or> c)) s)\<lparr>reset := (\<lambda>k. map_option (used_reset i t) (reset s k))\<rparr>)"

inductive_cases account_stepE: "account_step mx s s1"

abbreviation account_run :: "int \<Rightarrow> auth_state \<Rightarrow> auth_state \<Rightarrow> bool" where
  "account_run mx \<equiv> rtranclp (account_step mx)"

section \<open>Every use case runs the machine\<close>

text \<open>What the ports leave behind when they fail half way, besides the contracts of \<open>auth_ports\<close>; and
  the invariant of the store is kept by all of them.\<close>

locale auth_machine = auth_ports s st invar + kept: auth_frame s invar
  for s :: "'w AuthService" and st :: "'w \<Rightarrow> auth_state" and invar :: "'w \<Rightarrow> bool" +
  assumes create_any: "invar w \<Longrightarrow> Create (Repo s) u w = (r, w1) \<Longrightarrow>
      st w1 = st w \<or> account_step mx (st w) (st w1)"
    and password_any: "UpdatePassword (Repo s) i h w = (q, w1) \<Longrightarrow> \<not> is_Ok q \<Longrightarrow>
      st w1 = st w \<or> st w1 = on_account i (\<lambda>(g, v). (h, v)) (st w)"
    and put_code_owner: "PutVerification (Verifications s) v w = (q, w1) \<Longrightarrow> is_Ok q \<Longrightarrow> account (st w) (V_UserID v) \<noteq> None"
    and put_reset_owner: "PutReset (Resets s) l w = (q, w1) \<Longrightarrow> is_Ok q \<Longrightarrow> account (st w) (R_UserID l) \<noteq> None"
    and put_reset_again: "invar w \<Longrightarrow> reset (st w) (TokenHash l) = Some old \<Longrightarrow> PutReset (Resets s) l w = (q, w1) \<Longrightarrow>
      st w1 = st w \<or> (\<exists>t. TokenHash old = TokenHash l \<and>
        st w1 = (st w)\<lparr>reset := (reset (st w))(TokenHash l \<mapsto> old\<lparr>R_ExpiresAt := t, R_ConsumedAt := None\<rparr>)\<rparr>)"
    and snapshot_keeps: "Snapshot s = Some sn \<Longrightarrow> keeps (\<lambda>w. st w = x) (sn n)"
begin

abbreviation mx :: int where
  "mx \<equiv> MaxVerificationAttempts (Policy_of s)"

definition runs :: "auth_state \<Rightarrow> 'w \<Rightarrow> bool" where
  "runs x w \<longleftrightarrow> invar w \<and> account_run mx x (st w)"

lemma runs_same: "keeps invar m \<Longrightarrow> (\<And>y. keeps (\<lambda>w. st w = y) m) \<Longrightarrow> keeps (runs x) m"
  unfolding runs_def keeps_def by metis

lemma runs_step:
  assumes "keeps invar m" "\<And>w r w1. invar w \<Longrightarrow> m w = (r, w1) \<Longrightarrow> st w1 = st w \<or> account_step mx (st w) (st w1)"
  shows "keeps (runs x) m"
proof (rule keepsI)
  fix w
  assume w: "runs x w"
  have "st (snd (m w)) = st w \<or> account_step mx (st w) (st (snd (m w)))"
    using assms(2) [of w "fst (m w)" "snd (m w)"] w by (simp add: runs_def)
  then show "runs x (snd (m w))"
    using w keepsD [OF assms(1)] unfolding runs_def by (metis rtranclp.rtrancl_into_rtrancl)
qed

lemma runs_ports:
  "keeps (runs x) (FindByEmail (Repo s) e)" "keeps (runs x) (FindByID (Repo s) i)"
  "keeps (runs x) (TouchActivity (Repo s) i d)" "keeps (runs x) (PutProfile (Repo s) i p)"
  "keeps (runs x) (Hash s pw)" "keeps (runs x) (Compare s h pw)" "keeps (runs x) (Issue s n)"
  "keeps (runs x) (SendVerificationCode s e cd)" "keeps (runs x) (SendPasswordReset s e tk)"
  "keeps (runs x) (VerificationCode s)" "keeps (runs x) (ResetToken s)" "keeps (runs x) (Clock s)"
  by (rule runs_same; rule kept.ports find_email_keeps find_id_keeps touch_keeps profile_keeps hash_keeps compare_keeps
      issue_keeps send_code_keeps send_reset_keeps new_code_keeps new_token_keeps time_keeps)+

lemma runs_Create: "keeps (runs x) (Create (Repo s) u)"
  using create_any kept.ports by (intro runs_step) blast+

lemma runs_PutVerification: "keeps (runs x) (PutVerification (Verifications s) v)"
proof (rule runs_step)
  fix w r w1
  assume p: "PutVerification (Verifications s) v w = (r, w1)"
  show "st w1 = st w \<or> account_step mx (st w) (st w1)"
  proof (cases "is_Ok r")
    case True
    have "account_step mx (st w) ((st w)\<lparr>code := (code (st w))(V_UserID v \<mapsto>
        v\<lparr>Attempts := 0, V_ExpiresAt := of_seconds (seconds (V_ExpiresAt v)), V_ConsumedAt := None\<rparr>)\<rparr>)"
      by (rule code_issued [OF put_code_owner [OF p True]]) simp_all
    then show ?thesis using put_code [OF p] True by simp
  qed (use put_code [OF p] in simp)
qed (rule kept.ports)

lemma runs_PutReset: "keeps (runs x) (PutReset (Resets s) v)"
proof (rule runs_step)
  fix w r w1
  assume w: "invar w" and p: "PutReset (Resets s) v w = (r, w1)"
  show "st w1 = st w \<or> account_step mx (st w) (st w1)"
  proof (cases "reset (st w) (TokenHash v)")
    case None
    show ?thesis
    proof (cases "is_Ok r")
      case True
      have "account_step mx (st w) (with_reset (v\<lparr>R_ExpiresAt := of_seconds (seconds (R_ExpiresAt v)), R_ConsumedAt := None\<rparr>) (st w))"
        by (rule link_issued) (use put_reset_owner [OF p True] None in simp_all)
      then show ?thesis using put_reset [OF w None p] True by simp
    qed (use put_reset [OF w None p] in simp)
  next
    case (Some y)
    with put_reset_again [OF w Some p] show ?thesis by (auto intro: link_renewed)
  qed
qed (rule kept.ports)

lemma runs_openSession: "keeps (runs x) (openSession s u)"
  unfolding openSession_def by (intro keeps_intros runs_ports) (auto split: prod.split)

lemma runs_issueCode: "keeps (runs x) (issueVerificationCode s u)"
  unfolding issueVerificationCode_def by (intro keeps_intros runs_ports runs_PutVerification)

lemma runs_Register: "keeps (runs x) (Register s creds)"
  unfolding Register_def by (intro keeps_intros runs_ports runs_Create runs_openSession runs_issueCode)

lemma runs_Login: "keeps (runs x) (Login s creds)"
  unfolding Login_def by (intro keeps_intros runs_ports runs_openSession)

lemma runs_FindByID: "keeps (runs x) (service_FindByID s n)"
  unfolding service_FindByID_def by (intro keeps_intros runs_ports)

lemma runs_Me: "keeps (runs x) (service_Me s n)"
  unfolding service_Me_def
  by (intro keeps_andThen runs_FindByID keeps_case_option_eq keeps_onErr keeps_lift runs_same kept.keeps_snapshot snapshot_keeps)

lemma runs_SaveProfile: "keeps (runs x) (SaveProfile s n p)"
  unfolding SaveProfile_def by (intro keeps_intros runs_ports)

lemma runs_ResendVerification: "keeps (runs x) (ResendVerification s e)"
  unfolding ResendVerification_def by (intro keeps_intros runs_ports runs_issueCode)

lemma runs_ForgotPassword: "keeps (runs x) (ForgotPassword s e)"
  unfolding ForgotPassword_def by (intro keeps_intros runs_ports runs_PutReset)

lemma openSession_same: "keeps (\<lambda>w. st w = y) (openSession s u)"
  unfolding openSession_def by (intro keeps_intros issue_keeps) (auto split: prod.split)

text \<open>A step that only reads, before one that takes a step of the machine.\<close>

definition steps :: "'w \<Rightarrow> 'w \<Rightarrow> bool" where
  "steps w w1 \<longleftrightarrow> st w1 = st w \<or> account_step mx (st w) (st w1)"

lemma steps_after:
  assumes "andThen m k w = (r, w1)" "invar w" "keeps invar m" "\<And>y. keeps (\<lambda>w. st w = y) m"
    and "\<And>a w2. m w = (Ok a, w2) \<Longrightarrow> invar w2 \<Longrightarrow> st w2 = st w \<Longrightarrow> k a w2 = (r, w1) \<Longrightarrow> steps w2 w1"
  shows "steps w w1"
  using assms(1)
proof (cases rule: andThenE)
  case (ok a w2)
  have "invar w2" "st w2 = st w"
    using keepsD [OF assms(3,2)] keepsD [OF assms(4), of w] ok(1) by simp_all
  with assms(5) [OF ok(1) _ _ ok(2)] show ?thesis by (simp add: steps_def)
next
  case (err e)
  then show ?thesis using keepsD [OF assms(4), of w] by (simp add: steps_def)
next
  case (panic p)
  then show ?thesis using keepsD [OF assms(4), of w] by (simp add: steps_def)
qed

lemmas steps_reading = steps_after [OF _ _ keeps_onErr keeps_onErr] steps_after [OF _ _ keeps_lift keeps_lift]
  steps_after

text \<open>The second half of a verification: the code of the account is there.\<close>

lemma verify_right_code:
  assumes c: "code (st w) i = Some v" "account (st w) i = Some (h, False)" "Verification_Usable v t mx"
    and run: "andThen (onErr f (ConsumeVerification (Verifications s) i t)) (\<lambda>_.
        andThen (onErr g (MarkEmailVerified (Repo s) i t)) rest) w = (r, w1)"
    and rest: "\<And>u y. keeps (\<lambda>w. st w = y) (rest u)"
  shows "steps w w1"
proof -
  obtain q w2 where q: "ConsumeVerification (Verifications s) i t w = (q, w2)" by fastforce
  note w2 = consume_code [OF q]
  show ?thesis
  proof (cases "is_Ok q")
    case False
    then have "w1 = w2" using run q by (cases q) (auto simp: andThen_def onErr_def)
    then show ?thesis using w2 False by (simp add: steps_def)
  next
    case True
    obtain p w3 where p: "MarkEmailVerified (Repo s) i t w2 = (p, w3)" by fastforce
    have "st w1 = st w3"
    proof (cases p)
      case (Ok u)
      then have "rest u w3 = (r, w1)" using run q p True by (auto simp: andThen_def onErr_def elim: is_OkE)
      then show ?thesis using keepsD [OF rest, of w3] by (metis snd_conv)
    qed (use run q p True in \<open>auto simp: andThen_def onErr_def elim: is_OkE\<close>)
    then have "st w1 = on_code i (used_code t) (st w) \<or>
        st w1 = on_account i (\<lambda>(h, v). (h, True)) (on_code i (used_code t) (st w))"
      using mark_other [OF p] w2 True by simp
    then show ?thesis using code_used [OF c(1,3,2)] confirmed [OF c(1,3,2)] by (auto simp: steps_def)
  qed
qed

lemma verify_wrong_code:
  assumes "code (st w) i = Some v" "Verification_Usable v t mx"
    and run: "handling (RecordVerificationAttempt (Verifications s) i) (\<lambda>_. fail e) w = (r, w1)"
  shows "steps w w1"
proof -
  obtain q where "RecordVerificationAttempt (Verifications s) i w = (q, w1)"
    using run by (auto simp: handling_def split: prod.splits result.splits)
  from miss [OF this] code_missed [OF assms(1,2)] show ?thesis by (simp add: steps_def)
qed

lemma VerifyEmail_steps:
  assumes "VerifyEmail s e c w = (r, w1)" "invar w"
  shows "steps w w1"
  using assms(1) unfolding VerifyEmail_def
  apply (rule steps_reading(1) [OF _ assms(2)])
  apply (rule keeps_lift, rule keeps_lift)
  apply (rule steps_reading(1), assumption, assumption, rule kept.ports, rule find_email_keeps)
  subgoal premises p for addr w2 u w3
  proof (cases "EmailVerified u")
    case True
    then show ?thesis using p by (simp add: steps_def)
  next
    case False
    have "FindByEmail (Repo s) addr w2 = (Ok u, w3)" using p by simp
    from find_email_Ok [OF _ this] False p have acc: "account (st w3) (User_ID u) = Some (PasswordHash u, False)" by simp
    show ?thesis
      using p(8) unfolding if_not_P [OF False]
      apply (rule steps_reading(1))
      apply (rule p, rule kept.ports, rule find_code_keeps)
      apply (rule steps_reading(3), assumption, assumption, rule kept.ports, rule time_keeps)
      subgoal premises q for v w4 t w5
      proof -
        have code: "code (st w5) (User_ID u) = Some v" "account (st w5) (User_ID u) = Some (PasswordHash u, False)"
          using find_code_Ok [of "User_ID u" w3 v w4] q acc by simp_all
        consider "\<not> Verification_Usable v (UTC t) mx" | "Verification_Usable v (UTC t) mx" "\<not> sameSecret (CodeHash v) (hashSecret (Lib s) c)"
          | "Verification_Usable v (UTC t) mx" "sameSecret (CodeHash v) (hashSecret (Lib s) c)" by blast
        then show ?thesis
        proof cases
          case 1
          then show ?thesis using q by (simp add: steps_def)
        next
          case 2
          then show ?thesis using q verify_wrong_code [OF code(1) 2(1)] by simp
        next
          case 3
          show ?thesis
            by (rule verify_right_code [OF code 3(1)]) (use q 3 in simp, intro keeps_handling touch_keeps openSession_same)
        qed
      qed
      done
  qed
  done

lemma runs_VerifyEmail: "keeps (runs x) (VerifyEmail s e c)"
  using VerifyEmail_steps by (intro runs_step kept.keeps_VerifyEmail) (auto simp: steps_def)

lemma redeem_link:
  assumes v: "reset (st w) k = Some v" "Reset_Usable v t" "R_UserID v = i"
    and run: "andThen (onErr f (UpdatePassword (Repo s) i h)) (\<lambda>_.
        andThen (onErr g (ConsumeReset (Resets s) i t)) (\<lambda>_.
        handling (MarkEmailVerified (Repo s) i t) (\<lambda>_. ret ()))) w = (r, w1)"
  shows "steps w w1"
proof -
  obtain q w2 where q: "UpdatePassword (Repo s) i h w = (q, w2)" by fastforce
  show ?thesis
  proof (cases "is_Ok q")
    case False
    then have "w1 = w2" using run q by (cases q) (auto simp: andThen_def onErr_def)
    then show ?thesis using password_any [OF q False] password_set [OF v] by (auto simp: steps_def)
  next
    case True
    then have w2: "st w2 = on_account i (\<lambda>(g, v). (h, v)) (st w)" using q password_Ok by (auto elim: is_OkE)
    obtain p w3 where p: "ConsumeReset (Resets s) i t w2 = (p, w3)" by fastforce
    show ?thesis
    proof (cases "is_Ok p")
      case False
      then have "w1 = w3" using run q p True by (cases p) (auto simp: andThen_def onErr_def elim: is_OkE)
      then show ?thesis using consume_reset [OF p] False w2 password_set [OF v] by (simp add: steps_def)
    next
      case ok: True
      obtain m where m: "MarkEmailVerified (Repo s) i t w3 = (m, w1)"
        using run q p True ok by (auto simp: andThen_def onErr_def handling_def elim!: is_OkE split: prod.splits result.splits)
      let ?R = "\<lambda>k. map_option (used_reset i t) (reset (st w) k)"
      have w3: "st w3 = (on_account i (\<lambda>(g, v). (h, v)) (st w))\<lparr>reset := ?R\<rparr>"
        using consume_reset [OF p] ok w2 by (simp add: on_account_def)
      have "st w1 = (on_account i (\<lambda>(g, b). (h, b \<or> False)) (st w))\<lparr>reset := ?R\<rparr> \<or>
          st w1 = (on_account i (\<lambda>(g, b). (h, b \<or> True)) (st w))\<lparr>reset := ?R\<rparr>"
        using mark_other [OF m] unfolding w3 by (cases "account (st w) i") (auto simp: on_account_def)
      then show ?thesis unfolding steps_def using redeemed [OF v, of mx h False] redeemed [OF v, of mx h True] by (elim disjE) simp_all
    qed
  qed
qed

lemma ResetPassword_steps:
  assumes "ResetPassword s token p w = (r, w1)" "invar w"
  shows "steps w w1"
  using assms(1) unfolding ResetPassword_def
  apply (rule steps_reading(2) [OF _ assms(2)])
  apply (rule steps_reading(1), assumption, assumption, rule kept.ports, rule find_reset_keeps)
  apply (rule steps_reading(3), assumption, assumption, rule kept.ports, rule time_keeps)
  subgoal premises q for u w2 v w3 t w4
  proof (cases "Reset_Usable v (UTC t)")
    case False
    then show ?thesis using q by (simp add: steps_def)
  next
    case True
    have "FindResetByHash (Resets s) (hashSecret (Lib s) token) w2 = (Ok v, w3)" using q by simp
    from find_reset_Ok [OF this] q have v: "reset (st w4) (hashSecret (Lib s) token) = Some v" by simp
    show ?thesis
      using q(12) unfolding if_not_P [OF True [THEN not_not [THEN iffD2]]]
      apply (rule steps_reading(1))
      apply (rule q, rule kept.ports, rule hash_keeps)
      apply (rule redeem_link [OF _ True refl], use v in simp)
      apply assumption
      done
  qed
  done

lemma runs_ResetPassword: "keeps (runs x) (ResetPassword s token p)"
  using ResetPassword_steps by (intro runs_step kept.keeps_ResetPassword) (auto simp: steps_def)

lemmas runs_use_cases = runs_Register runs_Login runs_Me runs_SaveProfile runs_VerifyEmail runs_ResendVerification
  runs_ForgotPassword runs_ResetPassword

end

end
