(* ===== verification/AccountRuns.thy ===== *)
theory AccountRuns
  imports Samples AccountMachine
begin

text \<open>
  The server refines the abstract machine of \<open>AccountMachine\<close>: the stores on the tables meet the laws
  of \<open>auth_machine\<close>, so whatever requests the server goes through, its accounts, codes and links take
  only the steps of the machine; and what the machine never does, the server never does.
\<close>

section \<open>What the statements leave behind\<close>

lemma row_with_append:
  "row_with p (xs @ [x]) = (case row_with p xs of None \<Rightarrow> if p x then Some x else None | Some y \<Rightarrow> Some y)"
  by (simp add: row_with_def find_append split: option.splits)

lemma insert_user_step:
  assumes "insert_user u w = (r, w1)" "db_invar w"
  shows "auth_state_of w1 = auth_state_of w \<or> account_step mx (auth_state_of w) (auth_state_of w1)"
proof (cases "is_Ok r")
  case True
  then obtain i where i: "insert_user u w = (Ok i, w1)" using assms(1) by (auto elim: is_OkE)
  note spec = insert_user_spec [OF i assms(2)]
  have "account_step mx (auth_state_of w) (auth_state_of w1)"
  proof (rule opened [OF spec(1,3,2) _ spec(4)])
    show "owner (auth_state_of w1) x = owner (auth_state_of w) x \<or>
        owner (auth_state_of w) x = None \<and> owner (auth_state_of w1) x = Some i" for x
      using i unfolding insert_user_def
      by (elim statementE) (auto simp: auth_state_of_def same_email_def row_with_append split: if_splits option.splits)
    show "code (auth_state_of w1) = code (auth_state_of w)" "reset (auth_state_of w1) = reset (auth_state_of w)"
      using i unfolding insert_user_def
      by (elim statementE; auto simp: auth_state_of_def code_of_def reset_of_hash_def split: if_splits)+
  qed
  then show ?thesis by simp
next
  case False
  then have "auth_state_of w1 = auth_state_of w"
    using assms(1) unfolding insert_user_def by (elim statementE) (auto split: if_splits)
  then show ?thesis by simp
qed

lemma create_step:
  assumes "mysql_Create lib u w = (r, w1)" "db_invar w"
  shows "auth_state_of w1 = auth_state_of w \<or> account_step mx (auth_state_of w) (auth_state_of w1)"
proof -
  obtain q w2 where q: "insert_user u w = (q, w2)" by fastforce
  have find: "mysql_FindByID lib x w2 = (a, w3) \<Longrightarrow> auth_state_of w3 = auth_state_of w2" for x a w3
    unfolding mysql_FindByID_def by (rule keeps_eq [where f = auth_state_of, OF state_queryOne])
  have "auth_state_of w1 = auth_state_of w2"
    using assms(1) q by (auto simp: mysql_Create_def andThen_def onErr_def dest: find split: prod.splits result.splits)
  with insert_user_step [OF q assms(2)] show ?thesis by simp
qed

lemma password_step:
  assumes "mysql_UpdatePassword i h w = (q, w1)"
  shows "auth_state_of w1 = auth_state_of w \<or> auth_state_of w1 = on_account i (\<lambda>(g, v). (h, v)) (auth_state_of w)"
proof -
  obtain p where "update_user i (\<lambda>r. r\<lparr>u_password_hash := h\<rparr>) w = (p, w1)"
    using assms unfolding mysql_UpdatePassword_def by (auto simp: andThen_def onErr_def split: prod.splits result.splits)
  from update_user_spec(1) [OF this _ password_abs] show ?thesis by simp
qed

lemma put_code_needs_user:
  assumes "mysql_PutVerification v w = (q, w1)" "is_Ok q"
  shows "account (auth_state_of w) (V_UserID v) \<noteq> None"
  using assms unfolding mysql_PutVerification_def Let_def
  by (elim onErrE statementE) (auto simp: auth_state_of_def account_abs_def split: if_splits)

lemma put_reset_needs_user:
  assumes "mysql_PutReset v w = (q, w1)" "is_Ok q"
  shows "account (auth_state_of w) (R_UserID v) \<noteq> None"
  using assms unfolding mysql_PutReset_def Let_def
  by (elim onErrE statementE) (auto simp: auth_state_of_def account_abs_def split: if_splits)

text \<open>A hash that is taken already: its row is renewed, and stays with its account.\<close>

lemma put_reset_taken:
  assumes "mysql_PutReset v w = (q, w1)" "reset (auth_state_of w) (TokenHash v) = Some old"
  shows "auth_state_of w1 = auth_state_of w \<or> (\<exists>t. TokenHash old = TokenHash v \<and>
    auth_state_of w1 = (auth_state_of w)\<lparr>reset := (reset (auth_state_of w))(TokenHash v \<mapsto> old\<lparr>R_ExpiresAt := t, R_ConsumedAt := None\<rparr>)\<rparr>)"
proof -
  let ?h = "TokenHash v" and ?rs = "resets (db w)"
  define renew where "renew = (\<lambda>r::reset_row. r\<lparr>r_token_hash := ?h, r_expires_at := seconds (R_ExpiresAt v), r_consumed_at := None\<rparr>)"
  obtain y where y: "row_with (\<lambda>r. r_token_hash r = ?h) ?rs = Some y" "old = reset_abs y"
    using assms(2) by (auto simp: auth_state_of_def reset_of_hash_def)
  then have key: "r_token_hash y = ?h" using row_with_Some by fast
  have rows: "row_with (\<lambda>r. r_token_hash r = h) (update_rows (\<lambda>r. r_token_hash r = ?h) renew ?rs) =
      map_option (\<lambda>r. if r_token_hash r = ?h then renew r else r) (row_with (\<lambda>r. r_token_hash r = h) ?rs)" for h
    by (rule row_with_update_key) (simp add: renew_def)
  have abs: "map_option reset_abs (row_with (\<lambda>r. r_token_hash r = h) (update_rows (\<lambda>r. r_token_hash r = ?h) renew ?rs)) =
      ((reset (auth_state_of w))(?h \<mapsto> old\<lparr>R_ExpiresAt := of_seconds (seconds (R_ExpiresAt v)), R_ConsumedAt := None\<rparr>)) h" for h
  proof (cases "h = ?h")
    case True
    then show ?thesis unfolding rows using y key by (simp add: renew_def reset_abs_def)
  next
    case False
    then show ?thesis unfolding rows using row_with_Some [of "\<lambda>r. r_token_hash r = h" ?rs]
      by (cases "row_with (\<lambda>r. r_token_hash r = h) ?rs") (auto simp: auth_state_of_def reset_of_hash_def)
  qed
  obtain s where s: "statement (\<lambda>w.
          if user_row_of (R_UserID v) (db w) = None then (Err (MySQLError 1452), w)
          else (Ok (), on_db (\<lambda>t. t\<lparr>resets :=
                 (if reset_of_hash ?h t \<noteq> None then update_rows (\<lambda>r. r_token_hash r = ?h) renew (resets t)
                  else if reset_of_user (R_UserID v) t \<noteq> None then update_rows (\<lambda>r. r_user_id r = R_UserID v) renew (resets t)
                  else resets t @ [\<lparr>r_user_id = R_UserID v, r_token_hash = ?h, r_expires_at = seconds (R_ExpiresAt v),
                    r_consumed_at = None\<rparr>])\<rparr>) w)) w = (s, w1)"
    using assms(1) unfolding mysql_PutReset_def Let_def renew_def by (elim onErrE)
  from s show ?thesis
  proof (cases rule: statementE)
    case (run bs)
    show ?thesis
    proof (cases "user_row_of (R_UserID v) (db w) = None")
      case False
      then obtain z where "user_row_of (R_UserID v) (db w) = Some z" by auto
      then have "w1 = w\<lparr>faults := bs, db := (db w)\<lparr>resets := update_rows (\<lambda>r. r_token_hash r = ?h) renew ?rs\<rparr>\<rparr>"
        using run y(1) by (auto simp: reset_of_hash_def)
      then show ?thesis
        using auth_state_resets [OF abs, of w bs] y(2) key
        by (intro disjI2 exI [of _ "of_seconds (seconds (R_ExpiresAt v))"] conjI) (simp_all add: reset_abs_def fun_upd_def)
    qed (use run in auto)
  qed simp
qed

section \<open>The stores meet the laws\<close>

lemma keeps_state_snapshot: "keeps (\<lambda>w. auth_state_of w = x) (wired_snapshot lib crypto c n)"
proof -
  have "keeps (\<lambda>w. auth_state_of w = x) (select_progress m)" for m
    unfolding select_progress_def by (intro keeps_intros keeps_state_statement) (auto split: option.split)
  then show ?thesis
    unfolding wired_snapshot_def Get_def wired_progress_sel mysql_repository_sel mysql_FindByUserID_def
    by (intro keeps_intros)
qed

lemmas wired_ports_keep = consistency.auth_use_cases.ports consistency.all_auth_use_cases.keeps_UpdatePassword
  consistency.auth_use_cases.keeps_snapshot

lemma wired_frame:
  fixes a :: api
  shows "auth_frame (wired_auth (api_auth a) crypto c) db_invar"
  by unfold_locales (rule keeps_db_invar; rule wired_ports_keep; assumption?)+

interpretation wired_machine: auth_machine "wired_auth (api_auth a) crypto c" auth_state_of db_invar for a :: api and crypto c
proof (intro auth_machine.intro wired_auth_ports wired_frame auth_machine_axioms.intro)
  fix w u r w1 mx i h q v l old sn n x
  show "Create (Repo (wired_auth (api_auth a) crypto c)) u w = (r, w1) \<Longrightarrow>
      auth_state_of w1 = auth_state_of w \<or> account_step mx (auth_state_of w) (auth_state_of w1)" if "db_invar w"
    using create_step [OF _ that] by simp
  show "UpdatePassword (Repo (wired_auth (api_auth a) crypto c)) i h w = (q, w1) \<Longrightarrow>
      auth_state_of w1 = auth_state_of w \<or> auth_state_of w1 = on_account i (\<lambda>(g, v). (h, v)) (auth_state_of w)"
    using password_step by simp
  show "PutVerification (Verifications (wired_auth (api_auth a) crypto c)) v w = (q, w1) \<Longrightarrow> is_Ok q \<Longrightarrow>
      account (auth_state_of w) (V_UserID v) \<noteq> None"
    using put_code_needs_user by simp
  show "PutReset (Resets (wired_auth (api_auth a) crypto c)) l w = (q, w1) \<Longrightarrow> is_Ok q \<Longrightarrow>
      account (auth_state_of w) (R_UserID l) \<noteq> None"
    using put_reset_needs_user by simp
  show "reset (auth_state_of w) (TokenHash l) = Some old \<Longrightarrow> PutReset (Resets (wired_auth (api_auth a) crypto c)) l w = (q, w1) \<Longrightarrow>
      auth_state_of w1 = auth_state_of w \<or> (\<exists>t. TokenHash old = TokenHash l \<and> auth_state_of w1 =
        (auth_state_of w)\<lparr>reset := (reset (auth_state_of w))(TokenHash l \<mapsto> old\<lparr>R_ExpiresAt := t, R_ConsumedAt := None\<rparr>)\<rparr>)"
    using put_reset_taken [of l w q w1 old] by simp
  show "Snapshot (wired_auth (api_auth a) crypto c) = Some sn \<Longrightarrow> keeps (\<lambda>w. auth_state_of w = x) (sn n)"
    using keeps_state_snapshot by auto
qed


section \<open>The server runs the machine\<close>

abbreviation api_machine_run :: "api \<Rightarrow> auth_state \<Rightarrow> auth_state \<Rightarrow> bool" where
  "api_machine_run a \<equiv> account_run (MaxVerificationAttempts (withDefaults (wired_policy (api_config a))))"

definition follows :: "api \<Rightarrow> auth_state \<Rightarrow> world \<Rightarrow> bool" where
  "follows a x w \<longleftrightarrow> db_invar w \<and> api_machine_run a x (auth_state_of w)"

lemma follows_eq: "follows a x = wired_machine.runs a crypto c x" if "c = api_config a"
  by (simp add: fun_eq_iff follows_def wired_machine.runs_def that)

lemma follows_same:
  "(\<And>ck. keeps (db_ok ck) m) \<Longrightarrow> (\<And>y. keeps (\<lambda>w. auth_state_of w = y) m) \<Longrightarrow> keeps (follows a x) m"
  unfolding follows_eq [OF refl, where crypto = "api_crypto a"]
  by (rule wired_machine.runs_same) (rule keeps_db_invar)

lemma keeps_state_progress:
  assumes "\<And>ck y. keeps (credentials ck y) m"
  shows "keeps (\<lambda>w. auth_state_of w = y) m"
proof (rule keepsI)
  fix w
  assume "auth_state_of w = y"
  then show "auth_state_of (snd (m w)) = y"
    using keepsD [OF assms [of "collation_key w" y], of w] by (simp add: credentials_def)
qed

interpretation machine: use_cases_keep a "follows a x" "{}" for a x
proof unfold_locales
  show "keeps (follows a x) read_clock"
    by (intro follows_same keeps_clock db_only_ok db_only_state)
  show "keeps (follows a x) (Register (fst (services a)) creds)" "keeps (follows a x) (Login (fst (services a)) creds)"
    "keeps (follows a x) (VerifyEmail (fst (services a)) e cd)" "keeps (follows a x) (ResendVerification (fst (services a)) e)"
    "keeps (follows a x) (ForgotPassword (fst (services a)) e)" "keeps (follows a x) (ResetPassword (fst (services a)) tk pw)"
    "keeps (follows a x) (service_Me (fst (services a)) n)" "keeps (follows a x) (SaveProfile (fst (services a)) n pf)"
    for creds e cd tk pw n pf
    unfolding follows_eq [OF refl, where crypto = "api_crypto a"] services_def fst_conv by (rule wired_machine.runs_use_cases)+
  show "keeps (follows a x) (Get (snd (services a)) n)" "keeps (follows a x) (Save (snd (services a)) n d)"
    "keeps (follows a x) (Merge (snd (services a)) n d)" "keeps (follows a x) (RecordAnswer (snd (services a)) n ans)"
    "keeps (follows a x) (CompleteLesson (snd (services a)) n d)" for n d ans
    unfolding services_def snd_conv
    by (rule follows_same; (rule consistency.progress_use_cases.keeps_use_cases)?;
      rule keeps_state_progress, rule credentials_by_progress.progress_use_cases.keeps_use_cases)+
qed

lemma reachable_follows:
  assumes "reachable a w0 w" "tables_ok (collation_key w0) (db w0)"
  shows "follows a (auth_state_of w0) w"
proof (rule reachable_keeps [OF assms(1)])
  show "db_only (follows a (auth_state_of w0))"
    unfolding db_only_def follows_def db_invar_def by (metis auth_state_cong)
  show "follows a (auth_state_of w0) v \<Longrightarrow> follows a (auth_state_of w0) (snd (serve a allowed e c v))" for allowed e c v
    by (rule machine.serve_keeps) simp_all
  show "follows a (auth_state_of w0) w0" using assms(2) by (simp add: follows_def db_invar_def)
qed

text \<open>C3: The server refines the machine: through any run of it, from tables that are consistent, the
  owners of addresses, the accounts, the codes and the links change by steps of the machine only.
  So nothing but a usable code or a usable link confirms an address, nothing but a usable link
  changes a password, and no address changes hands.\<close>

theorem server_runs_the_machine:
  assumes "reachable a w0 w" "tables_ok (collation_key w0) (db w0)"
  shows "api_machine_run a (auth_state_of w0) (auth_state_of w)"
  using reachable_follows [OF assms] by (simp add: follows_def)

theorem server_runs_the_machine_witness:
  "api_machine_run sample_api (auth_state_of sample_site)
     (auth_state_of (snd (serve sample_api (\<lambda>_. True) (Some EP_Login) (sample_ctx []) sample_site)))"
  by (rule server_runs_the_machine [OF reachable_request]) (use sample_tables(1) sample_keys(1) in simp)

section \<open>What the machine never does\<close>

text \<open>A code is guessed at most \<open>mx\<close> times: a wrong guess needs one that was left.\<close>

definition bounded_guesses :: "int \<Rightarrow> auth_state \<Rightarrow> bool" where
  "bounded_guesses mx s \<longleftrightarrow> (\<forall>i v. code s i = Some v \<longrightarrow> Attempts v \<le> mx)"

lemma step_bounded:
  assumes "account_step mx s s1" "bounded_guesses mx s" "0 \<le> mx"
  shows "bounded_guesses mx s1"
  using assms
proof (induction rule: account_step.induct)
  case (code_missed s i v t)
  then show ?case by (auto simp: bounded_guesses_def on_code_def missed_def Verification_Usable_def)
qed (auto simp: bounded_guesses_def on_code_def on_account_def used_code_def with_reset_def split: if_splits)

lemma run_bounded:
  assumes "account_run mx s s1" "bounded_guesses mx s" "0 \<le> mx"
  shows "bounded_guesses mx s1"
  using assms(1) by (induction rule: rtranclp_induct) (use assms step_bounded in blast)+

text \<open>On the tables every code is the one of its account.\<close>

lemma bounded_codes:
  assumes "tables_ok ck (db w)"
  shows "bounded_guesses mx (auth_state_of w) \<longleftrightarrow> (\<forall>c \<in> set (codes (db w)). c_attempts c \<le> mx)"
proof -
  have k: "keys_ok c_user_id (codes (db w))" using assms by (simp add: tables_ok_def)
  have "code_of (c_user_id c) (db w) = Some c" if "c \<in> set (codes (db w))" for c
    unfolding code_of_def by (rule row_with_key [OF k that])
  moreover have "code_of i (db w) = Some c \<Longrightarrow> c \<in> set (codes (db w))" for i c
    unfolding code_of_def using row_with_Some by fast
  ultimately show ?thesis
    by (fastforce simp: bounded_guesses_def auth_state_of_def code_abs_def)
qed

text \<open>C12: No code is guessed too often: while requests are served one after the other, the count of wrong
  guesses of a code never exceeds the configured maximum, whatever the requests and the faults are.\<close>

theorem guesses_are_bounded:
  assumes "reachable a w0 w" "tables_ok (collation_key w0) (db w0)"
    and "\<forall>c \<in> set (codes (db w0)). c_attempts c \<le> MaxVerificationAttempts (withDefaults (wired_policy (api_config a)))"
  shows "\<forall>c \<in> set (codes (db w)). c_attempts c \<le> MaxVerificationAttempts (withDefaults (wired_policy (api_config a)))"
proof -
  have "tables_ok (collation_key w) (db w)" "api_machine_run a (auth_state_of w0) (auth_state_of w)"
    using reachable_follows [OF assms(1,2)] by (simp_all add: follows_def db_invar_def)
  then show ?thesis
    using run_bounded bounded_codes [OF assms(2)] bounded_codes assms(3) withDefaults_positive(2) by (metis less_le)
qed

theorem guesses_are_bounded_witness:
  "list_all (\<lambda>c. c_attempts c \<le> 5)
     (codes (db (snd (serve sample_api (\<lambda>_. True) (Some EP_VerifyEmail) (sample_ctx []) coded_site))))"
  using guesses_are_bounded [OF reachable_request [of sample_api coded_site], of "\<lambda>_. True" "Some EP_VerifyEmail" "sample_ctx []"]
    sample_tables(3) sample_keys(3) by (simp add: coded_sel sample_api_def sample_policy withDefaults_def list_all_iff)

end
