(* ===== verification/Liveness.thy ===== *)
theory Liveness
  imports AccountRuns Samples
begin

text \<open>
  What succeeds: while the driver answers, a login with the right password ends in a session whose
  token verifies, and a valid document sent with a valid token is stored and sent back. The lemmas
  compute the statements of both requests in a world whose next statements all succeed.
\<close>

section \<open>Statements that are answered\<close>

lemma calm_statement: "faults w = [] \<Longrightarrow> statement f w = f w"
  by (simp add: statement_def)

lemma calm_query:
  assumes "faults w = []" "row_with (p w) (users (db w)) = Some r"
  shows "queryOne lib p w = (user_of_row lib r, w)"
  using assms by (simp add: queryOne_def calm_statement andThen_def onErr_def)

lemma calm_find:
  assumes "faults w = []" "user_row_of i (db w) = Some r"
  shows "mysql_FindByID lib i w = (user_of_row lib r, w)"
  using assms unfolding mysql_FindByID_def user_row_of_def by (rule calm_query)

text \<open>Whether a stored row reads as a user depends on its id and address only.\<close>

lemma user_of_row_columns:
  assumes "user_of_row lib r = Ok u" "u_id r' = u_id r" "u_email r' = u_email r"
  shows "\<exists>u'. user_of_row lib r' = Ok u' \<and> User_ID u' = User_ID u"
  using assms by (auto simp: user_of_row_def)

lemma calm_touch:
  assumes "faults w = []" "user_row_of i (db w) = Some r" "user_of_row lib r = Ok u"
  shows "\<exists>u' us. mysql_TouchActivity lib i d w = (Ok u', w\<lparr>db := (db w)\<lparr>users := us\<rparr>\<rparr>) \<and> User_ID u' = User_ID u"
proof -
  let ?f = "\<lambda>r. (touch_row d r)\<lparr>u_updated_at := current_timestamp w\<rparr>" and ?p = "\<lambda>r. u_id r = i \<and> touch_row d r \<noteq> r"
  let ?w = "w\<lparr>db := (db w)\<lparr>users := update_rows ?p ?f (users (db w))\<rparr>\<rparr>"
  have cols: "u_id (?f x) = u_id x" "u_email (?f x) = u_email x" for x by (simp_all add: touch_row_def Let_def)
  have "user_row_of i (db ?w) = map_option (\<lambda>r. if ?p r then ?f r else r) (user_row_of i (db w))"
    using row_with_update_key [of ?p u_id ?f i "users (db w)"] cols(1) by (simp add: user_row_of_def)
  then have row: "user_row_of i (db ?w) = Some (if ?p r then ?f r else r)" using assms(2) by simp
  obtain u' where "user_of_row lib (if ?p r then ?f r else r) = Ok u'" "User_ID u' = User_ID u"
    using user_of_row_columns [OF assms(3), of "if ?p r then ?f r else r"] cols by (cases "?p r") auto
  with calm_find [OF _ row, of lib] assms(1) show ?thesis
    by (intro exI [of _ u'] exI [of _ "users (db ?w)"])
      (simp add: mysql_TouchActivity_def update_user_def calm_statement andThen_def onErr_def)
qed

lemma read_clock_eq:
  obtains w1 where "read_clock w = (Ok (now w), w1)" "faults w1 = faults w" "db w1 = db w" "w1 = snd (read_clock w)"
  by (auto simp: read_clock_def split: list.splits)

lemma calm_issue:
  assumes "is_Ok (jwt_Sign lib HS256 (secret m) (claims_for m i (UTC (now w))))"
  obtains token w1 where "jwt_Sign lib HS256 (secret m) (claims_for m i (UTC (now w))) = Ok token"
    "jwt_Issue lib m i w = (Ok (token, (UTC (now w))\<lparr>Nanos := Nanos (UTC (now w)) + ttl m\<rparr>), w1)"
proof -
  obtain w1 where "read_clock w = (Ok (now w), w1)" by (rule read_clock_eq)
  with assms show thesis
    using that by (auto simp: jwt_Issue_def andThen_def onErr_def Let_def elim!: is_OkE)
qed

section \<open>Logging in\<close>

text \<open>The account of an address, as stored.\<close>

definition stored_account :: "('a) auth_lib_scheme \<Rightarrow> world \<Rightarrow> string \<Rightarrow> User \<Rightarrow> bool" where
  "stored_account lib w e u \<longleftrightarrow>
     (\<exists>r. row_with (\<lambda>r. same_email w (u_email r) e) (users (db w)) = Some r \<and> user_of_row lib r = Ok u)"

text \<open>C9: The right password logs in: while the driver answers, an account that is stored under the
  address, whose hash bcrypt accepts the password for, and whose address is confirmed where that is
  required, gets a session; its token is what the library signs for the claims of that account, and it
  expires after the configured lifetime.\<close>

theorem right_password_logs_in:
  assumes "faults w = []" "tables_ok (collation_key w) (db w)"
    and "NewEmail (mail_lib.truncate (api_auth a)) (C_Email creds) = Ok e" "stored_account (api_auth a) w e u"
    and "hasher_Compare (api_crypto a) (PasswordHash u) (Password creds) = Ok ()"
    and "auth_RequireVerifiedEmail (cfg_Auth (api_config a)) \<longrightarrow> EmailVerified u"
    and "jwt_Sign (api_crypto a) HS256 (secret (wired_tokens (api_config a)))
        (claims_for (wired_tokens (api_config a)) (User_ID u) (UTC (now (snd (read_clock w))))) = Ok token"
  shows "\<exists>sess w1. Login (fst (services a)) creds w = (Ok sess, w1) \<and> User_ID (S_User sess) = User_ID u \<and>
    Token sess = token \<and> Nanos (ExpiresAt sess) = Nanos (now (snd (read_clock w))) + auth_JWTTTL (cfg_Auth (api_config a))"
proof -
  let ?s = "wired_auth (api_auth a) (api_crypto a) (api_config a)" and ?m = "wired_tokens (api_config a)"
  obtain r where r: "row_with (\<lambda>r. same_email w (u_email r) e) (users (db w)) = Some r" "user_of_row (api_auth a) r = Ok u"
    using assms(4) unfolding stored_account_def by blast
  then have id: "u_id r = User_ID u" "r \<in> set (users (db w))"
    using user_of_row_Ok [OF r(2)] row_with_Some [OF r(1)] by simp_all
  have row: "user_row_of (User_ID u) (db w) = Some r"
    using assms(2) id(2) unfolding user_row_of_def tables_ok_def id(1) [symmetric] by (intro row_with_key) simp_all
  have f: "mysql_FindByEmail (api_auth a) e w = (Ok u, w)"
    using calm_query [OF assms(1), where p = "\<lambda>w r. same_email w (u_email r) e" and lib = "api_auth a", OF r(1)] r(2) by (simp add: mysql_FindByEmail_def)
  obtain w1 where t: "read_clock w = (Ok (now w), w1)" "faults w1 = faults w" "db w1 = db w" "w1 = snd (read_clock w)"
    by (rule read_clock_eq [of w])
  let ?d = "DayIn (now w) (Location (api_auth a) (Profile_of u))"
  obtain u' us where touch: "mysql_TouchActivity (api_auth a) (User_ID u) ?d w1 = (Ok u', w1\<lparr>db := (db w1)\<lparr>users := us\<rparr>\<rparr>)"
      "User_ID u' = User_ID u"
    using calm_touch [OF t(2) [unfolded assms(1)], of "User_ID u" r "api_auth a" u ?d] row r(2) t(3) by auto
  let ?w2 = "w1\<lparr>db := (db w1)\<lparr>users := us\<rparr>\<rparr>"
  have now: "now ?w2 = now (snd (read_clock w))" using t(4) by simp
  obtain w3 where i: "jwt_Issue (api_crypto a) ?m (User_ID u) ?w2 =
      (Ok (token, (UTC (now ?w2))\<lparr>Nanos := Nanos (UTC (now ?w2)) + ttl ?m\<rparr>), w3)"
    using calm_issue [of "api_crypto a" ?m "User_ID u" ?w2] assms(7) unfolding now by auto
  have g: "\<not> (RequireVerifiedEmail (withDefaults (wired_policy (api_config a))) \<and> \<not> EmailVerified u)"
    using assms(6) by (simp add: withDefaults_def wired_policy_def)
  have "Login ?s creds w = (Ok \<lparr>Token = token, ExpiresAt = (UTC (now ?w2))\<lparr>Nanos := Nanos (UTC (now ?w2)) + ttl ?m\<rparr>, S_User = u'\<rparr>, w3)"
    using g i touch by (simp add: Login_def email_of_def assms(3,5) f t(1) openSession_def andThen_def onErr_def mysql_users_def)
  moreover have "ttl ?m = auth_JWTTTL (cfg_Auth (api_config a))" by (simp add: wired_tokens_def NewJWTManager_def)
  ultimately show ?thesis
    using touch(2) now by (simp add: services_def UTC_def)
qed

lemma sample_stored: "stored_account sample_lib sample_site ''a@b.c'' sample_User"
  by (simp add: stored_account_def sample_site_sel row_with_def same_email_def sample_user_sel sample_row)

theorem right_password_logs_in_witness:
  "\<exists>sess w1. Login (fst (services sample_api)) \<lparr>C_Email = ''a@b.c'', Password = ''secret12''\<rparr> sample_site = (Ok sess, w1) \<and>
     User_ID (S_User sess) = 1 \<and> Token sess = ''token''"
proof -
  have id: "User_ID sample_User = 1" "PasswordHash sample_User = ''$secret12''" by (simp_all add: sample_User_def)
  have n: "now (snd (read_clock sample_site)) = of_seconds 1700000000" by (simp add: read_clock_def sample_site_sel)
  have sign: "jwt_Sign (api_crypto sample_api) HS256 (secret (wired_tokens (api_config sample_api)))
      (claims_for (wired_tokens (api_config sample_api)) (User_ID sample_User) (UTC (now (snd (read_clock sample_site))))) = Ok ''token''"
    unfolding n id by (simp add: sample_api_def sample_tokens sample_crypto_def sample_claims_def UTC_def of_seconds_def)
      (simp add: sample_manager_def NewJWTManager_def)
  have "hasher_Compare (api_crypto sample_api) (PasswordHash sample_User) ''secret12'' = Ok ()"
    by (simp add: sample_api_def id hasher_Compare_def sample_crypto_def)
  from right_password_logs_in [of sample_site sample_api "\<lparr>C_Email = ''a@b.c'', Password = ''secret12''\<rparr>", OF sample_site_sel(2) _ _ _ _ _ sign]
    sample_stored sample_tables(1) sample_keys(1) sample_email this
  show ?thesis by (auto simp: sample_api_def sample_cfg id)
qed

section \<open>Storing a document\<close>

lemma verified_positive: "jwt_VerifyAt lib m t token = Ok c \<Longrightarrow> 0 < Claims_UserID c"
  by (auto simp: jwt_VerifyAt_def dest: arg_cong [where f = Claims_UserID] split: if_splits option.splits)

text \<open>The rows of the documents have positive ids.\<close>

definition progress_ids_ok :: "tables \<Rightarrow> bool" where
  "progress_ids_ok t \<longleftrightarrow> 0 < next_progress_id t \<and> (\<forall>r \<in> set (progress t). 0 < p_id r)"

lemma put_progress_ids: "progress_ids_ok t \<Longrightarrow> progress_ids_ok (put_progress u d at t)"
  by (auto simp: progress_ids_ok_def put_progress_def update_rows_def split: option.splits)

lemma calm_find_progress:
  assumes "faults w = []" "progress_ids_ok (db w)" "stored_progress w u = Some d" "0 < u"
  shows "\<exists>p. mysql_FindByUserID u w = (Ok p, w) \<and> Data p = d"
proof -
  obtain r where r: "progress_of u (db w) = Some r" "p_data r = d" using assms(3) by (auto simp: stored_progress_def)
  then have "0 < p_id r" "p_user_id r = u"
    using assms(2) row_with_Some [OF r(1) [unfolded progress_of_def]] by (auto simp: progress_ids_ok_def)
  then show ?thesis using assms(1,4) r
    by (simp add: mysql_FindByUserID_def select_progress_def calm_statement andThen_def onErr_def)
qed

lemma calm_upsert:
  assumes "faults w = []" "progress_ids_ok (db w)" "accepts_text w d" "user_row_of u (db w) \<noteq> None" "0 < u"
  shows "\<exists>p w1. mysql_Upsert u d w = (Ok p, w1) \<and> Data p = d \<and> stored_progress w1 = (stored_progress w)(u \<mapsto> d)"
proof -
  let ?w = "w\<lparr>db := put_progress u d (current_timestamp w) (db w)\<rparr>"
  have up: "upsert_progress u d w = (Ok (), ?w)"
    using assms(1,3,4) by (auto simp: upsert_progress_def calm_statement user_row_of_def)
  have st: "stored_progress ?w = (stored_progress w)(u \<mapsto> d)"
    by (simp add: stored_progress_def progress_of_put fun_eq_iff)
  obtain p where "mysql_FindByUserID u ?w = (Ok p, ?w)" "Data p = d"
    using calm_find_progress [of ?w u d] assms(1,5) put_progress_ids [OF assms(2)] st by auto
  then show ?thesis using up st by (simp add: mysql_Upsert_def andThen_def onErr_def)
qed

text \<open>C17: A valid document is stored: while the driver answers, a \<open>PUT /progress\<close> with a token that
  verifies for an account that exists, and a body that passes the checks of the service and of the
  table, is answered with 200 and the bytes of the document, which is then the stored one; whatever
  happens to the activity counters.\<close>

theorem valid_put_is_stored:
  assumes "faults w = []" "progress_ids_ok (db w)" "crypto_returns (api_crypto a)"
    and "starts_with bearerPrefix (Authorization c)" "TrimSpace (drop (length bearerPrefix) (Authorization c)) = token" "token \<noteq> []"
    and "jwt_VerifyAt (api_crypto a) (wired_tokens (api_config a)) (now w) token = Ok claims"
    and "user_row_of (Claims_UserID claims) (db w) \<noteq> None"
    and "validateData (documentFromBody (Body c)) = Ok ()" "accepts_text w (documentFromBody (Body c))"
  shows "\<exists>w1. serve a allowed (Some EP_SaveProgress) c w = (\<lparr>Status = 200, Payload = RawBody (documentFromBody (Body c))\<rparr>, w1) \<and>
    stored_progress w1 = (stored_progress w)(Claims_UserID claims \<mapsto> documentFromBody (Body c))"
proof -
  let ?s = "wired_progress (api_auth a) (api_crypto a) (api_config a)" and ?i = "Claims_UserID claims"
    and ?d = "documentFromBody (Body c)"
  have pos: "0 < ?i" by (rule verified_positive [OF assms(7)])
  obtain w1 where t: "read_clock w = (Ok (now w), w1)" "faults w1 = faults w" "db w1 = db w" "w1 = snd (read_clock w)"
    by (rule read_clock_eq [of w])
  have check: "accepts_text w1 = accepts_text w" using t(4) by (simp add: read_clock_def split: list.split)
  have st1: "stored_progress w1 = stored_progress w" using t(3) by (simp add: stored_progress_def fun_eq_iff)
  obtain p w2 where up: "mysql_Upsert ?i ?d w1 = (Ok p, w2)" "Data p = ?d" "stored_progress w2 = (stored_progress w1)(?i \<mapsto> ?d)"
    using calm_upsert [of w1 ?d ?i] assms(1,2,8,10) t(2,3) check pos by auto
  obtain r w3 where rec: "recordActivity ?s ?i w2 = (r, w3)" by fastforce
  have "\<exists>x. r = Ok x"
    using rec returns_recorder [OF assms(3), of "api_auth a" "api_config a" ?i]
    by (auto simp: recordActivity_def returns_def no_panic_def handling_def split: prod.splits result.splits option.splits)
  then obtain x where r: "r = Ok x" by blast
  have st3: "stored_progress w3 = stored_progress w2"
    using rec keeps_eq [where f = stored_progress, OF stored_frame.keeps_activity]
    by (auto simp: recordActivity_def handling_def split: prod.splits result.splits)
  have "Save ?s ?i ?d w1 = (Ok p, w3)"
    using assms(9) up rec r pos by (simp add: Save_def andThen_def onErr_def del: validateData_Ok)
  then have "serve a allowed (Some EP_SaveProgress) c w = (send_document p, w3)"
    using assms(4-7) t(1) pos
    by (auto simp: serve_def guards_of_def JWTAuth_def Let_def jwt_Verify_def or_fail_def handling_def andThen_def services_def
        handle_Save_def ctx_UserID_def bearerPrefix_def starts_with_def)
  then show ?thesis using up(2,3) st3 st1 by (simp add: send_document_def)
qed

theorem valid_put_is_stored_witness:
  "\<exists>w1. serve sample_api (\<lambda>_. True) (Some EP_SaveProgress) (sample_ctx ''{}'') sample_site = (\<lparr>Status = 200, Payload = RawBody ''{}''\<rparr>, w1) \<and>
     stored_progress w1 1 = Some ''{}''"
proof -
  have lib: "crypto_returns (api_crypto sample_api)"
    by (auto simp: sample_api_def crypto_returns_def sample_crypto_def)
  have ids: "progress_ids_ok (db sample_site)" by (simp add: progress_ids_ok_def site_free)
  have c: "starts_with bearerPrefix (Authorization (sample_ctx ''{}''))" "TrimSpace (drop (length bearerPrefix) (Authorization (sample_ctx ''{}''))) = ''token''"
    "documentFromBody (Body (sample_ctx ''{}'')) = ''{}''"
    by (simp_all add: sample_ctx_def bearerPrefix_def starts_with_def documentFromBody_def TrimSpace_graphic graphic_def)
  have v: "jwt_VerifyAt (api_crypto sample_api) (wired_tokens (api_config sample_api)) (now sample_site) ''token'' = Ok sample_claims"
    by (simp add: sample_api_def sample_site_sel sample_token)
  have i: "Claims_UserID sample_claims = 1" by (simp add: sample_claims_def claims_for_def)
  have u: "user_row_of (Claims_UserID sample_claims) (db sample_site) \<noteq> None" "accepts_text sample_site ''{}''"
    by (simp_all add: i user_row_of_def sample_site_sel row_with_def sample_user_sel) (simp add: sample_site_def sample_world_def)
  from valid_put_is_stored [OF sample_site_sel(2) ids lib c(1,2) _ v u(1), where allowed = "\<lambda>_. True"] c(3) empty_object u(2)
  show ?thesis by (auto simp: i)
qed

end
