(* ===== verification/ConcurrentAnswers.thy ===== *)
theory ConcurrentAnswers
  imports Concurrency Liveness
begin

text \<open>
  Answers of one account at the same time. The read and the write of an answer are inside one
  transaction that locks the row of the account, so an answer is graded on the document as it is at
  that moment, whatever other requests did since the request began. \<open>documented u as w\<close> says that the
  stored document is that of the history \<open>as\<close>. A step of another request comes with its log: the
  answers it records in the world it happens in (\<open>records\<close>). Then the history after a request that
  records an answer is the history before it, the logs of all the steps that happened meanwhile, in
  their order and in the worlds in which they did happen, and in one place among them the answer.
\<close>

section \<open>Histories of a shared document\<close>

definition documented :: "ID \<Rightarrow> Answer list \<Rightarrow> world \<Rightarrow> bool" where
  "documented u as w \<longleftrightarrow>
     (\<exists>doc. parseDocument (current_of (stored_progress w u)) = Ok doc \<and> records_history as doc)"

definition records :: "ID \<Rightarrow> (world \<Rightarrow> world) \<Rightarrow> (world \<Rightarrow> Answer list) \<Rightarrow> bool" where
  "records u f log \<longleftrightarrow> (\<forall>as w. documented u as w \<longrightarrow> documented u (as @ log w) (f w))"

lemma documented_cong: "documented u as w \<Longrightarrow> stored_progress v u = stored_progress w u \<Longrightarrow> documented u as v"
  by (simp add: documented_def)

lemma untouched_records: "(\<And>w. stored_progress (f w) u = stored_progress w u) \<Longrightarrow> records u f (\<lambda>_. [])"
  by (auto simp: records_def intro: documented_cong)

lemma no_document: "stored_progress w u = None \<Longrightarrow> documented u [] w"
  by (simp add: documented_def current_of_def parseDocument_def records_nothing)

section \<open>The logs of what happened\<close>

type_synonym logged = "(world \<Rightarrow> world) \<times> (world \<Rightarrow> Answer list)"

text \<open>What each of the steps recorded in the world in which it happened.\<close>

definition logs :: "logged list \<Rightarrow> world list \<Rightarrow> Answer list list" where
  "logs steps seen = map2 (\<lambda>(f, log) v. log v) steps seen"

lemma logs_snoc:
  "length seen < length steps \<Longrightarrow> logs steps (seen @ [v]) = logs steps seen @ [snd (steps ! length seen) v]"
  unfolding logs_def
proof (induction seen arbitrary: steps)
  case Nil
  then show ?case by (cases steps) (auto simp: case_prod_beta)
next
  case (Cons x seen)
  then show ?case by (cases steps) auto
qed

lemma length_logs: "length seen \<le> length steps \<Longrightarrow> length (logs steps seen) = length seen"
  by (simp add: logs_def)

text \<open>The state of a request among such steps; \<open>h\<close> makes a history of the logs so far.\<close>

definition in_history :: "ID \<Rightarrow> logged list \<Rightarrow> nat \<Rightarrow> (Answer list list \<Rightarrow> Answer list) \<Rightarrow> world shared \<Rightarrow> bool" where
  "in_history u steps n h = (\<lambda>(w, fs, seen).
     n \<le> length seen \<and> length seen \<le> length steps \<and> fs = map fst (drop (length seen) steps) \<and>
     documented u (h (logs steps seen)) w)"

definition grows_after :: "nat \<Rightarrow> (Answer list list \<Rightarrow> Answer list) \<Rightarrow> bool" where
  "grows_after n h \<longleftrightarrow> (\<forall>ls l. n \<le> length ls \<longrightarrow> h (ls @ [l]) = h ls @ l)"

lemma grows_simps:
  "grows_after 0 (\<lambda>ls. as @ concat ls)" "grows_after n (\<lambda>ls. as @ concat (take n ls) @ [a] @ concat (drop n ls))"
  by (simp_all add: grows_after_def)

text \<open>A foreign step goes into the history.\<close>

lemma foreign_step:
  assumes "in_history u steps n h (w, f # fs, seen)" "grows_after n h" "\<forall>(f, log) \<in> set steps. records u f log"
  shows "in_history u steps n h (f w, fs, seen @ [w])"
proof -
  have lt: "length seen < length steps" using assms(1) by (cases "length seen < length steps") (auto simp: in_history_def)
  then have d: "drop (length seen) steps = steps ! length seen # drop (Suc (length seen)) steps" by (rule Cons_nth_drop_Suc [symmetric])
  then have f: "f = fst (steps ! length seen)" "fs = map fst (drop (Suc (length seen)) steps)"
    using assms(1) by (auto simp: in_history_def)
  have "records u f (snd (steps ! length seen))" using assms(3) nth_mem [OF lt] f(1) by (auto simp: case_prod_beta)
  moreover have "documented u (h (logs steps seen)) w" "n \<le> length seen" using assms(1) by (simp_all add: in_history_def)
  ultimately have "documented u (h (logs steps (seen @ [w]))) (f w)"
    using assms(2) lt by (simp add: logs_snoc grows_after_def length_logs records_def)
  with lt f(2) \<open>n \<le> length seen\<close> show ?thesis by (simp add: in_history_def)
qed

text \<open>A step of the request itself runs in a world that the history describes.\<close>

lemma own_step:
  assumes "disturbed m p = (r, p1)" "in_history u steps n h p" "grows_after n h" "\<forall>(f, log) \<in> set steps. records u f log"
  obtains v v1 fs seen where "m v = (r, v1)" "p1 = (v1, fs, seen)" "in_history u steps n h (v, fs, seen)"
proof -
  obtain w fs seen where wfs: "p = (w, fs, seen)" by (metis prod.exhaust)
  show thesis
  proof (cases fs)
    case Nil
    then have "r = fst (m w)" "p1 = (snd (m w), [], seen)" using assms(1) wfs by (simp_all add: disturbed_quiet)
    with Nil assms(2) wfs show thesis by (intro that [of w "snd (m w)" "[]" seen]) simp_all
  next
    case (Cons f rest)
    with foreign_step [OF _ assms(3,4)] assms(2) have "in_history u steps n h (f w, rest, seen @ [w])" unfolding wfs by simp
    moreover have "r = fst (m (f w))" "p1 = (snd (m (f w)), rest, seen @ [w])"
      using assms(1) wfs Cons by (simp_all add: disturbed_step)
    ultimately show thesis by (intro that [of "f w" "snd (m (f w))" rest "seen @ [w]"]) simp_all
  qed
qed

text \<open>If it leaves the documents alone it leaves the history as it is.\<close>

lemma keeps_in_history:
  assumes "\<And>x. keeps (\<lambda>w. stored_progress w = x) m" "grows_after n h" "\<forall>(f, log) \<in> set steps. records u f log"
  shows "keeps (in_history u steps n h) (disturbed m)"
proof (rule keepsI)
  fix p
  assume p: "in_history u steps n h p"
  obtain v v1 fs seen where v: "m v = (fst (disturbed m p), v1)" "snd (disturbed m p) = (v1, fs, seen)"
      "in_history u steps n h (v, fs, seen)"
    by (rule own_step [OF prod.collapse [symmetric] p assms(2,3)])
  have "stored_progress v1 = stored_progress v" using keepsD [OF assms(1) refl, of v] v(1) by simp
  then show "in_history u steps n h (snd (disturbed m p))"
    using v(3) unfolding v(2) by (auto simp: in_history_def intro: documented_cong)
qed

lemma own_reads:
  "keeps (\<lambda>w. stored_progress w = x) begin_tx" "keeps (\<lambda>w. stored_progress w = x) (mysql_FindByUserID n)"
proof -
  have "stored_progress (snd (begin_tx w)) = stored_progress w" "stored_progress (snd (mysql_FindByUserID n w)) = stored_progress w" for w
    using begin_tx_spec [OF surjective_pairing] mysql_find_spec [OF surjective_pairing]
    by (simp_all add: stored_progress_def fun_eq_iff)
  then show "keeps (\<lambda>w. stored_progress w = x) begin_tx" "keeps (\<lambda>w. stored_progress w = x) (mysql_FindByUserID n)"
    by (simp_all add: keeps_def)
qed

lemma shared_touch_history:
  assumes "grows_after n h" "\<forall>(f, log) \<in> set steps. records u f log"
  shows "keeps (in_history u steps n h) (recordActivity (shared_progress lib crypto c) i)"
  unfolding recordActivity_def shared_progress_def Service.simps option.case shared_activity_def RecordActivity_def
    shared_auth_def AuthService.simps shared_users_def UserRepository.simps then_find_def auth_with_sel
  by (intro keeps_handling keeps_andThen keeps_onErr keeps_lift keeps_in_history [OF _ assms] keeps_stored_find
      keeps_stored_update keeps_clock db_only_stored)

section \<open>An answer\<close>

lemma alone_mutation: "alone (mutation (gradeAnswer (disturbed rn) a) c) = mutation (gradeAnswer rn a) c"
  by (simp add: mutation_def gradeAnswer_def)


lemma documented_graded:
  assumes "documented u as v" "parseDocument (current_of (stored_progress v u)) = Ok doc"
    and "fst (gradeAnswer rn a doc v') = Ok doc'" "marshal doc' = Ok d" "stored_progress v1 = (stored_progress v)(u \<mapsto> d)"
    and "validateAnswer a = Ok ()" "valid_utf8 (Chosen a)"
  shows "documented u (as @ [a]) v1"
proof -
  have doc: "records_history as doc" using assms(1,2) unfolding documented_def by auto
  from gradeAnswer_stores [OF assms(2-4,6,7)] obtain new t where "parseDocument d = Ok new" "answer_recorded a t doc new"
    by blast
  with doc assms(5) show ?thesis unfolding documented_def by (auto simp: current_of_def intro: records_answer)
qed

text \<open>The transaction of an answer, among others.\<close>

lemma answer_transaction:
  assumes "transaction (tx_body u (mutation (gradeAnswer read_clock a))) w = (Ok (), w1)" "documented u as w"
    and "validateAnswer a = Ok ()" "valid_utf8 (Chosen a)"
  shows "documented u (as @ [a]) w1"
proof -
  have fn: "stored_progress (snd (mutation (gradeAnswer read_clock a) c v)) = stored_progress v" for c v
    using keepsD [OF keeps_mutation [OF keeps_gradeAnswer [OF keeps_clock [OF db_only_stored [of "stored_progress v"]]]], of v] by simp
  have "tx_body u (mutation (gradeAnswer read_clock a)) w = (Ok (), w1)" using transaction_spec [OF assms(1)] by simp
  from tx_body_spec(1) [OF this fn] obtain v d where
      "fst (mutation (gradeAnswer read_clock a) (current_of (stored_progress w u)) v) = Ok d"
      "stored_progress w1 = (stored_progress w)(u \<mapsto> d)" by auto
  then show ?thesis unfolding mutation_Ok
    by (elim exE conjE) (rule documented_graded [OF assms(2) _ _ _ _ assms(3,4)])
qed

text \<open>The request: the history before its answer, its answer, and the history after it.\<close>

lemma shared_record:
  assumes "RecordAnswer (shared_progress lib crypto c) u a (w, map fst steps, []) = (Ok p, q)" "valid_utf8 (Chosen a)"
    and "documented u as w" "\<forall>(f, log) \<in> set steps. records u f log"
  shows "\<exists>n. in_history u steps n (\<lambda>ls. as @ concat (take n ls) @ [a] @ concat (drop n ls)) q"
proof -
  let ?h0 = "\<lambda>ls. as @ concat ls" and ?tx = "transaction (tx_body u (mutation (gradeAnswer read_clock a)))"
  have ok: "validateAnswer a = Ok ()"
    using assms(1) by (auto simp: RecordAnswer_def andThen_Ok_iff)
  obtain x3 where q: "mutate (shared_progress lib crypto c) u (gradeAnswer (disturbed read_clock) a) (w, map fst steps, []) = (Ok p, x3)"
      "andThen (recordActivity (shared_progress lib crypto c) u) (\<lambda>_. ret p) x3 = (Ok p, q)"
    using assms(1) by (auto simp: RecordAnswer_def andThen_Ok_iff shared_progress_def)
  obtain x1 x2 where x: "disturbed begin_tx (w, map fst steps, []) = (Ok (), x1)" "disturbed ?tx x1 = (Ok (), x2)"
      "disturbed (mysql_FindByUserID u) x2 = (Ok p, x3)"
    using q(1) by (auto simp: mutate_def shared_progress_def shared_repository_def andThen_Ok_iff onErr_Ok_iff alone_mutation)
  have "in_history u steps 0 ?h0 (w, map fst steps, [])" using assms(3) by (simp add: in_history_def logs_def)
  from keepsD [OF keeps_in_history [OF own_reads(1) grows_simps(1) assms(4)] this]
  have g1: "in_history u steps 0 ?h0 x1" unfolding x(1) by simp
  obtain v v1 fs seen where v: "?tx v = (Ok (), v1)" "x2 = (v1, fs, seen)" "in_history u steps 0 ?h0 (v, fs, seen)"
    by (rule own_step [OF x(2) g1 grows_simps(1) assms(4)])
  let ?n = "length seen" and ?h = "\<lambda>ls. as @ concat (take (length seen) ls) @ [a] @ concat (drop (length seen) ls)"
  have len: "length seen \<le> length steps" and d: "documented u (as @ concat (logs steps seen)) v"
    using v(3) by (simp_all add: in_history_def)
  from answer_transaction [OF v(1) d ok assms(2)] have "documented u (?h (logs steps seen)) v1"
    using length_logs [OF len] by simp
  with v(2,3) have g2: "in_history u steps ?n ?h x2" by (simp add: in_history_def)
  from keepsD [OF keeps_in_history [OF own_reads(2) [of _ u] grows_simps(2) assms(4)] g2]
  have g3: "in_history u steps ?n ?h x3" unfolding x(3) by simp
  from keepsD [OF keeps_andThen [OF shared_touch_history [OF grows_simps(2) assms(4)] keeps_lift] g3]
  have "in_history u steps ?n ?h (snd (andThen (recordActivity (shared_progress lib crypto c) u) (\<lambda>_. ret p) x3))" .
  then show ?thesis unfolding q(2) by auto
qed

section \<open>What the requests of the program record\<close>

text \<open>Completing a lesson and merging a patch record no answer, and nothing of an answer is touched.
  Recording an answer records it if it is reported as stored, and also if it was stored but could not be
  read back, which shows in the document having changed.\<close>

lemma mutate_document:
  assumes "mutate (wired_progress lib crypto c) n f w = (r, w1)" "\<And>doc v. stored_progress (snd (f doc v)) = stored_progress v"
    and "stored_progress w1 u \<noteq> stored_progress w u"
  obtains doc doc' v enc where "u = n" "parseDocument (current_of (stored_progress w u)) = Ok doc" "fst (f doc v) = Ok doc'"
    "marshal doc' = Ok enc" "stored_progress w1 = (stored_progress w)(u \<mapsto> enc)"
  using wired_progress.mutate_effect(2) [OF assms(1,2)] assms(3) by (cases "u = n") auto

lemma documented_same:
  assumes "documented u as w" "parseDocument (current_of (stored_progress w u)) = Ok doc" "stored_progress w1 = (stored_progress w)(u \<mapsto> enc)"
    and "parseDocument enc = Ok new" "skills new = skills doc" "mastery new = mastery doc" "attempts new = attempts doc"
  shows "documented u as w1"
  using assms by (auto simp: documented_def records_history_def current_of_def)

definition answer_log :: "world Service \<Rightarrow> ID \<Rightarrow> ID \<Rightarrow> Answer \<Rightarrow> world \<Rightarrow> Answer list" where
  "answer_log s u n a w =
     (case RecordAnswer s n a w of (r, w1) \<Rightarrow>
        if n = u \<and> (is_Ok r \<or> stored_progress w1 u \<noteq> stored_progress w u) then [a] else [])"

lemma answers_recorded:
  assumes "valid_utf8 (Chosen a)"
  shows "records u (\<lambda>w. snd (RecordAnswer (wired_progress lib crypto c) n a w)) (answer_log (wired_progress lib crypto c) u n a)"
  unfolding records_def
proof (intro allI impI)
  fix as w
  assume d: "documented u as w"
  let ?s = "wired_progress lib crypto c"
  obtain r w1 where run: "RecordAnswer ?s n a w = (r, w1)" by fastforce
  have keep: "stored_progress (snd (gradeAnswer read_clock a doc v)) = stored_progress v" for doc v
    using wired_progress.keeps_gradeAnswer_stored [of lib crypto c a doc v] by simp
  have changed: "documented u (as @ [a]) w1 \<and> u = n" if ch: "stored_progress w1 u \<noteq> stored_progress w u"
  proof -
    obtain r' w2 where m: "validateAnswer a = Ok ()" "mutate ?s n (gradeAnswer read_clock a) w = (r', w2)"
        "stored_progress w1 = stored_progress w2"
      using wired_progress.RecordAnswer_run [OF run] ch by auto
    with ch obtain doc doc' v enc where g: "u = n" "parseDocument (current_of (stored_progress w u)) = Ok doc"
        "fst (gradeAnswer read_clock a doc v) = Ok doc'" "marshal doc' = Ok enc" "stored_progress w2 = (stored_progress w)(u \<mapsto> enc)"
      using mutate_document [OF m(2) keep] by metis
    from documented_graded [OF d g(2-4) _ m(1) assms, of w1] g(1,5) m(3) show ?thesis by simp
  qed
  have ok: "documented u (as @ [a]) w1" if rok: "r = Ok p" "n = u" for p
  proof -
    obtain doc new t where "parseDocument (current_of (stored_progress w u)) = Ok doc" "parseDocument (Data p) = Ok new"
        "answer_recorded a t doc new" "stored_progress w1 = (stored_progress w)(u \<mapsto> Data p)"
      using wired_progress.RecordAnswer_Ok [of lib crypto c u a w p w1] run rok assms by blast
    with d show ?thesis unfolding documented_def by (auto simp: current_of_def intro: records_answer)
  qed
  have "documented u (as @ answer_log ?s u n a w) w1"
    using changed ok documented_cong [OF d, of w1] run
    by (cases r; cases "stored_progress w1 u = stored_progress w u") (auto simp: answer_log_def)
  with run show "documented u (as @ answer_log ?s u n a w) (snd (RecordAnswer ?s n a w))" by simp
qed

lemma lessons_record_nothing:
  assumes "valid_utf8 (TrimSpace l)"
  shows "records u (\<lambda>w. snd (CompleteLesson (wired_progress lib crypto c) n l w)) (\<lambda>_. [])"
  unfolding records_def append_Nil2
proof (intro allI impI)
  fix as w
  assume d: "documented u as w"
  let ?f = "\<lambda>doc. lift (addLesson (TrimSpace l) doc)"
  obtain r w1 where run: "CompleteLesson (wired_progress lib crypto c) n l w = (r, w1)" by fastforce
  have "documented u as w1" if ch: "stored_progress w1 u \<noteq> stored_progress w u"
  proof -
    obtain r' w2 where m: "mutate (wired_progress lib crypto c) n ?f w = (r', w2)" "stored_progress w1 = stored_progress w2"
      using wired_progress.CompleteLesson_run [OF run] ch by auto
    have keep: "stored_progress (snd (?f doc v)) = stored_progress v" for doc and v :: world by simp
    from m ch obtain doc doc' enc where g: "parseDocument (current_of (stored_progress w u)) = Ok doc"
        "addLesson (TrimSpace l) doc = Ok doc'" "marshal doc' = Ok enc" "stored_progress w1 = (stored_progress w)(u \<mapsto> enc)"
      using mutate_document [OF m(1) keep] by (metis fst_conv lift_apply)
    from addLesson_stores [OF g(1-3) assms] obtain new where "parseDocument enc = Ok new"
      "skills new = skills doc" "mastery new = mastery doc" "attempts new = attempts doc" by auto
    then show ?thesis by (rule documented_same [OF d g(1,4)])
  qed
  then have "documented u as w1" using documented_cong [OF d, of w1] by blast
  with run show "documented u as (snd (CompleteLesson (wired_progress lib crypto c) n l w))" by simp
qed

lemma merges_record_nothing: "records u (\<lambda>w. snd (Merge (wired_progress lib crypto c) n p w)) (\<lambda>_. [])"
  unfolding records_def append_Nil2
proof (intro allI impI)
  fix as w
  assume d: "documented u as w"
  obtain r w1 where run: "Merge (wired_progress lib crypto c) n p w = (r, w1)" by fastforce
  have "documented u as w1" if ch: "stored_progress w1 u \<noteq> stored_progress w u"
  proof -
    obtain changes where m: "parsePatch p = Ok changes" "mutate (wired_progress lib crypto c) n (\<lambda>doc. lift (merge_patch doc changes)) w = (r, w1)"
      using wired_progress.Merge_run [OF run] ch by auto
    have keep: "stored_progress (snd (lift (merge_patch doc changes) v)) = stored_progress v" for doc and v :: world by simp
    obtain doc doc' enc where g: "parseDocument (current_of (stored_progress w u)) = Ok doc"
        "merge_patch doc changes = Ok doc'" "marshal doc' = Ok enc" "stored_progress w1 = (stored_progress w)(u \<mapsto> enc)"
      using mutate_document [OF m(2) keep ch] by (metis fst_conv lift_apply)
    have ch: "doc_ok changes" using parsePatch_doc_ok [OF m(1)] by simp
    then have "gomap_ok changes" by (simp add: doc_ok_def)
    note eff = merge_patch_effect [OF g(2) this]
    have "skills doc' = skills doc" "mastery doc' = mastery doc" "attempts doc' = attempts doc"
      using eff(1,4) by (simp_all add: skills_def mastery_def attempts_def protectedFields_def)
    then show ?thesis
      using stored_readers [OF g(1) eff(2) [OF parseDocument_doc_ok [OF g(1)] ch] g(3)] documented_same [OF d g(1,4)] by metis
  qed
  then have "documented u as w1" using documented_cong [OF d, of w1] by blast
  with run show "documented u as (snd (Merge (wired_progress lib crypto c) n p w))" by simp
qed

section \<open>No answer is lost\<close>

text \<open>C7: Answers are not lost: steps of other requests happen between the statements of a request that
  records an answer, each with the log of the answers it records in the world it happens in. When the
  answer is reported as stored, the history of the document is the one it had before, then what the steps
  that happened recorded, in their order and in the worlds in which they happened, with the answer in one
  place among them. Nothing recorded meanwhile is missing and nothing else is there.\<close>

theorem no_answer_is_lost:
  assumes "RecordAnswer (snd (shared_services api)) u a (w, map fst steps, []) = (Ok p, (w1, rest, seen))"
    and "valid_utf8 (Chosen a)" "documented u as w" "\<forall>(f, log) \<in> set steps. records u f log"
  shows "\<exists>n doc. n \<le> length seen \<and> rest = map fst (drop (length seen) steps) \<and>
    parseDocument (current_of (stored_progress w1 u)) = Ok doc \<and>
    records_history (as @ concat (take n (logs steps seen)) @ [a] @ concat (drop n (logs steps seen))) doc"
proof -
  obtain n where "in_history u steps n (\<lambda>ls. as @ concat (take n ls) @ [a] @ concat (drop n ls)) (w1, rest, seen)"
    using shared_record [OF assms(1) [unfolded shared_services_def snd_conv] assms(2-4)] by blast
  then show ?thesis unfolding in_history_def documented_def by blast
qed

section \<open>An answer among others, at the sample site\<close>

text \<open>An answer leaves a document where there is one, and the driver as it is.\<close>

definition calm :: "ID \<Rightarrow> world \<Rightarrow> bool" where
  "calm u w \<longleftrightarrow> faults w = [] \<and> progress_ids_ok (db w) \<and> stored_progress w u \<noteq> None"

lemma keeps_calm: "(\<And>w. calm u w \<Longrightarrow> calm u (snd (f w))) \<Longrightarrow> keeps (calm u) (statement f)"
  by (simp add: keeps_def calm_def calm_statement)

lemma calm_statements:
  "keeps (calm u) (select_progress n)" "keeps (calm u) begin_tx" "keeps (calm u) commit_tx" "keeps (calm u) (queryOne lib p)"
  "keeps (calm u) (update_user i f)" "keeps (calm u) read_clock"
proof -
  show "keeps (calm u) (select_progress n)" "keeps (calm u) begin_tx" "keeps (calm u) commit_tx"
    unfolding select_progress_def begin_tx_def commit_tx_def by (rule keeps_calm; simp)+
  show "keeps (calm u) (queryOne lib p)"
    unfolding queryOne_def by (intro keeps_intros keeps_calm) simp
  show "keeps (calm u) (update_user i f)"
    unfolding update_user_def by (rule keeps_calm) (simp add: calm_def progress_ids_ok_def stored_progress_def progress_of_def)
  show "keeps (calm u) read_clock"
    by (rule keeps_read_clock) (simp add: calm_def stored_progress_def)
qed

lemma calm_put: "keeps (calm u) (upsert_progress n d)"
proof (rule keepsI)
  fix w
  assume w: "calm u w"
  have "stored_progress (on_db (put_progress n d at) w) = (stored_progress w)(n \<mapsto> d)" for at
    by (simp add: stored_progress_def progress_of_put fun_eq_iff)
  with w put_progress_ids [of "db w" n d] show "calm u (snd (upsert_progress n d w))"
    by (auto simp: upsert_progress_def calm_statement calm_def)
qed

interpretation calm_progress: progress_frame "wired_progress lib crypto c" "calm u" for lib crypto c u
proof unfold_locales
  note k = calm_statements calm_put
  have find: "keeps (calm u) (mysql_FindByUserID n)" for n
    unfolding mysql_FindByUserID_def by (intro keeps_intros k)
  then show "keeps (calm u) (FindByUserID (repo (wired_progress lib crypto c)) n)"
    "keeps (calm u) (Upsert (repo (wired_progress lib crypto c)) n d)" for n d
    by (simp_all add: mysql_Upsert_def) (intro keeps_intros k find)
  have tx: "keeps (calm u) (mysql_Mutate n fn)" if "\<And>x. keeps (calm u) (fn x)" for n fn
    unfolding mysql_Mutate_eq tx_body_def
    by (intro keeps_intros keeps_transaction k find that) (auto simp: calm_def stored_progress_def)
  show "(\<And>x. keeps (calm u) (fn x)) \<Longrightarrow> keeps (calm u) (Mutate (repo (wired_progress lib crypto c)) n fn)" for n fn
    by (simp add: tx)
  show "keeps (calm u) (clock (wired_progress lib crypto c))" by (simp add: k)
  have "keeps (calm u) (wired_activity lib crypto c n)" for n
    unfolding wired_activity_def RecordActivity_def
    by (simp add: mysql_users_def mysql_TouchActivity_def mysql_FindByID_def) (intro keeps_intros k)
  then show "activity (wired_progress lib crypto c) = Some rec \<Longrightarrow> keeps (calm u) (rec n)" for rec n by auto
qed

definition sample_code :: EmailVerification where
  "sample_code = \<lparr>V_UserID = 1, CodeHash = ''#123456'', Attempts = 0, V_ExpiresAt = of_seconds 1700000900, V_ConsumedAt = None\<rparr>"

text \<open>Another request stores a confirmation code, twice, and a third one answers right after the transaction.\<close>

definition other_steps :: "logged list" where
  "other_steps =
     [(\<lambda>w. snd (mysql_PutVerification sample_code w), \<lambda>_. []), (\<lambda>w. snd (mysql_PutVerification sample_code w), \<lambda>_. []),
      (\<lambda>w. snd (RecordAnswer sample_progress 1 sample_answer w), answer_log sample_progress 1 1 sample_answer)]"

lemma other_steps_record: "\<forall>(f, log) \<in> set other_steps. records 1 f log"
proof -
  have "records 1 (\<lambda>w. snd (mysql_PutVerification sample_code w)) (\<lambda>_. [])"
    by (rule untouched_records)
      (simp add: mysql_PutVerification_def statement_def stored_progress_def progress_of_def Let_def snd_onErr split: list.split)
  moreover have "valid_utf8 (Chosen sample_answer)" by code_simp
  then have "records 1 (\<lambda>w. snd (RecordAnswer sample_progress 1 sample_answer w)) (answer_log sample_progress 1 1 sample_answer)"
    by (rule answers_recorded)
  ultimately show ?thesis by (simp add: other_steps_def)
qed

lemma activity_alone:
  "alone (recordActivity (shared_progress lib crypto c) n) = recordActivity (wired_progress lib crypto c) n"
  "settles (recordActivity (shared_progress lib crypto c) n)"
  by (simp_all add: recordActivity_def shared_progress_def wired_progress_def shared_activity_def wired_activity_def RecordActivity_def
      shared_auth_def shared_users_def then_find_def mysql_TouchActivity_def)

lemma returns_disturbed: "returns m \<Longrightarrow> returns (disturbed m)"
proof (rule returnsI)
  fix p
  assume m: "returns m"
  show "no_panic (fst (disturbed m p))"
    using m by (cases p; cases "fst (snd p)") (auto simp: returns_def disturbed_quiet disturbed_step)
qed

text \<open>Recording the activity never fails the answer.\<close>

lemma activity_Ok: "fst (recordActivity (shared_progress lib crypto c) n p) = Ok ()"
proof -
  have "returns (shared_activity lib crypto c n)"
    unfolding shared_activity_def RecordActivity_def
    by (simp add: shared_auth_def shared_users_def then_find_def)
      (intro returns_intros returns_disturbed; simp)
  then have "no_panic (fst (shared_activity lib crypto c n p))" unfolding returns_def by blast
  then show ?thesis
    by (cases "shared_activity lib crypto c n p"; cases "fst (shared_activity lib crypto c n p)")
      (simp_all add: recordActivity_def shared_progress_def handling_def)
qed

lemma sample_shared_run:
  "\<exists>p w1 seen. RecordAnswer (shared_progress sample_lib sample_crypto sample_config) 1 sample_answer
      (sample_site, map fst other_steps, []) = (Ok p, (w1, [], seen)) \<and> length seen = 3"
proof -
  let ?f = "\<lambda>w. snd (mysql_PutVerification sample_code w)" and ?g = "\<lambda>w. snd (RecordAnswer sample_progress 1 sample_answer w)"
    and ?s = "shared_progress sample_lib sample_crypto sample_config"
  have put: "quiet (?f w) \<and> progress (db (?f w)) = progress (db w) \<and> next_progress_id (db (?f w)) = next_progress_id (db w)"
    if "quiet w" for w
    using that by (auto simp: mysql_PutVerification_def statement_def Let_def quiet_def snd_onErr split: list.split)
  note s1 = put [OF quiet_site] and s2 = put [OF conjunct1 [OF put [OF quiet_site]]]
  obtain d where tx: "transaction (tx_body 1 (mutation (gradeAnswer read_clock sample_answer))) (?f (?f sample_site)) =
      (Ok (), with_document d (?f (?f sample_site)))"
    using sample_transaction [of "?f (?f sample_site)"] s1 s2 site_free by auto
  let ?w = "with_document d (?f (?f sample_site))"
  have "calm 1 ?w" using s2
    by (simp add: calm_def quiet_def with_document_def progress_ids_ok_def stored_progress_def progress_of_def row_with_def)
  from calm_progress.keeps_RecordAnswer [THEN keepsD, OF this] have g: "calm 1 (?g ?w)" .
  then obtain e where "stored_progress (?g ?w) 1 = Some e" by (auto simp: calm_def)
  with calm_find_progress [of "?g ?w" 1 e] g obtain p where find: "mysql_FindByUserID 1 (?g ?w) = (Ok p, ?g ?w)"
    by (auto simp: calm_def)
  let ?seen = "[sample_site, ?f sample_site, ?w]"
  have m: "mutate ?s 1 (gradeAnswer (disturbed read_clock) sample_answer) (sample_site, map fst other_steps, []) = (Ok p, (?g ?w, [], ?seen))"
    by (simp add: mutate_def shared_progress_def shared_repository_def andThen_def onErr_def disturbed_step other_steps_def
        quiet_begin [OF conjunct1 [OF s1]] alone_mutation tx find)
  obtain r v q where run: "recordActivity ?s 1 (?g ?w, [], ?seen) = (r, (v, q))" by (metis prod.exhaust)
  then have q: "q = ([], ?seen)" using activity_alone(2) unfolding settles_def by (metis snd_conv)
  have "r = Ok ()" using activity_Ok [of sample_lib sample_crypto sample_config 1 "(?g ?w, [], ?seen)"] by (simp add: run)
  with run q m sample_answer_valid show ?thesis
    by (simp add: RecordAnswer_def NewID_def andThen_def shared_progress_def)
qed

theorem no_answer_is_lost_witness:
  "\<exists>p w1 seen n doc. RecordAnswer (snd (shared_services sample_api)) 1 sample_answer (sample_site, map fst other_steps, []) =
      (Ok p, (w1, [], seen)) \<and> length seen = 3 \<and> parseDocument (current_of (stored_progress w1 1)) = Ok doc \<and>
    records_history (concat (take n (logs other_steps seen)) @ [sample_answer] @ concat (drop n (logs other_steps seen))) doc"
proof -
  obtain p w1 seen where run: "RecordAnswer (snd (shared_services sample_api)) 1 sample_answer
      (sample_site, map fst other_steps, []) = (Ok p, (w1, [], seen))" "length seen = 3"
    using sample_shared_run by (auto simp: shared_services_def sample_api_def)
  have "documented 1 [] sample_site"
    by (rule no_document) (simp add: stored_progress_def progress_of_def row_with_def site_free)
  moreover have "valid_utf8 (Chosen sample_answer)" by code_simp
  ultimately obtain n doc where "parseDocument (current_of (stored_progress w1 1)) = Ok doc"
      "records_history ([] @ concat (take n (logs other_steps seen)) @ [sample_answer] @ concat (drop n (logs other_steps seen))) doc"
    using no_answer_is_lost [OF run(1)] other_steps_record by blast
  with run show ?thesis by auto
qed

end
