(* ===== verification/Boot.thy ===== *)
theory Boot
  imports Api
begin

text \<open>
  The life of the process: the pool and its connection retries
  (\<^verbatim>\<open>internal/platform/database/database.go\<close>), the migrations (\<^verbatim>\<open>migrate.go\<close>,
  \<^verbatim>\<open>cmd/migrate/main.go\<close>), the logger settings (\<^verbatim>\<open>internal/platform/logger/logger.go\<close>), the server
  and its health check (\<^verbatim>\<open>internal/platform/server\<close>) and the start of the API (\<^verbatim>\<open>cmd/api/main.go\<close>).
  The driver, goose and the listener are the environment: a \<open>boot\<close> world says how their next calls
  end, and records what the process did.
\<close>

section \<open>The environment\<close>

text \<open>The options of the driver (\<open>mysql.Config\<close>) and the limits of the pool that the code sets.\<close>

record mysql_config =
  Net :: string
  Addr :: string
  User :: string
  Passwd :: string
  DBName :: string
  ParseTime :: bool
  Loc :: string
  InterpolateParams :: bool
  Timeout :: int
  ReadTimeout :: int
  WriteTimeout :: int
  Params :: "(string \<times> string) list"

record pool_limits =
  MaxOpenConns :: int
  MaxIdleConns :: int
  ConnMaxLifetime :: int
  ConnMaxIdleTime :: int

datatype boot_event =
    Opened mysql_config pool_limits | Pinged bool | Slept int | Closed | Goose string
  | Registered string | Listening string | Draining int | Drained

text \<open>Missing entries are calls that succeed, and a context that is not cancelled. \<open>listener\<close> is how
  listening ends: \<^term>\<open>None\<close> when the signal to stop comes first.\<close>

record boot =
  open_faults :: "bool list"
  ping_faults :: "bool list"
  cancels :: "bool list"
  goose_faults :: "bool list"
  register_faults :: "bool list"
  drain_faults :: "bool list"
  listener :: "goerr option option"
  events :: "boot_event list"

definition event :: "boot_event \<Rightarrow> boot \<Rightarrow> boot" where
  "event ev b = b\<lparr>events := events b @ [ev]\<rparr>"

definition call_fault :: "(boot \<Rightarrow> bool list) \<Rightarrow> boot \<Rightarrow> bool" where
  "call_fault fs b \<longleftrightarrow> fs b \<noteq> [] \<and> hd (fs b)"

definition sql_Open :: "mysql_config \<Rightarrow> pool_limits \<Rightarrow> (boot, unit) proc" where
  "sql_Open dsn limits b =
     (if call_fault open_faults b then (Err (LibError ''sql.Open''), b\<lparr>open_faults := tl (open_faults b)\<rparr>)
      else (Ok (), event (Opened dsn limits) (b\<lparr>open_faults := tl (open_faults b)\<rparr>)))"

definition PingContext :: "(boot, unit) proc" where
  "PingContext b =
     (if call_fault ping_faults b then Err (LibError ''ping'') else Ok (),
      event (Pinged (\<not> call_fault ping_faults b)) (b\<lparr>ping_faults := tl (ping_faults b)\<rparr>))"

text \<open>\<open>select\<close> between the cancelled context and the timer: whether the context was cancelled.\<close>

definition wait_or_done :: "int \<Rightarrow> (boot, bool) proc" where
  "wait_or_done d b =
     (if call_fault cancels b then (Ok True, b\<lparr>cancels := tl (cancels b)\<rparr>)
      else (Ok False, event (Slept d) (b\<lparr>cancels := tl (cancels b)\<rparr>)))"

definition close_pool :: "(boot, unit) proc" where
  "close_pool b = (Ok (), event Closed b)"

section \<open>The pool\<close>

text \<open>\<open>net.JoinHostPort\<close> puts an address with a colon in brackets.\<close>

definition JoinHostPort :: "string \<Rightarrow> string \<Rightarrow> string" where
  "JoinHostPort host port = (if CHR '':'' \<in> set host then ''['' @ host @ '']:'' @ port else host @ '':'' @ port)"

text \<open>The options \<open>DSN\<close> formats; the formatting is the driver's.\<close>

definition DSN :: "DatabaseConfig \<Rightarrow> mysql_config" where
  "DSN cfg =
     \<lparr>Net = ''tcp'', Addr = JoinHostPort (db_Host cfg) (Itoa (db_Port cfg)), User = db_User cfg, Passwd = db_Password cfg,
      DBName = db_Name cfg, ParseTime = True, Loc = ''UTC'', InterpolateParams = True, Timeout = db_DialTimeout cfg,
      ReadTimeout = db_ReadTimeout cfg, WriteTimeout = db_WriteTimeout cfg, Params = [(''charset'', ''utf8mb4'')]\<rparr>"

definition Tune :: "DatabaseConfig \<Rightarrow> pool_limits" where
  "Tune cfg =
     \<lparr>MaxOpenConns = db_MaxOpenConns cfg, MaxIdleConns = db_MaxIdleConns cfg,
      ConnMaxLifetime = db_ConnMaxLifetime cfg, ConnMaxIdleTime = db_ConnMaxIdleTime cfg\<rparr>"

definition Open :: "DatabaseConfig \<Rightarrow> (boot, unit) proc" where
  "Open cfg = onErr (\<lambda>err. Errorf ''open mysql connection'' [err]) (sql_Open (DSN cfg) (Tune cfg))"

definition connect_attempts :: "DatabaseConfig \<Rightarrow> int" where
  "connect_attempts cfg = (if db_ConnectRetries cfg < 1 then 1 else db_ConnectRetries cfg)"

text \<open>The loop of \<open>Connect\<close>: \<open>left\<close> attempts to go.\<close>

fun connect_loop :: "DatabaseConfig \<Rightarrow> nat \<Rightarrow> goerr list \<Rightarrow> (boot, unit) proc" where
  "connect_loop cfg 0 lastErr =
     andThen close_pool (\<lambda>_.
       fail (Errorf (''connect to database after '' @ Itoa (connect_attempts cfg) @ '' attempts'') lastErr))"
| "connect_loop cfg (Suc left) lastErr =
     handling PingContext (\<lambda>r.
       case r of
         Inr _ \<Rightarrow> ret ()
       | Inl err \<Rightarrow>
           andThen (wait_or_done (db_ConnectBackoff cfg)) (\<lambda>done.
             if done then andThen close_pool (\<lambda>_. fail (Errorf ''connect to database'' [LibError ''context canceled'']))
             else connect_loop cfg left [err]))"

definition Connect :: "DatabaseConfig \<Rightarrow> (boot, unit) proc" where
  "Connect cfg = andThen (Open cfg) (\<lambda>_. connect_loop cfg (nat (connect_attempts cfg)) [])"

definition Health :: "(boot, unit) proc" where
  "Health = onErr (\<lambda>err. Errorf ''ping database'' [err]) PingContext"

section \<open>Migrations\<close>

definition goose_call :: "string \<Rightarrow> (boot, unit) proc" where
  "goose_call name b =
     (if call_fault goose_faults b then (Err (LibError ''goose''), b\<lparr>goose_faults := tl (goose_faults b)\<rparr>)
      else (Ok (), event (Goose name) (b\<lparr>goose_faults := tl (goose_faults b)\<rparr>)))"

text \<open>The settings of goose that cannot fail.\<close>

definition goose_set :: "string \<Rightarrow> (boot, unit) proc" where
  "goose_set name b = (Ok (), event (Goose name) b)"

definition SetDialect :: "(boot, unit) proc" where
  "SetDialect = onErr (\<lambda>err. Errorf ''set goose dialect'' [err]) (goose_call ''dialect'')"

definition prepare :: "(boot, unit) proc" where
  "prepare = andThen (goose_set ''filesystem'') (\<lambda>_. andThen (goose_set ''logger'') (\<lambda>_. SetDialect))"

definition Migrate :: "(boot, unit) proc" where
  "Migrate =
     andThen prepare (\<lambda>_.
     andThen (onErr (\<lambda>err. Errorf ''read migration version'' [err]) (goose_call ''version'')) (\<lambda>_.
     andThen (onErr (\<lambda>err. Errorf ''apply migrations'' [err]) (goose_call ''up'')) (\<lambda>_.
       onErr (\<lambda>err. Errorf ''read migration version'' [err]) (goose_call ''version''))))"

definition MigrateDown :: "(boot, unit) proc" where
  "MigrateDown =
     andThen prepare (\<lambda>_.
     andThen (onErr (\<lambda>err. Errorf ''roll back migration'' [err]) (goose_call ''down'')) (\<lambda>_.
       onErr (\<lambda>err. Errorf ''read migration version'' [err]) (goose_call ''version'')))"

definition MigrationVersion :: "(boot, unit) proc" where
  "MigrationVersion =
     andThen SetDialect (\<lambda>_. onErr (\<lambda>err. Errorf ''read migration version'' [err]) (goose_call ''version''))"

text \<open>The output of goose loses its line ends; a fatal message panics.\<close>

definition trimNewline :: "string \<Rightarrow> string" where
  "trimNewline s = rev (dropWhile (\<lambda>c. c = LF \<or> c = CR) (rev s))"

definition gooseLogger_Fatalf :: "string \<Rightarrow> (boot, unit) proc" where
  "gooseLogger_Fatalf message = lift (Panic (''goose: '' @ trimNewline message))"

text \<open>A deferred \<open>Close\<close> runs however the body ends.\<close>

definition deferring_close :: "(boot, 'a) proc \<Rightarrow> (boot, 'a) proc" where
  "deferring_close body b = (case body b of (r, b1) \<Rightarrow> (r, snd (close_pool b1)))"

definition migrate_run :: "environment \<Rightarrow> string list \<Rightarrow> (boot, unit) proc" where
  "migrate_run e args =
     (if length args < 2 then fail (Errorf ''usage: migrate <up|down|version>'' [])
      else andThen (lift (Load e)) (\<lambda>cfg.
           andThen (Connect (cfg_Database cfg)) (\<lambda>_.
           deferring_close
             (let command = args ! 1 in
              if command = ''up'' then Migrate
              else if command = ''down'' then MigrateDown
              else if command = ''version'' then MigrationVersion
              else fail (Errorf ''unknown command: use up, down or version'' [])))))"

section \<open>Logging\<close>

text \<open>What \<open>slog\<close> is given: the handler, its level and the attributes of every line. Ignoring case,
  only ASCII letters match those of \<open>text\<close>.\<close>

datatype log_handler = TextHandler | JSONHandler

definition parseLevel :: "(string \<Rightarrow> string) \<Rightarrow> string \<Rightarrow> log_level" where
  "parseLevel to_lower raw =
     (let level = to_lower (TrimSpace raw) in
      if level = ''debug'' then LevelDebug
      else if level = ''warn'' \<or> level = ''warning'' then LevelWarn
      else if level = ''error'' then LevelError
      else LevelInfo)"

definition lower_ascii :: "string \<Rightarrow> string" where
  "lower_ascii s = map (\<lambda>c. if 0x41 \<le> byte c \<and> byte c \<le> 0x5A then char_of (byte c + 0x20) else c) s"

definition logger_New :: "(string \<Rightarrow> string) \<Rightarrow> LogConfig \<Rightarrow> AppConfig \<Rightarrow> log_handler \<times> log_level \<times> (string \<times> string) list" where
  "logger_New to_lower cfg app =
     (if lower_ascii (log_Format cfg) = ''text'' then TextHandler else JSONHandler,
      parseLevel to_lower (log_Level cfg),
      [(''service'', app_Name app), (''env'', app_Env app)])"

section \<open>The server\<close>

text \<open>The settings of the Fiber application, and its global middleware from the outside in.\<close>

record fiber_config =
  AppName :: string
  fiber_ReadTimeout :: int
  fiber_WriteTimeout :: int
  fiber_IdleTimeout :: int
  fiber_BodyLimit :: int
  fiber_Concurrency :: int
  DisableStartupMessage :: bool
  ReduceMemoryUsage :: bool
  EnableTrustedProxyCheck :: bool
  TrustedProxies :: "string list"
  ProxyHeader :: string

datatype middleware = UseRequestID | UseRequestLogger "string list" | UseRecover | UseCORS CORSConfig

definition HealthPath :: string where "HealthPath = ''/health''"

definition proxyHeader :: "string list \<Rightarrow> string" where
  "proxyHeader trustedProxies = (if trustedProxies = [] then [] else ''X-Forwarded-For'')"

definition server_New :: "Config \<Rightarrow> fiber_config \<times> middleware list" where
  "server_New cfg =
     (let h = cfg_HTTP cfg in
      (\<lparr>AppName = app_Name (cfg_App cfg), fiber_ReadTimeout = http_ReadTimeout h, fiber_WriteTimeout = http_WriteTimeout h,
        fiber_IdleTimeout = http_IdleTimeout h, fiber_BodyLimit = http_BodyLimit h, fiber_Concurrency = http_Concurrency h,
        DisableStartupMessage = True, ReduceMemoryUsage = True,
        EnableTrustedProxyCheck = (http_TrustedProxies h \<noteq> []), TrustedProxies = http_TrustedProxies h,
        ProxyHeader = proxyHeader (http_TrustedProxies h)\<rparr>,
       [UseRequestID, UseRequestLogger [HealthPath], UseRecover, UseCORS (cfg_CORS cfg)]))"

text \<open>\<open>Duration.String\<close> of a whole number of seconds.\<close>

definition seconds_text :: "nat \<Rightarrow> string" where
  "seconds_text s =
     (let h = s div 3600; m = s div 60 mod 60; r = nat_digits (s mod 60) @ ''s'' in
      if h > 0 then nat_digits h @ ''h'' @ nat_digits m @ ''m'' @ r
      else if s \<ge> 60 then nat_digits m @ ''m'' @ r else r)"

definition enc_healthResponse :: "string \<Rightarrow> string \<Rightarrow> nat \<Rightarrow> json" where
  "enc_healthResponse status database uptime =
     json_object [(''status'', Some (enc_string status)), (''database'', Some (enc_string database)),
                  (''uptime'', Some (enc_string (seconds_text uptime)))]"

text \<open>\<open>GET /health\<close>, \<open>uptime\<close> whole seconds after the start.\<close>

definition handle_Health :: "nat \<Rightarrow> (boot, response) proc" where
  "handle_Health uptime =
     handling Health (\<lambda>r. case r of
         Inl err \<Rightarrow> lift (send_JSON 503 (Some (enc_healthResponse ''degraded'' ''down'' uptime)))
       | Inr _ \<Rightarrow> lift (OK (Some (enc_healthResponse ''ok'' ''up'' uptime))))"

definition Start :: "HTTPConfig \<Rightarrow> (boot, unit) proc" where
  "Start cfg b =
     (case listener b of
        Some (Some err) \<Rightarrow> (Err (Errorf (''listen on '' @ HTTP_Address cfg) [err]), event (Listening (HTTP_Address cfg)) b)
      | _ \<Rightarrow> (Ok (), event (Listening (HTTP_Address cfg)) b))"

definition Shutdown :: "HTTPConfig \<Rightarrow> (boot, unit) proc" where
  "Shutdown cfg b =
     (let b1 = event (Draining (http_ShutdownTimeout cfg)) (b\<lparr>drain_faults := tl (drain_faults b)\<rparr>) in
      if call_fault drain_faults b then (Err (Errorf ''shutdown http server'' [LibError ''shutdown'']), b1)
      else (Ok (), event Drained b1))"

text \<open>Listening goes on in its own goroutine: what ends first, it or the context, decides.\<close>

definition server_Run :: "HTTPConfig \<Rightarrow> (boot, unit) proc" where
  "server_Run cfg b =
     (if listener b = None then andThen (Start cfg) (\<lambda>_. Shutdown cfg) b
      else handling (Start cfg) (\<lambda>r. case r of
          Inl err \<Rightarrow> if errors_Is err HttpErrServerClosed then ret () else fail err
        | Inr _ \<Rightarrow> ret ()) b)"

section \<open>The process\<close>

definition RegisterValidation :: "string \<Rightarrow> (boot, unit) proc" where
  "RegisterValidation tag b =
     (if call_fault register_faults b then (Err (LibError ''validator''), b\<lparr>register_faults := tl (register_faults b)\<rparr>)
      else (Ok (), event (Registered tag) (b\<lparr>register_faults := tl (register_faults b)\<rparr>)))"

definition validator_New :: "(boot, unit) proc" where
  "validator_New =
     andThen (onErr (\<lambda>err. Errorf ''register password rule'' [err]) (RegisterValidation ''password'')) (\<lambda>_.
     andThen (onErr (\<lambda>err. Errorf ''register notblank rule'' [err]) (RegisterValidation ''notblank'')) (\<lambda>_.
       onErr (\<lambda>err. Errorf ''register maxbytes rule'' [err]) (RegisterValidation ''maxbytes'')))"

text \<open>\<open>run\<close> of \<^verbatim>\<open>cmd/api/main.go\<close>; the services it wires are those of \<open>Composition\<close> and \<open>Api\<close>.\<close>

definition api_run :: "environment \<Rightarrow> (boot, unit) proc" where
  "api_run e =
     andThen (lift (Load e)) (\<lambda>cfg.
     andThen (Connect (cfg_Database cfg)) (\<lambda>_.
     deferring_close
       (andThen (if db_AutoMigrate (cfg_Database cfg) then Migrate else ret ()) (\<lambda>_.
        andThen (onErr (\<lambda>err. Errorf ''build validator'' [err]) validator_New) (\<lambda>_.
          server_Run (cfg_HTTP cfg))))))"

text \<open>The exit code of either command; a panic exits with 2.\<close>

fun exit_code :: "unit result \<Rightarrow> int" where
  "exit_code (Ok _) = 0"
| "exit_code (Err _) = 1"
| "exit_code (Panic _) = 2"

end
