(* ===== verification/BootOrder.thy ===== *)
theory BootOrder
  imports Boot
begin

text \<open>
  The order of what the process does: lemmas on the events that each step of \<open>Boot\<close> emits, and the
  properties of the connection retries, of the pool and of the start of the server.
\<close>

section \<open>What a step emits\<close>

definition emits :: "boot_event set \<Rightarrow> (boot, 'a) proc \<Rightarrow> bool" where
  "emits S m \<longleftrightarrow> (\<forall>b. \<exists>evs. events (snd (m b)) = events b @ evs \<and> set evs \<subseteq> S)"

named_theorems emits_intros \<open>what a step emits\<close>

lemma events_event [simp]: "events (event ev b) = events b @ [ev]"
  by (simp add: event_def)

lemma event_sel [simp]:
  "ping_faults (event ev b) = ping_faults b" "cancels (event ev b) = cancels b"
  "goose_faults (event ev b) = goose_faults b" "listener (event ev b) = listener b"
  by (simp_all add: event_def)

lemma emitsE:
  assumes "emits S m" "m b = (r, b1)"
  obtains evs where "events b1 = events b @ evs" "set evs \<subseteq> S"
  using assms unfolding emits_def by (metis snd_conv)

lemma emits_lift [emits_intros]: "emits S (lift r)"
  by (simp add: emits_def)

lemma emits_append:
  assumes "emits S m" "emits S n" "m b = (r, b1)" "n b1 = (q, b2)"
  shows "\<exists>evs. events b2 = events b @ evs \<and> set evs \<subseteq> S"
proof -
  obtain xs where x: "events b1 = events b @ xs" "set xs \<subseteq> S" using emitsE [OF assms(1,3)] by blast
  obtain ys where y: "events b2 = events b1 @ ys" "set ys \<subseteq> S" using emitsE [OF assms(2,4)] by blast
  from x y show ?thesis by (intro exI [of _ "xs @ ys"]) simp
qed

lemma emits_andThen [emits_intros]:
  assumes "emits S m" "\<And>x. emits S (k x)"
  shows "emits S (andThen m k)"
  unfolding emits_def
proof
  fix b
  obtain r b1 where m: "m b = (r, b1)" by fastforce
  show "\<exists>evs. events (snd (andThen m k b)) = events b @ evs \<and> set evs \<subseteq> S"
  proof (cases r)
    case (Ok x)
    obtain q b2 where k: "k x b1 = (q, b2)" by fastforce
    from emits_append [OF assms(1) assms(2) m k] show ?thesis using m k Ok by (simp add: andThen_cases)
  qed (use m emitsE [OF assms(1) m] in \<open>auto simp: andThen_cases\<close>)
qed

lemma emits_handling [emits_intros]:
  assumes "emits S m" "\<And>x. emits S (k x)"
  shows "emits S (handling m k)"
  unfolding emits_def
proof
  fix b
  obtain r b1 where m: "m b = (r, b1)" by fastforce
  define y where "y = (case r of Ok x \<Rightarrow> Inr x | Err e \<Rightarrow> Inl e | Panic p \<Rightarrow> undefined)"
  obtain q b2 where k: "k y b1 = (q, b2)" by fastforce
  show "\<exists>evs. events (snd (handling m k b)) = events b @ evs \<and> set evs \<subseteq> S"
  proof (cases r)
    case (Panic p)
    then show ?thesis using m emitsE [OF assms(1) m] by (auto simp: handling_cases)
  qed (use m k emits_append [OF assms(1) assms(2) m k] in \<open>auto simp: handling_cases y_def\<close>)
qed

lemma emits_onErr [emits_intros]: "emits S m \<Longrightarrow> emits S (onErr f m)"
  by (simp add: emits_def)

lemma emits_If [emits_intros]: "emits S m \<Longrightarrow> emits S n \<Longrightarrow> emits S (if c then m else n)"
  by simp

lemma emits_case_sum [emits_intros]:
  "(\<And>x. emits S (m x)) \<Longrightarrow> (\<And>x. emits S (n x)) \<Longrightarrow> emits S (case c of Inl x \<Rightarrow> m x | Inr x \<Rightarrow> n x)"
  by (cases c) auto

lemma emits_calls [emits_intros]:
  "Goose name \<in> S \<Longrightarrow> emits S (goose_call name)"
  "Goose name \<in> S \<Longrightarrow> emits S (goose_set name)" "Registered name \<in> S \<Longrightarrow> emits S (RegisterValidation name)"
  by (simp_all add: emits_def goose_call_def goose_set_def RegisterValidation_def)

section \<open>The steps between opening and closing the pool\<close>

definition migration_events :: "boot_event set" where
  "migration_events = range Goose"

definition serving_events :: "HTTPConfig \<Rightarrow> boot_event set" where
  "serving_events cfg = {Draining (http_ShutdownTimeout cfg), Drained}"

lemma emits_Migrate: "emits migration_events Migrate"
  unfolding Migrate_def prepare_def SetDialect_def by (intro emits_intros) (simp_all add: migration_events_def)

lemma Migrate_events:
  "Migrate b = (Ok (), b1) \<Longrightarrow> events b1 = events b @ map Goose [''filesystem'', ''logger'', ''dialect'', ''version'', ''up'', ''version'']"
  by (auto simp: Migrate_def prepare_def SetDialect_def goose_set_def andThen_Ok_iff goose_call_def split: if_splits)

lemma emits_validator_New: "emits (range Registered) validator_New"
  unfolding validator_New_def by (intro emits_intros) simp_all

lemma server_Run_events:
  "\<exists>evs. events (snd (server_Run cfg b)) = events b @ Listening (HTTP_Address cfg) # evs \<and> set evs \<subseteq> serving_events cfg"
  by (auto simp: server_Run_def Start_def Shutdown_def Let_def andThen_def handling_def serving_events_def split: option.splits)

definition pings :: "boot_event list \<Rightarrow> nat" where
  "pings evs = length (filter (\<lambda>ev. ev \<in> range Pinged) evs)"

lemma pings_simps [simp]:
  "pings [] = 0" "pings (Pinged a # evs) = Suc (pings evs)" "pings (Slept d # evs) = pings evs"
  "pings (Opened c l # evs) = pings evs" "pings (Closed # evs) = pings evs" "pings (xs @ ys) = pings xs + pings ys"
  by (auto simp: pings_def)

lemma connect_loop_events:
  assumes "connect_loop cfg n errs b = (r, b1)"
  shows "\<exists>evs. set evs \<subseteq> range Pinged \<union> range Slept \<and> pings evs + (if is_Ok r then 1 else 0) \<le> n \<and>
    (if is_Ok r then events b1 = events b @ evs @ [Pinged True] else events b1 = events b @ evs @ [Closed])"
  using assms
proof (induction n arbitrary: errs b)
  case 0
  then show ?case by (auto simp: close_pool_def andThen_def)
next
  case (Suc n)
  let ?b1 = "event (Pinged (\<not> call_fault ping_faults b)) (b\<lparr>ping_faults := tl (ping_faults b)\<rparr>)"
  show ?case
  proof (cases "call_fault ping_faults b")
    case False
    then show ?thesis using Suc.prems by (auto simp: PingContext_def handling_def)
  next
    case fault: True
    show ?thesis
    proof (cases "call_fault cancels ?b1")
      case True
      then show ?thesis using Suc.prems fault
        by (intro exI [of _ "[Pinged False]"]) (auto simp: PingContext_def handling_def andThen_def wait_or_done_def close_pool_def)
    next
      case False
      let ?b2 = "event (Slept (db_ConnectBackoff cfg)) (?b1\<lparr>cancels := tl (cancels ?b1)\<rparr>)"
      have "connect_loop cfg n [LibError ''ping''] ?b2 = (r, b1)"
        using Suc.prems fault False by (simp add: PingContext_def handling_def andThen_def wait_or_done_def)
      from Suc.IH [OF this] obtain evs where "set evs \<subseteq> range Pinged \<union> range Slept" "pings evs + (if is_Ok r then 1 else 0) \<le> n"
        "if is_Ok r then events b1 = events ?b2 @ evs @ [Pinged True] else events b1 = events ?b2 @ evs @ [Closed]" by blast
      then show ?thesis using fault
        by (intro exI [of _ "Pinged False # Slept (db_ConnectBackoff cfg) # evs"]) (auto split: if_splits)
    qed
  qed
qed

section \<open>The retries\<close>

text \<open>Whether the \<open>k\<close>-th next call fails, or finds the context cancelled.\<close>

definition nth_fault :: "bool list \<Rightarrow> nat \<Rightarrow> bool" where
  "nth_fault fs k \<longleftrightarrow> k < length fs \<and> fs ! k"

lemma nth_fault_tl [simp]: "nth_fault (tl fs) k = nth_fault fs (Suc k)"
  by (cases fs) (simp_all add: nth_fault_def)

lemma nth_fault_0 [simp]: "nth_fault fs 0 \<longleftrightarrow> fs \<noteq> [] \<and> hd fs"
  by (cases fs) (simp_all add: nth_fault_def)

text \<open>The attempt that connects: the first ping that is answered, with no cancellation before it.\<close>

definition connects_at :: "boot \<Rightarrow> nat \<Rightarrow> bool" where
  "connects_at b k \<longleftrightarrow>
     \<not> nth_fault (ping_faults b) k \<and> (\<forall>j<k. nth_fault (ping_faults b) j \<and> \<not> nth_fault (cancels b) j)"

lemma all_less_Suc_shift: "(\<forall>j<Suc k. P j) \<longleftrightarrow> P 0 \<and> (\<forall>j<k. P (Suc j))"
  using less_Suc_eq_0_disj by auto

lemma ex_less_Suc_shift: "(\<exists>j<Suc k. P j) \<longleftrightarrow> P 0 \<or> (\<exists>j<k. P (Suc j))"
  using less_Suc_eq_0_disj by auto

lemma connect_loop_iff:
  "is_Ok (fst (connect_loop cfg n errs b)) \<longleftrightarrow> (\<exists>k<n. connects_at b k)"
proof (induction n arbitrary: errs b)
  case 0
  then show ?case by (simp add: close_pool_def andThen_def)
next
  case (Suc n)
  let ?b1 = "event (Pinged (\<not> call_fault ping_faults b)) (b\<lparr>ping_faults := tl (ping_faults b)\<rparr>)"
  let ?b2 = "event (Slept (db_ConnectBackoff cfg)) (?b1\<lparr>cancels := tl (cancels ?b1)\<rparr>)"
  have c: "call_fault cancels ?b1 \<longleftrightarrow> nth_fault (cancels b) 0" by (simp add: call_fault_def)
  have p: "call_fault ping_faults b \<longleftrightarrow> nth_fault (ping_faults b) 0" by (simp add: call_fault_def)
  have later: "connects_at ?b2 k \<longleftrightarrow>
      \<not> nth_fault (ping_faults b) (Suc k) \<and> (\<forall>j<k. nth_fault (ping_faults b) (Suc j) \<and> \<not> nth_fault (cancels b) (Suc j))" for k
    by (simp add: connects_at_def)
  have shift: "connects_at b (Suc k) \<longleftrightarrow> nth_fault (ping_faults b) 0 \<and> \<not> nth_fault (cancels b) 0 \<and> connects_at ?b2 k" for k
    by (simp only: later) (simp only: connects_at_def all_less_Suc_shift conj_ac)
  have zero: "connects_at b 0 \<longleftrightarrow> \<not> nth_fault (ping_faults b) 0" by (simp add: connects_at_def)
  show ?case
  proof (cases "call_fault ping_faults b")
    case False
    then have "is_Ok (fst (connect_loop cfg (Suc n) errs b))" by (simp add: PingContext_def handling_def)
    with False p zero show ?thesis by blast
  next
    case True
    then have run: "connect_loop cfg (Suc n) errs b =
        andThen (wait_or_done (db_ConnectBackoff cfg)) (\<lambda>done.
          if done then andThen close_pool (\<lambda>_. fail (Errorf ''connect to database'' [LibError ''context canceled'']))
          else connect_loop cfg n [LibError ''ping'']) ?b1"
      by (simp add: PingContext_def handling_def)
    have "is_Ok (fst (connect_loop cfg (Suc n) errs b)) \<longleftrightarrow>
        \<not> nth_fault (cancels b) 0 \<and> is_Ok (fst (connect_loop cfg n [LibError ''ping''] ?b2))"
      unfolding run c [symmetric] by (simp add: andThen_def wait_or_done_def close_pool_def)
    with Suc.IH [of "[LibError ''ping'']" ?b2] True p show ?thesis
      unfolding ex_less_Suc_shift shift zero by blast
  qed
qed

text \<open>C38: Connecting ends after at most the configured number of attempts, and at least one: it succeeds
  exactly when the pool opens and one of these pings is answered, with every earlier one failed and
  the context not cancelled in the waits between them; when it fails after opening, the pool is
  closed again.\<close>

theorem connect_retries:
  "case Connect cfg b of (r, b1) \<Rightarrow>
     (is_Ok r \<longleftrightarrow> \<not> call_fault open_faults b \<and> (\<exists>k < nat (max 1 (db_ConnectRetries cfg)). connects_at b k)) \<and>
     (\<exists>evs. events b1 = events b @ evs \<and>
        pings evs \<le> nat (max 1 (db_ConnectRetries cfg)) \<and>
        (Closed \<in> set evs \<longleftrightarrow> \<not> is_Ok r \<and> \<not> call_fault open_faults b))"
proof -
  have n: "nat (connect_attempts cfg) = nat (max 1 (db_ConnectRetries cfg))"
    by (simp add: connect_attempts_def max_def)
  show ?thesis
  proof (cases "call_fault open_faults b")
    case True
    then show ?thesis by (simp add: Connect_def Open_def sql_Open_def andThen_def onErr_def)
  next
    case False
    let ?b1 = "event (Opened (DSN cfg) (Tune cfg)) (b\<lparr>open_faults := tl (open_faults b)\<rparr>)"
    obtain r b2 where l: "connect_loop cfg (nat (connect_attempts cfg)) [] ?b1 = (r, b2)" by fastforce
    have c: "Connect cfg b = (r, b2)" using False l by (simp add: Connect_def Open_def sql_Open_def andThen_def onErr_def)
    obtain evs where e: "set evs \<subseteq> range Pinged \<union> range Slept" "pings evs + (if is_Ok r then 1 else 0) \<le> nat (connect_attempts cfg)"
      "if is_Ok r then events b2 = events ?b1 @ evs @ [Pinged True] else events b2 = events ?b1 @ evs @ [Closed]"
      using connect_loop_events [OF l] by blast
    have "is_Ok r \<longleftrightarrow> (\<exists>k<nat (connect_attempts cfg). connects_at b k)"
      using connect_loop_iff [of cfg "nat (connect_attempts cfg)" "[]" ?b1] l by (simp add: connects_at_def)
    moreover have "Closed \<notin> set evs" using e(1) by auto
    moreover have "\<exists>evs'. events b2 = events b @ evs' \<and> pings evs' \<le> nat (connect_attempts cfg) \<and> (Closed \<in> set evs' \<longleftrightarrow> \<not> is_Ok r)"
      using e \<open>Closed \<notin> set evs\<close>
      by (intro exI [of _ "Opened (DSN cfg) (Tune cfg) # evs @ [if is_Ok r then Pinged True else Closed]"]) (auto split: if_splits)
    ultimately show ?thesis using c False n by simp
  qed
qed

section \<open>The life of the process\<close>

text \<open>What runs between the connection and the closing of the pool.\<close>

definition api_body :: "Config \<Rightarrow> (boot, unit) proc" where
  "api_body cfg =
     andThen (if db_AutoMigrate (cfg_Database cfg) then Migrate else ret ()) (\<lambda>_.
     andThen (onErr (\<lambda>err. Errorf ''build validator'' [err]) validator_New) (\<lambda>_. server_Run (cfg_HTTP cfg)))"

lemma api_run_eq:
  "api_run e = andThen (lift (Load e)) (\<lambda>cfg. andThen (Connect (cfg_Database cfg)) (\<lambda>_. deferring_close (api_body cfg)))"
  by (simp add: api_run_def api_body_def)

text \<open>The migrations come first, then the validator; only then the server listens.\<close>

lemma api_body_events:
  "\<exists>pre post. events (snd (api_body cfg b)) = events b @ pre @ post \<and> set pre \<subseteq> migration_events \<union> range Registered \<and>
     (post = [] \<or> (\<exists>ends. post = Listening (HTTP_Address (cfg_HTTP cfg)) # ends \<and> set ends \<subseteq> serving_events (cfg_HTTP cfg) \<and>
        (db_AutoMigrate (cfg_Database cfg) \<longrightarrow> Goose ''up'' \<in> set pre)))"
  (is "\<exists>pre post. ?P pre post")
proof -
  let ?M = "if db_AutoMigrate (cfg_Database cfg) then Migrate else ret ()"
  let ?V = "onErr (\<lambda>err. Errorf ''build validator'' [err]) validator_New"
  obtain r1 b1 where m: "?M b = (r1, b1)" by fastforce
  have "emits migration_events ?M" by (intro emits_intros emits_Migrate)
  from emitsE [OF this m] obtain ms where ms: "events b1 = events b @ ms" "set ms \<subseteq> migration_events" by blast
  obtain r2 b2 where v: "?V b1 = (r2, b2)" by fastforce
  have "emits (range Registered) ?V" by (intro emits_intros emits_validator_New)
  from emitsE [OF this v] obtain vs where vs: "events b2 = events b1 @ vs" "set vs \<subseteq> range Registered" by blast
  have up: "db_AutoMigrate (cfg_Database cfg) \<longrightarrow> Goose ''up'' \<in> set ms" if "is_Ok r1"
    using m that Migrate_events [of b] ms(1) by (auto elim: is_OkE)
  show ?thesis
  proof (cases "is_Ok r1 \<and> is_Ok r2")
    case True
    then have "api_body cfg b = server_Run (cfg_HTTP cfg) b2"
      using m v by (auto simp: api_body_def andThen_cases elim!: is_OkE)
    moreover obtain ends where "events (snd (server_Run (cfg_HTTP cfg) b2)) = events b2 @ Listening (HTTP_Address (cfg_HTTP cfg)) # ends"
        "set ends \<subseteq> serving_events (cfg_HTTP cfg)" using server_Run_events by blast
    ultimately have "?P (ms @ vs) (Listening (HTTP_Address (cfg_HTTP cfg)) # ends)"
      using ms vs up True by auto
    then show ?thesis by blast
  next
    case False
    then have "snd (api_body cfg b) = b1 \<or> snd (api_body cfg b) = b2"
      using m v unfolding api_body_def by (cases r1; cases r2) (simp_all add: andThen_cases)
    then have "?P ms [] \<or> ?P (ms @ vs) []" using ms vs by auto
    then show ?thesis by blast
  qed
qed

lemma Connect_events:
  assumes "Connect cfg b = (r, b1)"
  obtains (closed) "events b1 = events b" "\<not> is_Ok r"
    | (opened) evs where "set evs \<subseteq> range Pinged \<union> range Slept"
        "events b1 = events b @ Opened (DSN cfg) (Tune cfg) # evs @ [if is_Ok r then Pinged True else Closed]"
proof (cases "call_fault open_faults b")
  case True
  then show thesis using assms closed by (auto simp: Connect_def Open_def sql_Open_def andThen_def onErr_def)
next
  case False
  then have "connect_loop cfg (nat (connect_attempts cfg)) [] (event (Opened (DSN cfg) (Tune cfg)) (b\<lparr>open_faults := tl (open_faults b)\<rparr>)) = (r, b1)"
    using assms by (simp add: Connect_def Open_def sql_Open_def andThen_def onErr_def)
  from connect_loop_events [OF this] show thesis using opened by (auto split: if_splits)
qed

lemma deferring_close_events [simp]:
  "events (snd (deferring_close m b)) = events (snd (m b)) @ [Closed]"
  by (simp add: deferring_close_def close_pool_def split: prod.splits)

lemma api_run_cases:
  obtains (nothing) "events (snd (api_run e b)) = events b"
    | (refused) dsn limits evs where "events (snd (api_run e b)) = events b @ Opened dsn limits # evs @ [Closed]"
        "set evs \<subseteq> range Pinged \<union> range Slept"
    | (connected) cfg evs b2 pre post where "Load e = Ok cfg" "Connect (cfg_Database cfg) b = (Ok (), b2)"
        "set evs \<subseteq> range Pinged \<union> range Slept"
        "events b2 = events b @ Opened (DSN (cfg_Database cfg)) (Tune (cfg_Database cfg)) # evs @ [Pinged True]"
        "set pre \<subseteq> migration_events \<union> range Registered"
        "post = [] \<or> (\<exists>ends. post = Listening (HTTP_Address (cfg_HTTP cfg)) # ends \<and> set ends \<subseteq> serving_events (cfg_HTTP cfg) \<and>
           (db_AutoMigrate (cfg_Database cfg) \<longrightarrow> Goose ''up'' \<in> set pre))"
        "events (snd (api_run e b)) = events b @ Opened (DSN (cfg_Database cfg)) (Tune (cfg_Database cfg)) #
           (evs @ [Pinged True] @ pre @ post) @ [Closed]"
proof (cases "Load e")
  case l: (Ok cfg)
  obtain r b2 where c: "Connect (cfg_Database cfg) b = (r, b2)" by fastforce
  have run: "snd (api_run e b) = (if is_Ok r then snd (deferring_close (api_body cfg) b2) else b2)"
    using l c by (cases r) (simp_all add: api_run_eq andThen_cases)
  show thesis
  proof (cases rule: Connect_events [OF c])
    case 1
    then have "events (snd (api_run e b)) = events b" using run by simp
    then show thesis by (rule nothing)
  next
    case o: (2 evs)
    obtain pre post where "events (snd (api_body cfg b2)) = events b2 @ pre @ post" and
        p: "set pre \<subseteq> migration_events \<union> range Registered"
        "post = [] \<or> (\<exists>ends. post = Listening (HTTP_Address (cfg_HTTP cfg)) # ends \<and> set ends \<subseteq> serving_events (cfg_HTTP cfg) \<and>
           (db_AutoMigrate (cfg_Database cfg) \<longrightarrow> Goose ''up'' \<in> set pre))"
      using api_body_events [of cfg b2] by blast
    then show thesis
      using run o c l connected [OF l _ o(1) _ p] refused [OF _ o(1)] by (cases r) simp_all
  qed
qed (rule nothing, simp add: api_run_eq)+

text \<open>C39: The pool is closed exactly once, as the last thing the process does, whenever it was opened:
  \<open>run\<close> either opens no pool, or it opens one, and ends by closing it, with no other opening or
  closing in between, whatever fails on the way.\<close>

theorem pool_is_closed_last:
  "events (snd (api_run e b)) = events b \<or>
   (\<exists>dsn limits mid. events (snd (api_run e b)) = events b @ Opened dsn limits # mid @ [Closed] \<and>
      Closed \<notin> set mid \<and> set mid \<inter> range (case_prod Opened) = {})"
proof (cases rule: api_run_cases [of e b])
  case (connected cfg evs b2 pre post)
  have "Closed \<notin> set (evs @ [Pinged True] @ pre @ post)"
      "set (evs @ [Pinged True] @ pre @ post) \<inter> range (case_prod Opened) = {}"
    using connected(3,5,6) by (auto simp: migration_events_def serving_events_def)
  with connected(7) show ?thesis by fastforce
next
  case (refused dsn limits evs)
  then have "Closed \<notin> set evs" "set evs \<inter> range (case_prod Opened) = {}" by auto
  with refused(1) show ?thesis by blast
qed simp

text \<open>C40: The server listens only when everything before it succeeded: the configuration was accepted,
  the database had answered a ping, the migrations had run if they are on, and the pool was open; and
  it listens on the configured address, once.\<close>

theorem server_listens_last:
  assumes "events b = []" "Listening a \<in> set (events (snd (api_run e b)))"
  shows "\<exists>cfg before after. Load e = Ok cfg \<and> a = HTTP_Address (cfg_HTTP cfg) \<and>
    events (snd (api_run e b)) = before @ Listening a # after \<and>
    Pinged True \<in> set before \<and> Closed \<notin> set before \<and>
    (db_AutoMigrate (cfg_Database cfg) \<longrightarrow> Goose ''up'' \<in> set before) \<and> range Listening \<inter> set after = {}"
proof (cases rule: api_run_cases [of e b])
  case (connected cfg evs b2 pre post)
  have none: "range Listening \<inter> set (evs @ Pinged True # pre) = {}" "Closed \<notin> set (evs @ Pinged True # pre)"
    using connected(3,5) by (auto simp: migration_events_def)
  with connected(7) assms have "Listening a \<in> set post" by auto
  with connected(6) obtain ends where p: "post = Listening (HTTP_Address (cfg_HTTP cfg)) # ends"
      "set ends \<subseteq> serving_events (cfg_HTTP cfg)" "db_AutoMigrate (cfg_Database cfg) \<longrightarrow> Goose ''up'' \<in> set pre" by auto
  then have ends: "range Listening \<inter> set (ends @ [Closed]) = {}" by (auto simp: serving_events_def)
  have a: "a = HTTP_Address (cfg_HTTP cfg)"
    using p(1,2) \<open>Listening a \<in> set post\<close> by (auto simp: serving_events_def)
  show ?thesis
    using connected(1,7) p none a assms(1) ends
    by (intro exI [of _ cfg] exI [of _ "Opened (DSN (cfg_Database cfg)) (Tune (cfg_Database cfg)) # evs @ Pinged True # pre"]
        exI [of _ "ends @ [Closed]"]) simp
next
  case (refused dsn limits evs)
  with assms show ?thesis by auto
qed (use assms in simp)


definition sample_environment :: environment where
  "sample_environment = [''JWT_SECRET'' \<mapsto> ''0123456789abcdef0123456789abcdef'']"

definition sample_boot :: boot where
  "sample_boot =
     \<lparr>open_faults = [], ping_faults = [True], cancels = [], goose_faults = [], register_faults = [],
      drain_faults = [], listener = None, events = []\<rparr>"

lemmas read_defs = read_config_def env_def envInt_def envBool_def envDuration_def envList_def minute_def hour_def second_def

lemma sample_Load: "Load sample_environment = Ok (read_config sample_environment)"
  by (simp add: Load_def validate_config_def config_problems_def problem_def mail_problems_def limit_problems_def
      read_defs sample_environment_def minJWTSecretLength_def IsProduction_def EnvDevelopment_def EnvProduction_def
      MailDriverLog_def MailDriverSMTP_def)

lemma sample_settings:
  "db_ConnectRetries (cfg_Database (read_config sample_environment)) = 10"
  "db_AutoMigrate (cfg_Database (read_config sample_environment))"
  by (simp_all add: read_defs sample_environment_def)

lemma sample_address: "HTTP_Address (cfg_HTTP (read_config sample_environment)) = ''0.0.0.0:8080''"
proof -
  have "Itoa 8080 = ''8080''" by (simp add: Itoa_def nat_digits.simps digit_char_def char_of_eq_iff take_bit_eq_mod)
  then show ?thesis by (simp add: read_defs sample_environment_def HTTP_Address_def)
qed

text \<open>The second ping is answered.\<close>

lemma sample_connect:
  obtains b1 where "Connect (cfg_Database (read_config sample_environment)) sample_boot = (Ok (), b1)"
    "goose_faults b1 = []" "register_faults b1 = []" "listener b1 = None"
proof -
  have "nat (connect_attempts (cfg_Database (read_config sample_environment))) = Suc (Suc 8)"
    by (simp add: connect_attempts_def sample_settings)
  then show thesis
    using that by (simp del: Suc_numeral add: Connect_def Open_def sql_Open_def onErr_def andThen_def handling_def PingContext_def
        wait_or_done_def call_fault_def sample_boot_def event_def)
qed

lemma sample_start:
  "Listening ''0.0.0.0:8080'' \<in> set (events (snd (api_run sample_environment sample_boot)))"
proof -
  obtain b1 where b: "Connect (cfg_Database (read_config sample_environment)) sample_boot = (Ok (), b1)"
    "goose_faults b1 = []" "register_faults b1 = []" "listener b1 = None" by (rule sample_connect)
  have "Migrate b1 = (Ok (), b1\<lparr>events := events b1 @ map Goose [''filesystem'', ''logger'', ''dialect'', ''version'', ''up'', ''version'']\<rparr>)"
    using b(2) by (simp add: Migrate_def prepare_def SetDialect_def goose_set_def goose_call_def onErr_def andThen_def call_fault_def event_def)
  then show ?thesis
    using b by (simp add: api_run_eq sample_Load andThen_cases api_body_def sample_settings validator_New_def RegisterValidation_def
        onErr_def andThen_def call_fault_def event_def server_Run_def Start_def Shutdown_def Let_def sample_address)
qed

theorem server_listens_last_witness:
  "\<exists>cfg. Load sample_environment = Ok cfg \<and> HTTP_Address (cfg_HTTP cfg) = ''0.0.0.0:8080'' \<and>
     Pinged True \<in> set (events (snd (api_run sample_environment sample_boot)))"
  using server_listens_last [OF _ sample_start] by (force simp: sample_boot_def)

end
