(* ===== verification/Promises.thy ===== *)
theory Promises
  imports Liveness BootOrder
begin

text \<open>
  Promises that span several components: what a configuration that was accepted guarantees to the
  services, what is kept when a document is read and written again, and that the two endpoints that
  take an address do not say whether it has an account.
\<close>

section \<open>The configuration that was loaded\<close>

lemma problem_Nil [simp]: "problem bad m = [] \<longleftrightarrow> \<not> bad"
  by (simp add: problem_def)

lemma Load_Ok: "Load e = Ok cfg \<Longrightarrow> config_problems cfg = []"
  by (auto simp: Load_def validate_config_def Let_def split: if_splits)

text \<open>C37: What a service is given is what was configured: with a configuration that \<open>Load\<close> accepts, no
  fallback of the services is ever taken (lifetimes, number of guesses, cost of the hashes), the
  signing secret has at least 32 bytes, tokens live for a positive time, every limit that is switched
  on lets somebody through, and in production mail is really sent where addresses must be confirmed.\<close>

theorem loaded_configuration_is_used:
  assumes "Load e = Ok cfg"
  shows "withDefaults (wired_policy cfg) = wired_policy cfg \<and>
    NewPasswordHasher (auth_BcryptCost (cfg_Auth cfg)) = auth_BcryptCost (cfg_Auth cfg) \<and>
    32 \<le> length (secret (wired_tokens cfg)) \<and> 0 < ttl (wired_tokens cfg) \<and>
    (\<forall>b n d k. bucket_config (cfg_RateLimit cfg) b = Some (n, d, k) \<longrightarrow> 0 < n \<and> 0 < d) \<and>
    (IsProduction (cfg_App cfg) \<and> auth_RequireVerifiedEmail (cfg_Auth cfg) \<longrightarrow> mail_Driver (cfg_Mail cfg) = MailDriverSMTP)"
proof -
  have p: "config_problems cfg = []" by (rule Load_Ok [OF assms])
  then have m: "mail_problems (cfg_Mail cfg) = []" "limit_problems (cfg_RateLimit cfg) = []"
    by (simp_all add: config_problems_def)
  have "withDefaults (wired_policy cfg) = wired_policy cfg"
    using p by (simp add: config_problems_def withDefaults_def wired_policy_def)
  moreover have "NewPasswordHasher (auth_BcryptCost (cfg_Auth cfg)) = auth_BcryptCost (cfg_Auth cfg)"
    using p by (simp add: config_problems_def NewPasswordHasher_def bcrypt_MinCost_def bcrypt_MaxCost_def)
  moreover have "32 \<le> length (secret (wired_tokens cfg)) \<and> 0 < ttl (wired_tokens cfg)"
    using p by (simp add: config_problems_def wired_tokens_def NewJWTManager_def minJWTSecretLength_def)
  moreover have "bucket_config (cfg_RateLimit cfg) b = Some (n, d, k) \<longrightarrow> 0 < n \<and> 0 < d" for b n d k
    using m(2) by (cases b) (auto simp: limit_problems_def bucket_config_def split: if_splits)
  moreover have "IsProduction (cfg_App cfg) \<and> auth_RequireVerifiedEmail (cfg_Auth cfg) \<longrightarrow> mail_Driver (cfg_Mail cfg) = MailDriverSMTP"
    using p m(1) by (cases "mail_Driver (cfg_Mail cfg) = MailDriverSMTP")
      (auto simp: config_problems_def mail_problems_def split: if_splits)
  ultimately show ?thesis by blast
qed

theorem loaded_configuration_is_used_witness:
  "32 \<le> length (secret (wired_tokens (read_config sample_environment))) \<and>
   withDefaults (wired_policy (read_config sample_environment)) = wired_policy (read_config sample_environment)"
  using loaded_configuration_is_used [OF sample_Load] by blast

section \<open>Documents that are read and written\<close>

text \<open>C27: A document that was read and is written again reads back as it was: its version becomes the
  supported one, every other member is kept, with the same scores, mastery levels, lessons and
  attempts, and no member is lost or added.\<close>

theorem document_round_trip:
  assumes "parseDocument raw = Ok doc" "marshal doc = Ok s"
  shows "\<exists>doc1. parseDocument s = Ok doc1 \<and> schemaVersion doc1 = Ok SupportedSchemaVersion \<and>
    skills doc1 = skills doc \<and> mastery doc1 = mastery doc \<and> lessons doc1 = lessons doc \<and> attempts doc1 = attempts doc \<and>
    (\<forall>k. k \<noteq> fieldSchemaVersion \<longrightarrow> map_of doc1 k = map_option norm (map_of doc k))"
proof -
  let ?d = "mput fieldSchemaVersion (enc_int 2) doc"
  have ok: "doc_ok doc" by (rule parseDocument_doc_ok [OF assms(1)])
  then have d: "doc_ok ?d" by (simp add: doc_ok_mput)
  show ?thesis
  proof (intro exI conjI allI impI)
    show "parseDocument s = Ok (norm_doc ?d)" by (rule parse_marshal [OF ok assms(2)])
    show "schemaVersion (norm_doc ?d) = Ok SupportedSchemaVersion"
      by (simp add: readers_norm_doc [OF d] schemaVersion_def SupportedSchemaVersion_def map_of_norm_doc)
    show "skills (norm_doc ?d) = skills doc" "mastery (norm_doc ?d) = mastery doc"
      "lessons (norm_doc ?d) = lessons doc" "attempts (norm_doc ?d) = attempts doc"
      by (simp_all add: readers_norm_doc [OF d])
    show "map_of (norm_doc ?d) k = map_option norm (map_of doc k)" if "k \<noteq> fieldSchemaVersion" for k
      using that ok by (simp add: map_of_norm_doc map_of_mput doc_ok_def)
  qed
qed

theorem document_round_trip_witness:
  "\<exists>doc1. parseDocument ''{\"schemaVersion\":2}'' = Ok doc1 \<and> attempts doc1 = attempts []"
proof -
  have p: "parseDocument [] = Ok []" by (simp add: parseDocument_def)
  have m: "marshal [] = Ok ''{\"schemaVersion\":2}''" by code_simp
  from document_round_trip [OF p m] show ?thesis by blast
qed

section \<open>Who has an account is not said\<close>

text \<open>Every stored account reads as a user.\<close>

definition readable_accounts :: "('a) auth_lib_scheme \<Rightarrow> world \<Rightarrow> bool" where
  "readable_accounts lib w \<longleftrightarrow> (\<forall>r \<in> set (users (db w)). is_Ok (user_of_row lib r))"

lemma calm_find_email:
  assumes "faults w = []" "readable_accounts lib w" "tables_ok (collation_key w) (db w)"
  obtains (none) "mysql_FindByEmail lib e w = (Err (Sentinel ErrUserNotFound), w)"
    | (found) u where "mysql_FindByEmail lib e w = (Ok u, w)" "user_row_of (User_ID u) (db w) \<noteq> None"
proof (cases "row_with (\<lambda>r. same_email w (u_email r) e) (users (db w))")
  case None
  then show thesis
    using none assms(1) by (simp add: mysql_FindByEmail_def queryOne_def calm_statement andThen_def onErr_def)
next
  case (Some r)
  then have r: "r \<in> set (users (db w))" using row_with_Some by fast
  then obtain u where u: "user_of_row lib r = Ok u" using assms(2) unfolding readable_accounts_def by (auto elim: is_OkE)
  have "user_row_of (u_id r) (db w) = Some r"
    using assms(3) r unfolding user_row_of_def tables_ok_def by (intro row_with_key) simp_all
  moreover have "mysql_FindByEmail lib e w = (Ok u, w)"
    using calm_query [OF assms(1), where p = "\<lambda>w r. same_email w (u_email r) e" and lib = lib, OF Some] u by (simp add: mysql_FindByEmail_def)
  ultimately show thesis using found user_of_row_Ok [OF u] by simp
qed

lemma calm_secrets:
  assumes "faults w = []"
  shows "user_row_of (V_UserID v) (db w) \<noteq> None \<Longrightarrow> \<exists>w1. mysql_PutVerification v w = (Ok (), w1)"
    "user_row_of (R_UserID l) (db w) \<noteq> None \<Longrightarrow> \<exists>w1. mysql_PutReset l w = (Ok (), w1)"
  using assms by (auto simp: mysql_PutVerification_def mysql_PutReset_def calm_statement onErr_def Let_def)

lemma calm_draws:
  assumes "entropy w \<noteq> []"
  obtains code token w1 where "secret_VerificationCode w = (Ok code, w1)" "secret_ResetToken w = (Ok token, w1)"
    "faults w1 = faults w" "db w1 = db w"
  using assms
  by (cases "entropy w") (auto simp: secret_VerificationCode_def secret_ResetToken_def rand_Int_def rand_Read_def draw_def
      andThen_def onErr_def Let_def)

lemma swallowed: "returns m \<Longrightarrow> handling m (\<lambda>_. ret ()) w = (Ok (), snd (m w))"
proof -
  assume m: "returns m"
  obtain r w1 where "m w = (r, w1)" by fastforce
  with returnsD [OF m, of w] show ?thesis by (cases r) (auto simp: handling_def)
qed

lemma then_swallowed:
  assumes "\<exists>w1. m w = (Ok (), w1)" "returns n"
  shows "fst (andThen (onErr f m) (\<lambda>_. handling n (\<lambda>_. ret ())) w) = Ok ()"
  using assms(1) swallowed [OF assms(2)] by (auto simp: andThen_def onErr_def)

text \<open>C23: Asking for a reset link or for a new code does not tell whether an address has an account:
  while the driver and the random generator answer, both succeed for every text, an address or not,
  with an account or without, confirmed or not, whatever becomes of the mail.\<close>

theorem accounts_are_not_revealed:
  assumes "faults w = []" "entropy w \<noteq> []" "tables_ok (collation_key w) (db w)" "readable_accounts (api_auth a) w"
  shows "fst (ForgotPassword (fst (services a)) email w) = Ok () \<and> fst (ResendVerification (fst (services a)) email w) = Ok ()"
proof (cases "silentEmail (wired_auth (api_auth a) (api_crypto a) (api_config a)) email")
  case None
  then show ?thesis by (simp add: ForgotPassword_def ResendVerification_def services_def)
next
  case (Some e)
  show ?thesis
  proof (cases rule: calm_find_email [OF assms(1,4,3), of e])
    case 1
    with Some show ?thesis by (simp add: ForgotPassword_def ResendVerification_def services_def handling_def)
  next
    case (2 u)
    obtain cd tk w1 where d: "secret_VerificationCode w = (Ok cd, w1)" "secret_ResetToken w = (Ok tk, w1)" "faults w1 = faults w" "db w1 = db w"
      by (rule calm_draws [OF assms(2)])
    obtain w2 where t: "read_clock w1 = (Ok (now w1), w2)" "faults w2 = faults w1" "db w2 = db w1"
      by (rule read_clock_eq [of w1])
    have calm: "faults w2 = []" and user: "user_row_of (User_ID u) (db w2) \<noteq> None" using d t 2 assms(1) by simp_all
    note put = calm_secrets [OF calm]
    have "\<exists>w3. mysql_PutVerification \<lparr>V_UserID = User_ID u, CodeHash = h, Attempts = 0, V_ExpiresAt = x, V_ConsumedAt = None\<rparr> w2 = (Ok (), w3)" for h x
      using put(1) user by simp
    note code = then_swallowed [where m = "mysql_PutVerification _" and w = w2, OF this]
    have "\<exists>w3. mysql_PutReset \<lparr>R_UserID = User_ID u, TokenHash = h, R_ExpiresAt = x, R_ConsumedAt = None\<rparr> w2 = (Ok (), w3)" for h x
      using put(2) user by simp
    note link = then_swallowed [where m = "mysql_PutReset _" and w = w2, OF this]
    show ?thesis
      using d(1,2) t(1) 2(1) Some
      by (simp add: ForgotPassword_def ResendVerification_def issueVerificationCode_def services_def handling_cases andThen_cases
          onErr_def [of _ _ w] code link returns_notifier)
  qed
qed

theorem accounts_are_not_revealed_witness:
  "fst (ForgotPassword (fst (services sample_api)) ''a@b.c'' sample_site) =
   fst (ForgotPassword (fst (services sample_api)) ''nobody'' sample_site)"
proof -
  have r: "readable_accounts (api_auth sample_api) sample_site"
    by (simp add: readable_accounts_def sample_site_sel sample_api_def sample_row)
  have "fst (ForgotPassword (fst (services sample_api)) email sample_site) = Ok ()" for email
    using accounts_are_not_revealed [of sample_site sample_api email] r sample_tables(1)
    by (simp add: sample_keys(1) sample_site_sel)
  then show ?thesis by simp
qed

text \<open>The endpoint that takes a code does say it, for an address that is confirmed already: no code is
  needed to learn that such an account exists.\<close>

lemma verification_reveals_accounts:
  assumes "email_of (fst (services a)) raw = Ok e"
  shows "mysql_FindByEmail (api_auth a) e w = (Ok u, w1) \<Longrightarrow> EmailVerified u \<Longrightarrow>
      VerifyEmail (fst (services a)) raw cd w = (Err (Sentinel ErrEmailAlreadyVerified), w1)"
    and "mysql_FindByEmail (api_auth a) e w = (Err (Sentinel ErrUserNotFound), w1) \<Longrightarrow>
      VerifyEmail (fst (services a)) raw cd w = (Err (Sentinel ErrInvalidVerificationCode), w1)"
  using assms by (simp_all add: VerifyEmail_def services_def andThen_def onErr_def lookup_error_def)

section \<open>The gate\<close>

text \<open>C13: The gate holds: where addresses must be confirmed, whatever opens a session (a registration, a
  login or a verification) hands out no token, or the account of the session is confirmed by then.\<close>

theorem gated_sessions_are_confirmed:
  fixes a :: api
  defines "s \<equiv> fst (services a)"
  assumes "auth_RequireVerifiedEmail (cfg_Auth (api_config a))" "tables_ok (collation_key w) (db w)"
    and "Register s creds w = (Ok sess, w1) \<or> Login s creds w = (Ok sess, w1) \<or> VerifyEmail s raw cd w = (Ok sess, w1)"
  shows "Token sess = [] \<or> (\<exists>h. account (auth_state_of w1) (User_ID (S_User sess)) = Some (h, True))"
proof -
  have s: "s = wired_auth (api_auth a) (api_crypto a) (api_config a)" by (simp add: s_def services_def)
  have gate: "RequireVerifiedEmail (Policy_of (wired_auth (api_auth a) (api_crypto a) (api_config a)))"
    using assms(2) by (simp add: wired_policy_def withDefaults_def)
  have inv: "db_invar w" using assms(3) by (simp add: db_invar_def)
  from assms(4) show ?thesis unfolding s
  proof (elim disjE)
    assume "Register (wired_auth (api_auth a) (api_crypto a) (api_config a)) creds w = (Ok sess, w1)"
    from wired_auth.Register_Ok [OF this inv wired_db_invar] gate show ?thesis by blast
  next
    assume "Login (wired_auth (api_auth a) (api_crypto a) (api_config a)) creds w = (Ok sess, w1)"
    from wired_auth.Login_Ok [OF this inv] obtain h v where "account (auth_state_of w1) (User_ID (S_User sess)) = Some (h, v)" "v"
      using gate by auto
    then show ?thesis by simp
  next
    assume "VerifyEmail (wired_auth (api_auth a) (api_crypto a) (api_config a)) raw cd w = (Ok sess, w1)"
    from wired_auth.VerifyEmail_Ok [OF this inv] show ?thesis by (auto simp: on_account_def on_code_def)
  qed
qed

text \<open>The gate does not change how a code is checked, so the sample verification is one behind the gate too.\<close>

definition gated_api :: api where
  "gated_api = sample_api\<lparr>api_config := sample_config\<lparr>cfg_Auth := (cfg_Auth sample_config)\<lparr>auth_RequireVerifiedEmail := True\<rparr>\<rparr>\<rparr>"

lemma gated_verify: "VerifyEmail (fst (services gated_api)) = VerifyEmail (fst (services sample_api))"
  by (intro ext) (simp add: VerifyEmail_def openSession_def services_def gated_api_def sample_api_def wired_policy_def withDefaults_def
      wired_tokens_def email_of_def cong: if_cong)

theorem gated_sessions_are_confirmed_witness:
  "\<exists>sess w1 h. VerifyEmail (fst (services gated_api)) ''a@b.c'' ''123456'' coded_site = (Ok sess, w1) \<and>
     Token sess = ''token'' \<and> account (auth_state_of w1) (User_ID (S_User sess)) = Some (h, True)"
proof -
  obtain sess w1 where v: "VerifyEmail (fst (services gated_api)) ''a@b.c'' ''123456'' coded_site = (Ok sess, w1)" "Token sess = ''token''"
    using sample_verify unfolding gated_verify by (auto simp: services_def sample_api_def)
  have "auth_RequireVerifiedEmail (cfg_Auth (api_config gated_api))" by (simp add: gated_api_def)
  from gated_sessions_are_confirmed [OF this, of coded_site _ sess w1] v sample_tables(3)
  show ?thesis by (auto simp: sample_keys(3))
qed

end
