(* ===== verification/Races.thy ===== *)
theory Races
  imports Promises
begin

text \<open>
  Two requests at the same time. Nothing holds a lock between the look-up of a reset link and its
  consumption, so a reset falls into two phases that another request may come between:
  \<open>reset_check\<close> and \<open>reset_effects\<close>, which together are \<open>ResetPassword\<close> (\<open>ResetPassword_phases\<close>). One
  after the other, the second of two resets with one link is refused (\<open>a_link_works_once\<close> in the root
  theory); with both checks before both effects, each of them succeeds and the later password stays
  (\<open>concurrent_resets\<close>): \<open>ConsumeReset\<close> does not look at how many rows it changed. In the same way the
  check of a code (\<open>verify_check\<close>) looks at the attempts once, so of guesses that were checked at the
  same time each is compared and counted, however many there are (\<open>concurrent_guesses\<close>). Answers are not
  open to this: their read and their write are inside one transaction that locks the row.
\<close>

section \<open>The phases of a reset\<close>

definition reset_check :: "'w AuthService \<Rightarrow> string \<Rightarrow> string \<Rightarrow> ('w, PasswordReset \<times> gotime) proc" where
  "reset_check s token newPassword =
     andThen (lift (checkPasswordLength newPassword)) (\<lambda>_.
     andThen (onErr (lookup_error ErrResetNotFound (Sentinel ErrInvalidResetToken) ''reset password: look up token'')
       (FindResetByHash (Resets s) (hashSecret (Lib s) token))) (\<lambda>reset.
     andThen (Clock s) (\<lambda>t.
     if \<not> Reset_Usable reset (UTC t) then fail (Sentinel ErrInvalidResetToken) else ret (reset, t))))"

definition reset_effects :: "'w AuthService \<Rightarrow> string \<Rightarrow> PasswordReset \<times> gotime \<Rightarrow> ('w, unit) proc" where
  "reset_effects s newPassword = (\<lambda>(reset, t).
     andThen (onErr (\<lambda>err. Errorf ''reset password: hash password'' [err]) (Hash s newPassword)) (\<lambda>hash.
     andThen (onErr (\<lambda>err. Errorf ''reset password: store password'' [err])
       (UpdatePassword (Repo s) (R_UserID reset) hash)) (\<lambda>_.
     andThen (onErr (\<lambda>err. Errorf ''reset password: consume token'' [err])
       (ConsumeReset (Resets s) (R_UserID reset) (UTC t))) (\<lambda>_.
     handling (MarkEmailVerified (Repo s) (R_UserID reset) (UTC t)) (\<lambda>_. ret ())))))"

lemma andThen_laws:
  "andThen (andThen m k) n = andThen m (\<lambda>x. andThen (k x) n)"
  "andThen (ret x) g = g x" "andThen (fail e) k = fail e"
  "andThen (if b then m else m2) k = (if b then andThen m k else andThen m2 k)"
  by (auto simp: andThen_def fun_eq_iff split: prod.split result.split)

lemma ResetPassword_phases: "ResetPassword s token p = andThen (reset_check s token p) (reset_effects s p)"
  by (simp add: ResetPassword_def reset_check_def reset_effects_def andThen_laws cong: if_cong)

text \<open>The check reads the clock once, after the look-up, which takes no time in the model: the link is
  judged by the time at which the request arrives.\<close>

lemma find_reset_now: "mysql_FindResetByHash h w = (r, w1) \<Longrightarrow> now w1 = now w"
proof -
  have "keeps (\<lambda>v. now v = now w) (mysql_FindResetByHash h)"
    unfolding mysql_FindResetByHash_def by (intro keeps_intros) simp_all
  then show "mysql_FindResetByHash h w = (r, w1) \<Longrightarrow> now w1 = now w" using keepsD by fastforce
qed

lemma reset_is_live_now:
  assumes "ResetPassword (wired_auth lib crypto c) token p w = (Ok x, w1)"
  shows "\<exists>v. reset (auth_state_of w) (sha256_hex lib token) = Some v \<and> Reset_Usable v (UTC (now w))"
proof -
  obtain v w2 t w3 where f: "mysql_FindResetByHash (hashSecret lib token) w = (Ok v, w2)" and t: "read_clock w2 = (Ok t, w3)"
    and u: "Reset_Usable v (UTC t)"
    using assms by (auto simp: ResetPassword_def andThen_Ok_iff split: if_splits)
  have "reset (auth_state_of w) (hashSecret lib token) = Some v"
    using mysql_reset_store.find_reset_Ok [of "hashSecret lib token" w v w2] f by simp
  moreover have "t = now w" using t find_reset_now [OF f] by (simp add: read_clock_def)
  ultimately show ?thesis using u by (simp add: hashSecret_def)
qed

section \<open>The effects while the driver answers\<close>

lemma calm_update_user:
  assumes "faults w = []" "user_row_of i (db w) = Some r" "\<And>x. u_id (f x) = u_id x"
  obtains n us where "update_user i f w = (Ok n, w\<lparr>db := (db w)\<lparr>users := us\<rparr>\<rparr>)" "f r \<noteq> r \<Longrightarrow> n \<noteq> 0"
    "row_with (\<lambda>r. u_id r = i) us = Some (if f r \<noteq> r then (f r)\<lparr>u_updated_at := current_timestamp w\<rparr> else r)"
proof
  let ?p = "\<lambda>r. u_id r = i \<and> f r \<noteq> r" and ?f = "\<lambda>r. (f r)\<lparr>u_updated_at := current_timestamp w\<rparr>"
  show "update_user i f w = (Ok (length (filter ?p (users (db w)))), w\<lparr>db := (db w)\<lparr>users := update_rows ?p ?f (users (db w))\<rparr>\<rparr>)"
    using assms(1) by (simp add: update_user_def calm_statement)
  have r: "r \<in> set (users (db w))" "u_id r = i" using assms(2) row_with_Some unfolding user_row_of_def by fast+
  then show "f r \<noteq> r \<Longrightarrow> length (filter ?p (users (db w))) \<noteq> 0" by (auto simp: filter_empty_conv)
  show "row_with (\<lambda>r. u_id r = i) (update_rows ?p ?f (users (db w))) = Some (if f r \<noteq> r then ?f r else r)"
    using row_with_update_key [of ?p u_id ?f i "users (db w)"] assms(2,3) r(2) by (simp add: user_row_of_def)
qed

lemma calm_password:
  assumes "faults w = []" "user_row_of i (db w) = Some r" "u_password_hash r \<noteq> h"
  obtains us r1 where "mysql_UpdatePassword i h w = (Ok (), w\<lparr>db := (db w)\<lparr>users := us\<rparr>\<rparr>)"
    "row_with (\<lambda>r. u_id r = i) us = Some r1" "u_password_hash r1 = h"
proof -
  let ?f = "\<lambda>r. r\<lparr>u_password_hash := h\<rparr>"
  have ne: "?f r \<noteq> r" using assms(3) by (metis user_row.select_convs(3) user_row.update_convs(3) user_row.surjective)
  obtain n us where u: "update_user i ?f w = (Ok n, w\<lparr>db := (db w)\<lparr>users := us\<rparr>\<rparr>)" "?f r \<noteq> r \<Longrightarrow> n \<noteq> 0"
    "row_with (\<lambda>r. u_id r = i) us = Some (if ?f r \<noteq> r then (?f r)\<lparr>u_updated_at := current_timestamp w\<rparr> else r)"
    by (rule calm_update_user [OF assms(1,2), of ?f]) (simp, blast)
  with ne show thesis
    by (intro that [of us "(?f r)\<lparr>u_updated_at := current_timestamp w\<rparr>"])
      (simp_all add: mysql_UpdatePassword_def andThen_def onErr_def requireOneRow_def)
qed

lemma calm_mark:
  assumes "faults w = []" "user_row_of i (db w) = Some r"
  obtains x us r1 where "mysql_MarkEmailVerified lib i t w = (x, w\<lparr>db := (db w)\<lparr>users := us\<rparr>\<rparr>)"
    "row_with (\<lambda>r. u_id r = i) us = Some r1" "u_password_hash r1 = u_password_hash r"
proof -
  let ?f = "\<lambda>r. r\<lparr>u_email_verified_at := Some (seconds t)\<rparr>"
  obtain n us where u: "update_user i ?f w = (Ok n, w\<lparr>db := (db w)\<lparr>users := us\<rparr>\<rparr>)"
    "row_with (\<lambda>r. u_id r = i) us = Some (if ?f r \<noteq> r then (?f r)\<lparr>u_updated_at := current_timestamp w\<rparr> else r)"
    by (rule calm_update_user [OF assms, of ?f]) (simp, blast)
  let ?w = "w\<lparr>db := (db w)\<lparr>users := us\<rparr>\<rparr>"
  have "user_row_of i (db ?w) \<noteq> None" using u(2) by (simp add: user_row_of_def)
  then obtain r1 where r1: "user_row_of i (db ?w) = Some r1" by blast
  have "mysql_FindByID lib i ?w = (user_of_row lib r1, ?w)" by (rule calm_find [OF _ r1]) (simp add: assms(1))
  then have "mysql_MarkEmailVerified lib i t w = (if n = 0 then Err (Sentinel ErrUserNotFound) else user_of_row lib r1, ?w)"
    using u(1) by (simp add: mysql_MarkEmailVerified_def andThen_def onErr_def requireOneRow_def)
  moreover have "u_password_hash r1 = u_password_hash r" using u(2) r1 by (auto simp: user_row_of_def split: if_splits)
  ultimately show thesis using that r1 by (simp add: user_row_of_def)
qed

lemma calm_effects:
  assumes "faults w = []" "user_row_of (R_UserID l) (db w) = Some r" "entropy w = e # es" "length p \<le> 72"
    and "bcrypt_Generate crypto (NewPasswordHasher (auth_BcryptCost (cfg_Auth c))) e p = Ok h" "u_password_hash r \<noteq> h"
  shows "\<exists>w1 r1. reset_effects (wired_auth lib crypto c) p (l, t) w = (Ok (), w1) \<and> faults w1 = [] \<and> entropy w1 = es \<and>
    user_row_of (R_UserID l) (db w1) = Some r1 \<and> u_password_hash r1 = h"
proof -
  let ?i = "R_UserID l" and ?w = "w\<lparr>entropy := es\<rparr>"
  have hash: "hasher_Hash crypto (NewPasswordHasher (auth_BcryptCost (cfg_Auth c))) p w = (Ok h, ?w)"
    using assms(3,4,5) by (simp add: hasher_Hash_def bcryptMaxPasswordLength_def draw_def andThen_def onErr_def)
  obtain us r1 where u: "mysql_UpdatePassword ?i h ?w = (Ok (), ?w\<lparr>db := (db ?w)\<lparr>users := us\<rparr>\<rparr>)"
      "row_with (\<lambda>r. u_id r = ?i) us = Some r1" "u_password_hash r1 = h"
    by (rule calm_password [of ?w ?i r h]) (use assms in simp_all)
  define w1 where "w1 = ?w\<lparr>db := (db ?w)\<lparr>users := us\<rparr>\<rparr>"
  obtain rs where c: "mysql_ConsumeReset ?i (UTC t) w1 = (Ok (), w1\<lparr>db := (db w1)\<lparr>resets := rs\<rparr>\<rparr>)"
    using assms(1) by (simp add: mysql_ConsumeReset_def onErr_def calm_statement w1_def)
  define w2 where "w2 = w1\<lparr>db := (db w1)\<lparr>resets := rs\<rparr>\<rparr>"
  obtain x vs r2 where m: "mysql_MarkEmailVerified lib ?i (UTC t) w2 = (x, w2\<lparr>db := (db w2)\<lparr>users := vs\<rparr>\<rparr>)"
      "row_with (\<lambda>r. u_id r = ?i) vs = Some r2" "u_password_hash r2 = h"
    by (rule calm_mark [of w2 ?i r1 lib "UTC t"]) (use assms(1) u in \<open>simp_all add: w1_def w2_def user_row_of_def\<close>)
  have "handling (mysql_MarkEmailVerified lib ?i (UTC t)) (\<lambda>_. ret ()) w2 = (Ok (), w2\<lparr>db := (db w2)\<lparr>users := vs\<rparr>\<rparr>)"
    using m(1) by (simp add: swallowed [OF returns_users(6)])
  then have "reset_effects (wired_auth lib crypto c) p (l, t) w = (Ok (), w2\<lparr>db := (db w2)\<lparr>users := vs\<rparr>\<rparr>)"
    using hash u(1) [folded w1_def] c [folded w2_def] by (simp add: reset_effects_def andThen_def onErr_def)
  then show ?thesis using m assms(1) by (simp add: w2_def w1_def user_row_of_def)
qed

section \<open>Two resets with one link\<close>

lemma concurrent_resets:
  assumes "faults w = []" "user_row_of (R_UserID l) (db w) = Some r" "entropy w = [e1, e2] @ es"
    and "length p \<le> 72" "length q \<le> 72" "u_password_hash r \<noteq> h" "h \<noteq> k"
    and "bcrypt_Generate crypto (NewPasswordHasher (auth_BcryptCost (cfg_Auth c))) e1 p = Ok h"
    and "bcrypt_Generate crypto (NewPasswordHasher (auth_BcryptCost (cfg_Auth c))) e2 q = Ok k"
  shows "\<exists>w1 w2 r2. reset_effects (wired_auth lib crypto c) p (l, t) w = (Ok (), w1) \<and>
    reset_effects (wired_auth lib crypto c) q (l, t2) w1 = (Ok (), w2) \<and>
    user_row_of (R_UserID l) (db w2) = Some r2 \<and> u_password_hash r2 = k"
proof -
  obtain w1 r1 where 1: "reset_effects (wired_auth lib crypto c) p (l, t) w = (Ok (), w1)" "faults w1 = []" "entropy w1 = e2 # es"
      "user_row_of (R_UserID l) (db w1) = Some r1" "u_password_hash r1 = h"
    using calm_effects [OF assms(1,2) _ assms(4,8,6), of "e2 # es" lib t] assms(3) by auto
  from calm_effects [OF 1(2,4,3) assms(5,9), of lib t2] 1(1,5) assms(7) show ?thesis by blast
qed

text \<open>The two checks pass one after the other on the sample link, before either reset has an effect.\<close>

lemma sample_checks:
  "\<exists>l t. reset_check sample_auth ''link'' ''secret12'' linked_site = (Ok (l, t), linked_site) \<and>
     reset_check sample_auth ''link'' ''another1'' linked_site = (Ok (l, t), linked_site) \<and> R_UserID l = 1"
proof -
  let ?v = "\<lparr>R_UserID = 1, TokenHash = ''#link'', R_ExpiresAt = of_seconds 1700003600, R_ConsumedAt = None\<rparr>"
  have f: "mysql_FindResetByHash ''#link'' linked_site = (Ok ?v, linked_site)"
    by (simp add: mysql_FindResetByHash_def andThen_def onErr_def statement_def linked_sel reset_of_hash_def row_with_def
        reset_of_row_def NewID_def)
  have h: "hashSecret sample_lib ''link'' = ''#link''" by (simp add: hashSecret_def sample_lib_def)
  have k: "read_clock linked_site = (Ok (of_seconds 1700000000), linked_site)" by (simp add: read_clock_def linked_sel)
  have v: "Reset_Usable ?v (UTC (of_seconds 1700000000))" by (simp add: Reset_Usable_def UTC_def of_seconds_def)
  show ?thesis
    by (intro exI [of _ ?v] exI [of _ "of_seconds 1700000000"])
      (simp add: reset_check_def checkPasswordLength_def MinPasswordLength_def MaxPasswordLength_def andThen_def onErr_def f h k v)
qed


section \<open>The phases of a verification\<close>

definition verify_check :: "'w AuthService \<Rightarrow> string \<Rightarrow> ('w, User \<times> EmailVerification \<times> gotime) proc" where
  "verify_check s email =
     andThen (onErr (\<lambda>_. Sentinel ErrInvalidVerificationCode) (lift (email_of s email))) (\<lambda>address.
     andThen (onErr (lookup_error ErrUserNotFound (Sentinel ErrInvalidVerificationCode) ''verify email: look up account'')
       (FindByEmail (Repo s) address)) (\<lambda>user.
     if EmailVerified user then fail (Sentinel ErrEmailAlreadyVerified)
     else
     andThen (onErr (lookup_error ErrVerificationNotFound (Sentinel ErrInvalidVerificationCode) ''verify email: look up code'')
       (FindVerification (Verifications s) (User_ID user))) (\<lambda>verification.
     andThen (Clock s) (\<lambda>t.
     if \<not> Verification_Usable verification (UTC t) (MaxVerificationAttempts (Policy_of s))
     then fail (Sentinel ErrInvalidVerificationCode) else ret (user, verification, t)))))"

definition verify_effects :: "'w AuthService \<Rightarrow> string \<Rightarrow> User \<times> EmailVerification \<times> gotime \<Rightarrow> ('w, Session) proc" where
  "verify_effects s guess = (\<lambda>(user, verification, t).
     if \<not> sameSecret (CodeHash verification) (hashSecret (Lib s) guess)
     then handling (RecordVerificationAttempt (Verifications s) (User_ID user))
            (\<lambda>_. fail (Sentinel ErrInvalidVerificationCode))
     else
     andThen (onErr (\<lambda>err. Errorf ''verify email: consume code'' [err])
       (ConsumeVerification (Verifications s) (User_ID user) (UTC t))) (\<lambda>_.
     andThen (onErr (\<lambda>err. Errorf ''verify email: mark verified'' [err])
       (MarkEmailVerified (Repo s) (User_ID user) (UTC t))) (\<lambda>verified.
     handling (TouchActivity (Repo s) (User_ID verified)
                 (DayIn (UTC t) (Location (Lib s) (Profile_of verified)))) (\<lambda>touched.
       openSession s (case touched of Inr u \<Rightarrow> u | Inl err \<Rightarrow> verified)))))"

lemma VerifyEmail_phases: "VerifyEmail s email guess = andThen (verify_check s email) (verify_effects s guess)"
  by (simp add: VerifyEmail_def verify_check_def verify_effects_def andThen_laws cong: if_cong)

text \<open>A wrong guess is counted, and nothing else happens to the code.\<close>

lemma wrong_guess:
  assumes "faults w = []" "code_of (User_ID user) (db w) = Some r" "\<not> sameSecret (CodeHash v) (hashSecret lib g)"
  shows "\<exists>w1. verify_effects (wired_auth lib crypto c) g (user, v, t) w = (Err (Sentinel ErrInvalidVerificationCode), w1) \<and>
    faults w1 = [] \<and> code_of (User_ID user) (db w1) = Some (r\<lparr>c_attempts := c_attempts r + 1\<rparr>)"
proof -
  let ?f = "\<lambda>x. x\<lparr>c_attempts := c_attempts x + 1\<rparr>" and ?p = "\<lambda>x. c_user_id x = User_ID user"
  let ?w = "w\<lparr>db := (db w)\<lparr>codes := update_rows ?p ?f (codes (db w))\<rparr>\<rparr>"
  have "mysql_RecordVerificationAttempt (User_ID user) w = (Ok (), ?w)"
    using assms(1) by (simp add: mysql_RecordVerificationAttempt_def update_code_def onErr_def calm_statement)
  then have "verify_effects (wired_auth lib crypto c) g (user, v, t) w = (Err (Sentinel ErrInvalidVerificationCode), ?w)"
    using assms(3) by (simp add: verify_effects_def handling_def)
  moreover have "c_user_id r = User_ID user" using assms(2) row_with_Some unfolding code_of_def by fast
  then have "code_of (User_ID user) (db ?w) = Some (?f r)"
    using row_with_update_key [of ?p c_user_id ?f "User_ID user" "codes (db w)"] assms(2) by (simp add: code_of_def)
  ultimately show ?thesis using assms(1) by (intro exI [of _ ?w]) simp
qed

text \<open>Guesses that were all checked before any of them was counted: whatever the limit is and however many
  they are, each of them is compared with the code, and the count passes the limit.\<close>

lemma concurrent_guesses:
  assumes "faults w = []" "code_of (User_ID user) (db w) = Some r"
    and "\<forall>g \<in> set guesses. \<not> sameSecret (CodeHash v) (hashSecret lib g)"
  shows "\<exists>w1. fold (\<lambda>g w. snd (verify_effects (wired_auth lib crypto c) g (user, v, t) w)) guesses w = w1 \<and>
    faults w1 = [] \<and> code_of (User_ID user) (db w1) = Some (r\<lparr>c_attempts := c_attempts r + int (length guesses)\<rparr>)"
  using assms
proof (induction guesses arbitrary: w r)
  case (Cons g gs)
  obtain w1 where w1: "verify_effects (wired_auth lib crypto c) g (user, v, t) w = (Err (Sentinel ErrInvalidVerificationCode), w1)"
      "faults w1 = []" "code_of (User_ID user) (db w1) = Some (r\<lparr>c_attempts := c_attempts r + 1\<rparr>)"
    using wrong_guess [OF Cons.prems(1,2)] Cons.prems(3) by force
  show ?case using Cons.IH [OF w1(2,3)] Cons.prems(3) w1(1) by (simp add: algebra_simps)
qed simp

text \<open>A check leaves the tables as they are, so any number of checks pass before the first guess is counted.\<close>

lemma checks_read_only: "auth_state_of (snd (verify_check (wired_auth lib crypto c) email w)) = auth_state_of w"
proof -
  have "keeps (\<lambda>v. auth_state_of v = auth_state_of w) (verify_check (wired_auth lib crypto c) email)"
    unfolding verify_check_def
    by (intro keeps_intros wired_auth.find_email_keeps wired_auth.find_code_keeps wired_auth.time_keeps)
  then show ?thesis using keepsD by fast
qed

end
