(* ===== verification/Paging.thy ===== *)
theory Paging
  imports Http ValueObjects
begin

text \<open>
  The list helpers of \<^verbatim>\<open>internal/shared/httpx/httpx.go\<close> over
  \<^verbatim>\<open>internal/shared/pagination/pagination.go\<close>: the page a query asks for and the envelope of a list.
  No route uses them yet. A query is a function from parameter names to values, absent ones empty.
  Lemmas: the offsets of the pages cut the rows of a list into pages without gap or overlap.
\<close>

definition PaginationParams :: "(string \<Rightarrow> string) \<Rightarrow> Params" where
  "PaginationParams query = Parse (query ''page'') (query ''limit'')"

definition enc_Meta :: "Meta \<Rightarrow> json" where
  "enc_Meta m =
     json_object [(''page'', Some (enc_int (Page m))), (''limit'', Some (enc_int (Limit m))),
                  (''total'', Some (enc_int (Total m))), (''total_pages'', Some (enc_int (TotalPages m)))]"

definition enc_PageBody :: "json \<Rightarrow> Meta \<Rightarrow> json" where
  "enc_PageBody items meta = json_object [(''items'', Some items), (''meta'', Some (enc_Meta meta))]"

definition send_Page :: "json option \<Rightarrow> Meta \<Rightarrow> response result" where
  "send_Page items meta = send_JSON 200 (map_option (\<lambda>j. enc_PageBody j meta) items)"

text \<open>Without wrap-around the offset of a page is the number of rows on the pages before it.\<close>

lemma page_offset_exact:
  assumes "1 \<le> Page p" "1 \<le> Limit p" "Page p * Limit p < 2 ^ 63"
  shows "page_offset p = (Page p - 1) * Limit p"
proof -
  have "Page p - 1 \<le> (Page p - 1) * Limit p" using mult_left_mono [of 1 "Limit p" "Page p - 1"] assms(1,2) by simp
  moreover have "(Page p - 1) * Limit p < 2 ^ 63" using assms by (simp add: left_diff_distrib)
  moreover have "0 \<le> (Page p - 1) * Limit p" using assms(1,2) by simp
  ultimately have "int64 (Page p - 1) = Page p - 1" "int64 ((Page p - 1) * Limit p) = (Page p - 1) * Limit p"
    using assms by (simp_all del: mult_le_cancel_right mult_le_cancel_left)
  then show ?thesis by (simp add: page_offset_def)
qed

text \<open>Every row of a list is on exactly one of the pages a query can ask for with a given limit.\<close>

lemma row_is_on_one_page:
  assumes "1 \<le> l" "l \<le> 100" "0 \<le> i" "i < 2 ^ 62"
  shows "\<exists>!k. 1 \<le> k \<and> k * l < 2 ^ 63 \<and> page_offset \<lparr>Page = k, Limit = l\<rparr> \<le> i \<and> i < page_offset \<lparr>Page = k, Limit = l\<rparr> + l"
proof -
  have i: "i = i div l * l + i mod l" "0 \<le> i mod l" "i mod l < l" "0 \<le> i div l" using assms by (simp_all add: pos_imp_zdiv_nonneg_iff)
  show ?thesis
  proof (rule ex1I [of _ "i div l + 1"], goal_cases)
    case 1
    have b: "i div l * l \<le> i" "i < i div l * l + l" using i by linarith+
    then have "(i div l + 1) * l < 2 ^ 63" using assms b by (simp add: distrib_right)
    moreover have "page_offset \<lparr>Page = i div l + 1, Limit = l\<rparr> = i div l * l"
      using page_offset_exact [of "\<lparr>Page = i div l + 1, Limit = l\<rparr>"] i assms(1) calculation by simp
    ultimately show ?case using i(4) b by simp
  next
    case (2 k)
    then have "(k - 1) * l \<le> i" "i < (k - 1) * l + l" using page_offset_exact [of "\<lparr>Page = k, Limit = l\<rparr>"] assms(1) by simp_all
    then have "i div l = k - 1" using int_div_pos_eq [of i l "k - 1" "i - (k - 1) * l"] by (simp add: algebra_simps)
    then show ?case by simp
  qed
qed

end
