(* ===== verification/AccessLog.thy ===== *)
theory AccessLog
  imports Boot
begin

text \<open>
  What the access log of \<^verbatim>\<open>internal/platform/middleware/logger.go\<close> shows of a request, with the level
  filter of \<^verbatim>\<open>internal/platform/logger/logger.go\<close>: levels are ordered by their \<open>slog\<close> numbers, and a
  record is written when its level is not below the configured one. The level is taken from the
  status that is really sent, and a server failure is written whatever the configured level is.
\<close>

section \<open>The order of the levels\<close>

fun slog_number :: "log_level \<Rightarrow> int" where
  "slog_number LevelDebug = - 4"
| "slog_number LevelInfo = 0"
| "slog_number LevelWarn = 4"
| "slog_number LevelError = 8"

lemma slog_number_inj: "slog_number a = slog_number b \<longleftrightarrow> a = b"
  by (cases a; cases b) simp_all

instantiation log_level :: linorder
begin

definition less_eq_log_level :: "log_level \<Rightarrow> log_level \<Rightarrow> bool" where
  "less_eq_log_level a b \<longleftrightarrow> slog_number a \<le> slog_number b"

definition less_log_level :: "log_level \<Rightarrow> log_level \<Rightarrow> bool" where
  "less_log_level a b \<longleftrightarrow> slog_number a < slog_number b"

instance
  by standard (auto simp: less_eq_log_level_def less_log_level_def slog_number_inj)

end

lemma level_order [simp]: "l \<le> LevelError" "LevelDebug \<le> l" "LevelInfo < LevelWarn" "LevelWarn < LevelError"
  by (cases l; simp add: less_eq_log_level_def less_log_level_def)+

section \<open>The middleware around the routes\<close>

text \<open>The trap for panics: what was thrown becomes an error of the chain.\<close>

fun Recover :: "response result \<Rightarrow> goerr + response" where
  "Recover (Ok r) = Inr r"
| "Recover (Err err) = Inl err"
| "Recover (Panic p) = Inl (LibError p)"

text \<open>The level of the record of a request, if one is written; what the chain returned passes. A response
  that nobody wrote yet has the status 200.\<close>

definition RequestLogger :: "string list \<Rightarrow> string \<Rightarrow> goerr + response \<Rightarrow> log_level option" where
  "RequestLogger SkipPaths path outcome =
     (if path \<in> set SkipPaths then None
      else Some (case outcome of Inl err \<Rightarrow> access_level (Some err) 200 | Inr r \<Rightarrow> access_level None (Status r)))"

text \<open>What the handler of the log lets through.\<close>

definition record_written :: "log_level \<Rightarrow> log_level option \<Rightarrow> bool" where
  "record_written minimum rec \<longleftrightarrow> (case rec of None \<Rightarrow> False | Some l \<Rightarrow> minimum \<le> l)"

text \<open>The server renders what the trap leaves as it renders the outcome itself.\<close>

lemma render_Recover: "render_outcome r = (case Recover r of Inl err \<Rightarrow> ErrorHandler err | Inr resp \<Rightarrow> resp)"
  by (cases r) simp_all

lemma StatusFor_sent: "StatusFor (Some e) = Status (fail_response e)"
  using StatusFor_Fail [of "Some e"] by (simp add: fail_response_def json_response_def split: prod.split)

text \<open>The level of a request is the one of the status the client gets.\<close>

lemma level_of_sent_status:
  assumes "path \<notin> set skip"
  shows "RequestLogger skip path (Recover r) =
     Some (if 500 \<le> Status (render_outcome r) then LevelError else if 400 \<le> Status (render_outcome r) then LevelWarn else LevelInfo)"
  using assms by (cases r) (simp_all add: RequestLogger_def access_level_def StatusFor_sent ErrorHandler_def)

text \<open>A failure of the server is never filtered out, and at the default level no request is; polling the
  health of the server leaves no record.\<close>

lemma failures_are_logged:
  "500 \<le> Status (render_outcome r) \<Longrightarrow> path \<noteq> HealthPath \<Longrightarrow>
   record_written (parseLevel to_lower raw) (RequestLogger [HealthPath] path (Recover r))"
  by (simp add: record_written_def level_of_sent_status)

lemma default_level_logs_all: "path \<noteq> HealthPath \<Longrightarrow> record_written LevelInfo (RequestLogger [HealthPath] path (Recover r))"
  by (simp add: record_written_def level_of_sent_status less_imp_le)

lemma health_is_not_logged: "\<not> record_written l (RequestLogger [HealthPath] HealthPath outcome)"
  by (simp add: record_written_def RequestLogger_def)

end
