(* ===== verification/RequestScope.thy ===== *)
theory RequestScope
  imports Boot
begin

text \<open>
  What the middlewares of \<^verbatim>\<open>internal/platform/middleware\<close> leave with a request for the code behind them:
  the request id and the user, each in Fiber's locals and in the user context, the id also in the
  response headers; the readers of these; and the settings handed to Fiber's limiter and CORS
  middleware. Both keys have the same spelling in the locals and in the context, which are separate
  stores.
\<close>

section \<open>The stores of a request\<close>

datatype scope_value = ScopeText string | ScopeInt int

record scope =
  Locals :: "string \<Rightarrow> scope_value option"
  UserContext :: "string \<Rightarrow> scope_value option"
  ResponseHeader :: "string \<Rightarrow> string option"

definition requestIDContextKey :: string where "requestIDContextKey = ''request_id''"
definition requestIDLocalsKey :: string where "requestIDLocalsKey = ''request_id''"
definition userIDContextKey :: string where "userIDContextKey = ''user_id''"
definition userIDLocalsKey :: string where "userIDLocalsKey = ''user_id''"

text \<open>What \<open>RequestID\<close> stores before it goes on, and what \<open>JWTAuth\<close> stores for a token that verified.\<close>

definition RequestID_scope :: "string \<Rightarrow> string \<Rightarrow> scope \<Rightarrow> scope" where
  "RequestID_scope uuid header s =
     (let i = RequestID uuid header in
      s\<lparr>Locals := (Locals s)(requestIDLocalsKey \<mapsto> ScopeText i),
        ResponseHeader := (ResponseHeader s)(''X-Request-ID'' \<mapsto> i),
        UserContext := (UserContext s)(requestIDContextKey \<mapsto> ScopeText i)\<rparr>)"

definition JWTAuth_scope :: "Claims \<Rightarrow> scope \<Rightarrow> scope" where
  "JWTAuth_scope claims s =
     s\<lparr>Locals := (Locals s)(userIDLocalsKey \<mapsto> ScopeInt (Claims_UserID claims)),
       UserContext := (UserContext s)(userIDContextKey \<mapsto> ScopeInt (Claims_UserID claims))\<rparr>"

definition RequestIDFrom :: "scope \<Rightarrow> string" where
  "RequestIDFrom s = (case Locals s requestIDLocalsKey of Some (ScopeText i) \<Rightarrow> i | _ \<Rightarrow> [])"

definition RequestIDFromContext :: "scope \<Rightarrow> string" where
  "RequestIDFromContext s = (case UserContext s requestIDContextKey of Some (ScopeText i) \<Rightarrow> i | _ \<Rightarrow> [])"

definition UserID :: "scope \<Rightarrow> int result" where
  "UserID s =
     (case Locals s userIDLocalsKey of
        Some (ScopeInt i) \<Rightarrow>
          (if i \<le> 0 then Err (Unauthorized ''missing_token'' ''an access token is required'') else Ok i)
      | _ \<Rightarrow> Err (Unauthorized ''missing_token'' ''an access token is required''))"

definition UserIDFromContext :: "scope \<Rightarrow> int \<times> bool" where
  "UserIDFromContext s = (case UserContext s userIDContextKey of Some (ScopeInt i) \<Rightarrow> (i, i > 0) | _ \<Rightarrow> (0, False))"

section \<open>Settings of Fiber's middlewares\<close>

record limiter_config =
  lim_Max :: int
  lim_Expiration :: int
  lim_SlidingWindow :: bool
  lim_SkipSuccessfulRequests :: bool
  lim_ByEmail :: bool

definition limiter_New :: "int \<times> int \<times> bool \<Rightarrow> limiter_config" where
  "limiter_New = (\<lambda>(Max, Window, ByEmail).
     \<lparr>lim_Max = Max, lim_Expiration = Window, lim_SlidingWindow = True, lim_SkipSuccessfulRequests = False, lim_ByEmail = ByEmail\<rparr>)"

record cors_config =
  AllowOrigins :: string
  AllowMethods :: string
  AllowHeaders :: string
  AllowCredentials :: bool

definition CORS :: "CORSConfig \<Rightarrow> cors_config" where
  "CORS cfg =
     \<lparr>AllowOrigins = cors_AllowOrigins cfg, AllowMethods = cors_AllowMethods cfg, AllowHeaders = cors_AllowHeaders cfg,
      AllowCredentials = cors_AllowCredentials cfg\<rparr>"

section \<open>Lemmas\<close>

text \<open>Behind the two middlewares, whichever runs last, every reader agrees: the id of the request is the
  one the client gets back, and the user is the one of the token. The handlers of the model read the user
  from \<open>Local_UserID\<close>, the same local.\<close>

lemma request_id_agrees:
  "RequestIDFrom (RequestID_scope uuid header s) = RequestID uuid header"
  "RequestIDFromContext (RequestID_scope uuid header s) = RequestID uuid header"
  "ResponseHeader (RequestID_scope uuid header s) ''X-Request-ID'' = Some (RequestID uuid header)"
  by (simp_all add: RequestID_scope_def RequestIDFrom_def RequestIDFromContext_def Let_def)

lemma request_id_survives:
  "RequestIDFrom (JWTAuth_scope claims s) = RequestIDFrom s"
  "RequestIDFromContext (JWTAuth_scope claims s) = RequestIDFromContext s"
  "UserID (RequestID_scope uuid header s) = UserID s"
  by (simp_all add: JWTAuth_scope_def RequestID_scope_def RequestIDFrom_def RequestIDFromContext_def UserID_def Let_def
      requestIDLocalsKey_def userIDLocalsKey_def requestIDContextKey_def userIDContextKey_def)

lemma user_agrees:
  "UserIDFromContext (JWTAuth_scope claims s) = (Claims_UserID claims, is_Ok (UserID (JWTAuth_scope claims s)))"
  "UserID (JWTAuth_scope claims s) = ctx_UserID (c\<lparr>Local_UserID := Some (Claims_UserID claims)\<rparr>)"
  by (simp_all add: JWTAuth_scope_def UserIDFromContext_def UserID_def ctx_UserID_def)

lemma nobody_without_token: "Locals s userIDLocalsKey = None \<Longrightarrow> UserID s = ctx_UserID (c\<lparr>Local_UserID := None\<rparr>)"
  by (simp add: UserID_def ctx_UserID_def)

end
