(* ===== verification/ErrorContract.thy ===== *)
theory ErrorContract
  imports Samples
begin

text \<open>
  What a client can see of a failure. An error is a tree of wrapped errors, and the first application
  error in it is what \<open>Fail\<close> renders. \<open>within S T e\<close> says what the tree of \<open>e\<close> may hold: of the sentinels
  that a handler translates those in \<open>S\<close>, of the application errors those that are shown as one of \<open>T\<close>
  (a status, a code and a message), and no Fiber error. The ports of the services have such contracts,
  the use cases have theirs by the locale \<open>auth_errors\<close> and its interpretation, and in the end every
  endpoint has a table of the failures it can answer with (\<open>documented_errors\<close>).
\<close>

section \<open>What an error may hold\<close>

text \<open>Status, code and message.\<close>

type_synonym public_error = "int \<times> string \<times> string"

text \<open>The sentinels that a handler translates.\<close>

definition auth_answers :: "(sentinel \<times> public_error) list" where
  "auth_answers =
     [(ErrEmailAlreadyExists, 409, ''email_already_registered'', ''that email is already registered''),
      (ErrInvalidCredentials, 401, ''invalid_credentials'', ''the email or password is incorrect''),
      (ErrUserNotFound, 404, ''user_not_found'', ''the user does not exist''),
      (ErrInvalidVerificationCode, 400, ''invalid_verification_code'', ''the verification code is not valid or has expired''),
      (ErrEmailAlreadyVerified, 409, ''email_already_verified'', ''this address is already verified, please sign in''),
      (ErrEmailNotVerified, 403, ''email_not_verified'', ''confirm your email address before signing in''),
      (ErrInvalidResetToken, 400, ''invalid_reset_token'', ''this reset link is not valid or has expired'')]"

definition progress_answers :: "(sentinel \<times> public_error) list" where
  "progress_answers =
     [(ErrProgressNotFound, 404, ''progress_not_found'', ''no progress has been saved yet''),
      (ErrUnknownOwner, 401, ''invalid_token'', ''the account in the access token no longer exists''),
      (ErrInvalidAnswer, 400, ''invalid_answer'', ''the kana or the skill is not one this server can score''),
      (ErrProtectedField, 400, ''protected_field'', ''that field is maintained by the server and cannot be patched''),
      (ErrUnreadablePatch, 400, ''invalid_patch'', ''the patch must be a JSON object of fields to merge''),
      (ErrEmptyPatch, 400, ''empty_patch'', ''the patch must be a JSON object with at least one field''),
      (ErrInvalidLesson, 400, ''invalid_lesson'', ''the lesson identifier is not valid''),
      (ErrUnsupportedSchema, 409, ''unsupported_schema_version'',
        ''the stored document uses a schema version this server does not support''),
      (ErrUnreadableDocument, 409, ''unreadable_document'', ''the stored document cannot be read; replace it with PUT /progress'')]"

definition translated :: "sentinel set" where
  "translated = fst ` set auth_answers \<union> fst ` set progress_answers"

fun may_hold :: "sentinel set \<Rightarrow> public_error set \<Rightarrow> goerr \<Rightarrow> bool" where
  "may_hold S T (Sentinel s) = (s \<in> translated \<longrightarrow> s \<in> S)"
| "may_hold S T (AppError k ec m fs ca) = ((HTTPStatus_of_Kind k, ec, m) \<in> T \<and> (fs = [] \<or> ec = ''validation_failed''))"
| "may_hold S T (FiberError n m) = False"
| "may_hold S T e = True"

definition within :: "sentinel set \<Rightarrow> public_error set \<Rightarrow> goerr \<Rightarrow> bool" where
  "within S T e \<longleftrightarrow> (\<forall>x \<in> set (error_chain e). may_hold S T x)"

lemma within_simps [simp]:
  "within S T (Sentinel s) \<longleftrightarrow> (s \<in> translated \<longrightarrow> s \<in> S)" "within S T (LibError m)" "within S T (MySQLError n)"
  "within S T (Errorf m es) \<longleftrightarrow> (\<forall>e \<in> set es. within S T e)"
  "within S T (AppError k ec m fs None) \<longleftrightarrow> (HTTPStatus_of_Kind k, ec, m) \<in> T \<and> (fs = [] \<or> ec = ''validation_failed'')"
  "within S T (AppError k ec m fs (Some e)) \<longleftrightarrow>
     (HTTPStatus_of_Kind k, ec, m) \<in> T \<and> (fs = [] \<or> ec = ''validation_failed'') \<and> within S T e"
  by (auto simp: within_def)

lemma may_hold_mono: "may_hold S T x \<Longrightarrow> S \<subseteq> S' \<Longrightarrow> T \<subseteq> T' \<Longrightarrow> may_hold S' T' x"
  by (cases x) auto

lemma within_mono: "within S T e \<Longrightarrow> S \<subseteq> S' \<Longrightarrow> T \<subseteq> T' \<Longrightarrow> within S' T' e"
  unfolding within_def using may_hold_mono by blast

lemma within_Is: "within S T e \<Longrightarrow> errors_Is e s \<Longrightarrow> s \<in> translated \<Longrightarrow> s \<in> S"
  unfolding within_def errors_Is_def by force

text \<open>A sentinel that was looked for and not found.\<close>

lemma within_not_Is:
  assumes "within (insert s S) T e" "\<not> errors_Is e s"
  shows "within S T e"
proof -
  have "may_hold S T x" if "x \<in> set (error_chain e)" for x
    using assms that unfolding within_def errors_Is_def by (cases x) fastforce+
  then show ?thesis by (simp add: within_def)
qed

definition result_within :: "sentinel set \<Rightarrow> public_error set \<Rightarrow> 'a result \<Rightarrow> bool" where
  "result_within S T r \<longleftrightarrow> (\<forall>e. r = Err e \<longrightarrow> within S T e)"

definition errs :: "sentinel set \<Rightarrow> public_error set \<Rightarrow> ('w, 'a) proc \<Rightarrow> bool" where
  "errs S T m \<longleftrightarrow> (\<forall>w. result_within S T (fst (m w)))"

named_theorems errs_intros \<open>introduction rules of what the errors of a step may hold\<close>

lemma result_within_simps [simp]:
  "result_within S T (Ok x)" "result_within S T (Panic m)" "result_within S T (Err e) \<longleftrightarrow> within S T e"
  by (simp_all add: result_within_def)

lemma result_within_bind: "result_within S T r \<Longrightarrow> (\<And>x. result_within S T (k x)) \<Longrightarrow> result_within S T (result_bind r k)"
  by (cases r) simp_all

lemma result_within_wrap: "result_within S T r \<Longrightarrow> result_within S T (result_map_err (\<lambda>e. Errorf m [e]) r)"
  by (cases r) simp_all

lemma result_within_mono: "result_within S T r \<Longrightarrow> S \<subseteq> S' \<Longrightarrow> T \<subseteq> T' \<Longrightarrow> result_within S' T' r"
  unfolding result_within_def using within_mono by blast

lemma errsI: "(\<And>w. result_within S T (fst (m w))) \<Longrightarrow> errs S T m"
  by (simp add: errs_def)

lemma errsD: "errs S T m \<Longrightarrow> m w = (Err e, w1) \<Longrightarrow> within S T e"
  unfolding errs_def by (metis fst_conv result_within_simps(3))

lemma errs_mono: "errs S T m \<Longrightarrow> S \<subseteq> S' \<Longrightarrow> T \<subseteq> T' \<Longrightarrow> errs S' T' m"
  unfolding errs_def using result_within_mono by blast

section \<open>The steps of a use case\<close>

lemma errs_lift [errs_intros]: "result_within S T r \<Longrightarrow> errs S T (lift r)"
  by (simp add: errs_def)

lemma errs_andThen [errs_intros]:
  assumes "errs S T m" "\<And>x. errs S T (k x)"
  shows "errs S T (andThen m k)"
proof (rule errsI)
  fix w
  obtain r w1 where m: "m w = (r, w1)" by fastforce
  moreover have "result_within S T r" using assms(1) m unfolding errs_def by (metis fst_conv)
  ultimately show "result_within S T (fst (andThen m k w))"
    using assms(2) by (cases r) (simp_all add: andThen_def errs_def)
qed

lemma errs_onErr:
  assumes "errs S T m" "\<And>e. within S T e \<Longrightarrow> within S' T' (f e)"
  shows "errs S' T' (onErr f m)"
proof (rule errsI)
  fix w
  obtain r w1 where m: "m w = (r, w1)" by fastforce
  moreover have "result_within S T r" using assms(1) m unfolding errs_def by (metis fst_conv)
  ultimately show "result_within S' T' (fst (onErr f m w))"
    using assms(2) by (cases r) (simp_all add: onErr_def)
qed

lemma errs_wrap [errs_intros]: "errs S T m \<Longrightarrow> errs S T (onErr (\<lambda>err. Errorf s [err]) m)"
  by (rule errs_onErr) simp_all

lemma errs_replace [errs_intros]: "within S T e \<Longrightarrow> errs S T (onErr (\<lambda>_. e) m)"
  by (rule errsI) (auto simp: onErr_def result_within_def split: prod.split elim: result_map_err.elims)

lemma errs_lookup [errs_intros]:
  assumes "errs (insert missing S) T m" "within S T known"
  shows "errs S T (onErr (lookup_error missing known s) m)"
  by (rule errs_onErr [OF assms(1)]) (use assms(2) within_not_Is in \<open>auto simp: lookup_error_def\<close>)

lemma errs_no_rows [errs_intros]:
  assumes "errs S T m" "within S T e"
  shows "errs S T (onErr (\<lambda>err. if errors_Is err s then e else Errorf t [err]) m)"
  by (rule errs_onErr [OF assms(1)]) (use assms(2) in simp)

text \<open>An error that the use case inspects.\<close>

lemma errs_handling:
  assumes "errs S' T' m" "\<And>e. within S' T' e \<Longrightarrow> errs S T (k (Inl e))" "\<And>x. errs S T (k (Inr x))"
  shows "errs S T (handling m k)"
proof (rule errsI)
  fix w
  obtain r w1 where m: "m w = (r, w1)" by fastforce
  moreover have "result_within S' T' r" using assms(1) m unfolding errs_def by (metis fst_conv)
  ultimately show "result_within S T (fst (handling m k w))"
    using assms(2,3) by (cases r) (simp_all add: handling_def errs_def)
qed

lemma errs_swallow [errs_intros]: "(\<And>x. errs S T (k x)) \<Longrightarrow> errs S T (handling m k)"
  by (rule errsI) (auto simp: errs_def handling_def split: prod.splits result.splits)

lemma errs_If [errs_intros]: "(b \<Longrightarrow> errs S T m) \<Longrightarrow> (\<not> b \<Longrightarrow> errs S T n) \<Longrightarrow> errs S T (if b then m else n)"
  by simp

lemma errs_statement [errs_intros]: "errs S T f \<Longrightarrow> errs S T (statement f)"
  by (auto simp: errs_def statement_def split: list.splits)

section \<open>Values and stored rows\<close>

definition id_errors :: "public_error list" where
  "id_errors = [(400, ''invalid_id'', ''identifier must be positive'')]"

definition email_errors :: "public_error list" where
  "email_errors =
     [(400, ''invalid_email'', ''email is required''), (400, ''invalid_email'', ''email is too long''),
      (400, ''invalid_email'', ''email is not a valid address'')]"

definition account_errors :: "public_error list" where
  "account_errors = id_errors @ email_errors"

definition password_errors :: "public_error list" where
  "password_errors =
     [(400, ''weak_password'', ''the password must be at least 8 characters long''),
      (400, ''weak_password'', ''the password must be at most 72 bytes long'')]"

definition profile_errors :: "public_error list" where
  "profile_errors =
     [(400, ''invalid_profile'', ''the name is required''), (400, ''invalid_profile'', ''the name must be at most 80 characters long''),
      (400, ''invalid_profile'', ''the name must not contain control characters''),
      (400, ''invalid_profile'', ''that is not a gender this server stores''),
      (400, ''invalid_profile'', ''the timezone name is too long''),
      (400, ''invalid_profile'', ''the timezone must be a specific IANA zone, such as America/Lima''),
      (400, ''invalid_profile'', ''that is not a timezone this server knows''),
      (400, ''invalid_profile'', ''the birthday cannot be in the future''), (400, ''invalid_profile'', ''the birthday must be after 1900''),
      (400, ''invalid_profile'', ''the birthday must be a date in the form YYYY-MM-DD'')]"

definition data_errors :: "public_error list" where
  "data_errors =
     [(400, ''invalid_progress_data'', ''data is required''), (400, ''invalid_progress_data'', ''data must be at most 262144 bytes''),
      (400, ''invalid_progress_data'', ''data must be a valid JSON document'')]"

lemmas error_lists = id_errors_def email_errors_def password_errors_def profile_errors_def data_errors_def

lemma apperror_eq:
  "Validation ec m = AppError KindValidation ec m [] None" "WithCause (Validation ec m) e = AppError KindValidation ec m [] (Some e)"
  by (simp_all add: Validation_def newError_def)

lemma within_values:
  "set id_errors \<subseteq> T \<Longrightarrow> result_within S T (NewID n)"
  "set email_errors \<subseteq> T \<Longrightarrow> result_within S T (NewEmail mlib raw)"
  "set password_errors \<subseteq> T \<Longrightarrow> result_within S T (checkPasswordLength p)"
  "set profile_errors \<subseteq> T \<Longrightarrow> result_within S T (normaliseProfile lib pf t)"
  "set profile_errors \<subseteq> T \<Longrightarrow> result_within S T (profile_of_request req)"
  "set data_errors \<subseteq> T \<Longrightarrow> result_within S T (validateData d)"
proof -
  show "set id_errors \<subseteq> T \<Longrightarrow> result_within S T (NewID n)"
    by (simp add: NewID_def apperror_eq id_errors_def)
  show "set email_errors \<subseteq> T \<Longrightarrow> result_within S T (NewEmail mlib raw)"
    by (auto simp: NewEmail_def Let_def apperror_eq email_errors_def split: sum.split)
  show "set password_errors \<subseteq> T \<Longrightarrow> result_within S T (checkPasswordLength p)"
    by (simp add: checkPasswordLength_def apperror_eq password_errors_def)
  show "set profile_errors \<subseteq> T \<Longrightarrow> result_within S T (normaliseProfile lib pf t)"
    unfolding normaliseProfile_def normaliseTimezone_def invalidProfile_def Let_def apperror_eq
    by (auto simp: profile_errors_def intro!: result_within_bind split: option.split)
  show "set profile_errors \<subseteq> T \<Longrightarrow> result_within S T (profile_of_request req)"
    by (auto simp: profile_of_request_def Let_def apperror_eq profile_errors_def split: option.split)
  show "set data_errors \<subseteq> T \<Longrightarrow> result_within S T (validateData d)"
    by (simp add: validateData_def apperror_eq data_errors_def)
qed

lemma within_rows:
  "set account_errors \<subseteq> T \<Longrightarrow> result_within S T (user_of_row lib r)"
  "set id_errors \<subseteq> T \<Longrightarrow> result_within S T (verification_of_row c)" "set id_errors \<subseteq> T \<Longrightarrow> result_within S T (reset_of_row s)"
  unfolding user_of_row_def verification_of_row_def reset_of_row_def account_errors_def
  by (intro result_within_bind result_within_wrap within_values; simp)+

section \<open>The ports\<close>

lemma errs_query [errs_intros]: "set account_errors \<subseteq> T \<Longrightarrow> ErrUserNotFound \<in> S \<Longrightarrow> errs S T (queryOne lib p)"
  unfolding queryOne_def
  by (intro errs_intros within_rows) (simp_all add: errs_def translated_def auth_answers_def progress_answers_def split: option.split)

lemma errs_update [errs_intros]: "errs S T (update_user i f)"
  unfolding update_user_def by (intro errs_intros) (simp add: errs_def)

lemma within_one_row: "ErrUserNotFound \<in> S \<Longrightarrow> result_within S T (requireOneRow n)"
  by (simp add: requireOneRow_def)

lemma errs_users:
  assumes "set account_errors \<subseteq> T" "ErrUserNotFound \<in> S"
  shows "errs S T (mysql_FindByID lib i)" "errs S T (mysql_FindByEmail lib e)" "errs S T (mysql_TouchActivity lib i d)"
    "errs S T (mysql_MarkEmailVerified lib i t)" "errs S T (mysql_SaveProfile lib i p)"
    "ErrEmailAlreadyExists \<in> S \<Longrightarrow> errs S T (mysql_Create lib u)"
proof -
  have ids: "set id_errors \<subseteq> T" using assms(1) by (simp add: account_errors_def)
  show find: "errs S T (mysql_FindByID lib i)" "errs S T (mysql_FindByEmail lib e)" for i e
    unfolding mysql_FindByID_def mysql_FindByEmail_def by (rule errs_query [OF assms])+
  show "errs S T (mysql_TouchActivity lib i d)" "errs S T (mysql_MarkEmailVerified lib i t)" "errs S T (mysql_SaveProfile lib i p)"
    unfolding mysql_TouchActivity_def mysql_MarkEmailVerified_def mysql_SaveProfile_def
    by (intro errs_intros find within_one_row assms(2))+
  have insert: "errs S T (insert_user u)"
    unfolding insert_user_def by (intro errs_statement) (simp add: errs_def)
  show "errs S T (mysql_Create lib u)" if "ErrEmailAlreadyExists \<in> S"
    unfolding mysql_Create_def
    by (intro errs_andThen errs_onErr [OF insert] errs_wrap errs_lift within_values ids find) (use that in simp)
qed

lemma errs_password: "ErrUserNotFound \<in> S \<Longrightarrow> errs S T (mysql_UpdatePassword i h)"
  unfolding mysql_UpdatePassword_def by (intro errs_intros within_one_row)

lemma errs_secrets:
  "errs S T (mysql_PutVerification v)" "errs S T (mysql_RecordVerificationAttempt i)" "errs S T (mysql_ConsumeVerification i t)"
  "errs S T (mysql_PutReset r)" "errs S T (mysql_ConsumeReset i t)"
  "set id_errors \<subseteq> T \<Longrightarrow> errs S T (mysql_FindVerification i)" "set id_errors \<subseteq> T \<Longrightarrow> errs S T (mysql_FindResetByHash h)"
  unfolding mysql_PutVerification_def mysql_RecordVerificationAttempt_def mysql_ConsumeVerification_def mysql_PutReset_def
    mysql_ConsumeReset_def mysql_FindVerification_def mysql_FindResetByHash_def update_code_def Let_def
  by (intro errs_intros within_rows;
      simp add: errs_def translated_def auth_answers_def progress_answers_def split: option.split)+

lemma errs_clock [errs_intros]: "errs S T read_clock"
  by (simp add: errs_def read_clock_def)

lemma errs_draw [errs_intros]: "errs S T draw"
  by (simp add: errs_def draw_def split: list.split)

lemma errs_generators: "errs S T secret_VerificationCode" "errs S T secret_ResetToken"
  unfolding secret_VerificationCode_def secret_ResetToken_def rand_Int_def rand_Read_def Let_def by (intro errs_intros; simp)+

text \<open>Of the cryptographic libraries it is assumed that their errors are their own: they hold no
  application error, no Fiber error and no sentinel of the modules.\<close>

definition crypto_plain :: "crypto_lib \<Rightarrow> bool" where
  "crypto_plain lib \<longleftrightarrow>
     (\<forall>cost salt p. result_within {} {} (bcrypt_Generate lib cost salt p)) \<and> (\<forall>alg k c. result_within {} {} (jwt_Sign lib alg k c))"

lemma errs_crypto:
  assumes "crypto_plain lib"
  shows "errs S T (hasher_Hash lib cost p)" "errs S T (jwt_Issue lib m i)"
proof -
  have "result_within S T (bcrypt_Generate lib cost salt p)" "result_within S T (jwt_Sign lib alg k c)" for cost salt p alg k c
    using assms result_within_mono [of "{}" "{}" _ S T] unfolding crypto_plain_def by blast+
  then show "errs S T (hasher_Hash lib cost p)" "errs S T (jwt_Issue lib m i)"
    unfolding hasher_Hash_def jwt_Issue_def Let_def by (intro errs_intros; simp)+
qed

section \<open>The use cases of the accounts\<close>

text \<open>What the errors of the ports may hold, for any sets that have what they need; of the hasher and the
  signer only if their libraries are \<open>plain\<close>.\<close>

locale auth_errors =
  fixes s :: "'w AuthService" and plain :: bool
  assumes users: "set account_errors \<subseteq> T \<Longrightarrow> ErrUserNotFound \<in> S \<Longrightarrow> errs S T (FindByID (Repo s) i)"
      "set account_errors \<subseteq> T \<Longrightarrow> ErrUserNotFound \<in> S \<Longrightarrow> errs S T (FindByEmail (Repo s) e)"
      "set account_errors \<subseteq> T \<Longrightarrow> ErrUserNotFound \<in> S \<Longrightarrow> errs S T (TouchActivity (Repo s) i d)"
      "set account_errors \<subseteq> T \<Longrightarrow> ErrUserNotFound \<in> S \<Longrightarrow> errs S T (MarkEmailVerified (Repo s) i t)"
      "set account_errors \<subseteq> T \<Longrightarrow> ErrUserNotFound \<in> S \<Longrightarrow> errs S T (PutProfile (Repo s) i pf)"
      "set account_errors \<subseteq> T \<Longrightarrow> ErrUserNotFound \<in> S \<Longrightarrow> ErrEmailAlreadyExists \<in> S \<Longrightarrow> errs S T (Create (Repo s) u)"
      "ErrUserNotFound \<in> S \<Longrightarrow> errs S T (UpdatePassword (Repo s) i h)"
    and secrets: "errs S T (PutVerification (Verifications s) v)" "errs S T (ConsumeVerification (Verifications s) i t)"
      "errs S T (PutReset (Resets s) r)" "errs S T (ConsumeReset (Resets s) i t)"
      "set id_errors \<subseteq> T \<Longrightarrow> errs S T (FindVerification (Verifications s) i)"
      "set id_errors \<subseteq> T \<Longrightarrow> errs S T (FindResetByHash (Resets s) h)"
    and crypto: "plain \<Longrightarrow> errs S T (Hash s p)" "plain \<Longrightarrow> errs S T (Issue s n)"
    and others: "errs S T (VerificationCode s)" "errs S T (ResetToken s)" "errs S T (Clock s)"
    and snapshot: "Snapshot s = Some sn \<Longrightarrow> set id_errors \<subseteq> T \<Longrightarrow> errs S T (sn n)"
begin

lemma errs_session: "plain \<Longrightarrow> errs S T (openSession s u)"
  unfolding openSession_def by (intro errs_intros crypto) (auto split: prod.split intro: errs_lift)

lemma errs_code: "errs S T (issueVerificationCode s u)"
  unfolding issueVerificationCode_def by (intro errs_intros others secrets) simp

lemma within_email: "set account_errors \<subseteq> T \<Longrightarrow> result_within S T (email_of s raw)"
  unfolding email_of_def by (rule within_values) (simp add: account_errors_def)

lemma errs_Register:
  assumes "set (account_errors @ password_errors) \<subseteq> T" "{ErrUserNotFound, ErrEmailAlreadyExists} \<subseteq> S"
    and plain
  shows "errs S T (Register s creds)"
proof -
  have T: "set account_errors \<subseteq> T" "set password_errors \<subseteq> T" and S: "ErrUserNotFound \<in> S" "ErrEmailAlreadyExists \<in> S"
    using assms by auto
  show ?thesis
    unfolding Register_def
    by (intro errs_andThen errs_lift within_email within_values T errs_handling [OF users(2) [OF T(1) S(1)]];
        simp only: sum.case)
      (intro errs_intros crypto others users errs_session assms(3) T S insertI2; simp add: S errs_lift)+
qed

lemma errs_Login:
  assumes "set account_errors \<subseteq> T" "{ErrUserNotFound, ErrInvalidCredentials, ErrEmailNotVerified} \<subseteq> S"
    and plain
  shows "errs S T (Login s creds)"
proof -
  have S: "ErrUserNotFound \<in> S" "ErrInvalidCredentials \<in> S" "ErrEmailNotVerified \<in> S" using assms(2) by auto
  show ?thesis
    unfolding Login_def by (intro errs_intros crypto others users errs_session assms(3) within_email assms(1) S insertI2; simp add: S)
qed

lemma errs_FindByID:
  assumes "set account_errors \<subseteq> T" "ErrUserNotFound \<in> S"
  shows "errs S T (service_FindByID s n)"
proof -
  have ids: "set id_errors \<subseteq> T" using assms(1) by (simp add: account_errors_def)
  show ?thesis
    unfolding service_FindByID_def by (intro errs_intros users within_values ids assms insertI2; simp add: assms)
qed

lemma errs_Me:
  assumes "set account_errors \<subseteq> T" "ErrUserNotFound \<in> S"
  shows "errs S T (service_Me s n)"
proof (cases "Snapshot s")
  case None
  then show ?thesis unfolding service_Me_def by simp (intro errs_intros errs_FindByID assms; simp)
next
  case (Some sn)
  have "set id_errors \<subseteq> T" using assms(1) by (simp add: account_errors_def)
  with Some show ?thesis
    unfolding service_Me_def by simp (intro errs_intros errs_FindByID snapshot assms; simp)
qed

lemma errs_SaveProfile:
  assumes "set (account_errors @ profile_errors) \<subseteq> T" "ErrUserNotFound \<in> S"
  shows "errs S T (SaveProfile s n pf)"
proof -
  have T: "set id_errors \<subseteq> T" "set account_errors \<subseteq> T" "set profile_errors \<subseteq> T" using assms(1) by (auto simp: account_errors_def)
  show ?thesis
    unfolding SaveProfile_def by (intro errs_intros others users within_values T assms insertI2; simp add: assms)
qed

lemma errs_VerifyEmail:
  assumes "set account_errors \<subseteq> T" "{ErrUserNotFound, ErrInvalidVerificationCode, ErrEmailAlreadyVerified} \<subseteq> S"
    and plain
  shows "errs S T (VerifyEmail s e cd)"
proof -
  have ids: "set id_errors \<subseteq> T" using assms(1) by (simp add: account_errors_def)
  have S: "ErrUserNotFound \<in> S" "ErrInvalidVerificationCode \<in> S" "ErrEmailAlreadyVerified \<in> S" using assms(2) by auto
  show ?thesis
    unfolding VerifyEmail_def by (intro errs_intros crypto others users secrets errs_session assms(3) within_email ids assms(1) S insertI2; simp add: S)
qed

lemma silent:
  assumes "set account_errors \<subseteq> T" "\<And>x. errs S T (k (Inr x))" "\<And>e. within (insert ErrUserNotFound S) T e \<Longrightarrow> errs S T (k (Inl e))"
  shows "errs S T (handling (FindByEmail (Repo s) e) k)"
  by (rule errs_handling [OF users(2) [OF assms(1) insertI1]]) (rule assms(2,3); assumption)+

lemma errs_ResendVerification:
  assumes "set account_errors \<subseteq> T"
  shows "errs S T (ResendVerification s e)"
proof (cases "silentEmail s e")
  case (Some a)
  show ?thesis
    unfolding ResendVerification_def Some option.case
    by (rule silent [OF assms]; simp only: sum.case) (auto intro!: errs_intros errs_code dest: within_not_Is)
qed (simp add: ResendVerification_def errs_lift)

lemma errs_ForgotPassword:
  assumes "set account_errors \<subseteq> T"
  shows "errs S T (ForgotPassword s e)"
proof (cases "silentEmail s e")
  case (Some a)
  show ?thesis
    unfolding ForgotPassword_def Some option.case
    by (rule silent [OF assms]; simp only: sum.case) (auto intro!: errs_intros others secrets dest: within_not_Is)
qed (simp add: ForgotPassword_def errs_lift)

lemma errs_ResetPassword:
  assumes "set (id_errors @ password_errors) \<subseteq> T" "{ErrUserNotFound, ErrInvalidResetToken} \<subseteq> S"
    and plain
  shows "errs S T (ResetPassword s tk p)"
proof -
  have T: "set id_errors \<subseteq> T" "set password_errors \<subseteq> T" and S: "ErrUserNotFound \<in> S" "ErrInvalidResetToken \<in> S"
    using assms by auto
  show ?thesis
    unfolding ResetPassword_def by (intro errs_intros crypto others users secrets within_values assms(3) T S insertI2; simp add: S)
qed

end

section \<open>The use cases of progress\<close>

definition patch_errors :: "public_error list" where
  "patch_errors = (400, ''invalid_progress_data'', ''the patch must be at most 262144 bytes'') # data_errors"

text \<open>What goes wrong with a stored document, and with any change of one.\<close>

abbreviation document_sentinels :: "sentinel set" where
  "document_sentinels \<equiv> {ErrUnreadableDocument, ErrUnsupportedSchema}"

abbreviation change_sentinels :: "sentinel set" where
  "change_sentinels \<equiv> {ErrUnreadableDocument, ErrUnsupportedSchema, ErrProgressNotFound, ErrUnknownOwner}"

lemma within_unreadable: "ErrUnreadableDocument \<in> S \<Longrightarrow> result_within S T (unreadable m)"
  by (simp add: unreadable_def)

lemma within_readers:
  assumes "document_sentinels \<subseteq> S"
  shows "result_within S T (parseDocument raw)" "result_within S T (skills doc)" "result_within S T (mastery doc)"
    "result_within S T (lessons doc)" "result_within S T (attempts doc)"
proof -
  have S: "ErrUnreadableDocument \<in> S" "ErrUnsupportedSchema \<in> S" using assms by auto
  note u = within_unreadable [OF S(1)]
  have "result_within S T (schemaVersion doc)" for doc
    unfolding schemaVersion_def by (auto intro: u split: option.split)
  then show "result_within S T (parseDocument raw)"
    unfolding parseDocument_def by (auto simp: S intro!: u result_within_bind split: option.split gmap.split)
  show "result_within S T (skills doc)" "result_within S T (mastery doc)" "result_within S T (lessons doc)" "result_within S T (attempts doc)"
    unfolding skills_def mastery_def lessons_def attempts_def by (auto intro: u split: option.split)
qed

lemma within_set_field: "result_within S T (set_field f j doc)"
  by (simp add: set_field_def split: option.split)

lemma within_writers:
  assumes "document_sentinels \<subseteq> S"
  shows "result_within S T (marshal doc)" "result_within S T (addLesson l doc)" "result_within S T (appendAttempt at doc)"
    "result_within S T (gradeScores a doc)"
proof -
  have put: "result_within S T (gmap_put k v m)" for k and v :: 'z and m by (cases m) simp_all
  show "result_within S T (marshal doc)" "result_within S T (addLesson l doc)" "result_within S T (appendAttempt at doc)"
    "result_within S T (gradeScores a doc)"
    unfolding marshal_def addLesson_def appendAttempt_def gradeScores_def Let_def
    by (intro result_within_bind within_set_field within_readers [OF assms] put; simp)+
qed

lemma within_inputs:
  "ErrInvalidAnswer \<in> S \<Longrightarrow> result_within S T (validateAnswer a)" "ErrInvalidLesson \<in> S \<Longrightarrow> result_within S T (validateLessonID l)"
  "set patch_errors \<subseteq> T \<Longrightarrow> {ErrEmptyPatch, ErrUnreadablePatch} \<subseteq> S \<Longrightarrow> result_within S T (parsePatch p)"
  "{ErrEmptyPatch, ErrProtectedField} \<subseteq> S \<Longrightarrow> result_within S T (merge_patch doc changes)"
  by (auto simp: validateAnswer_def validateLessonID_def parsePatch_def merge_patch_def apperror_eq patch_errors_def
      split: option.split gmap.split)

lemma errs_known [errs_intros]: "errs S T m \<Longrightarrow> errs S T (onErr (known_or s) m)"
  by (rule errs_onErr) (simp_all add: known_or_def)

locale progress_errors =
  fixes s :: "'w Service"
  assumes ports: "set id_errors \<subseteq> T \<Longrightarrow> ErrProgressNotFound \<in> S \<Longrightarrow> errs S T (FindByUserID (repo s) u)"
      "set id_errors \<subseteq> T \<Longrightarrow> {ErrProgressNotFound, ErrUnknownOwner} \<subseteq> S \<Longrightarrow> errs S T (Upsert (repo s) u d)"
      "set id_errors \<subseteq> T \<Longrightarrow> {ErrProgressNotFound, ErrUnknownOwner} \<subseteq> S \<Longrightarrow> (\<And>d. errs S T (fn d)) \<Longrightarrow> errs S T (Mutate (repo s) u fn)"
      "errs S T (clock s)"
begin

lemma errs_recordActivity: "errs S T (recordActivity s n)"
  unfolding recordActivity_def by (cases "activity s") (simp_all add: errs_lift errs_swallow)

lemma errs_Get:
  assumes "set id_errors \<subseteq> T" "ErrProgressNotFound \<in> S"
  shows "errs S T (Get s n)"
  unfolding Get_def by (intro errs_intros within_values ports assms)

lemma errs_Save:
  assumes "set (id_errors @ data_errors) \<subseteq> T" "{ErrProgressNotFound, ErrUnknownOwner} \<subseteq> S"
  shows "errs S T (Save s n d)"
proof -
  have T: "set id_errors \<subseteq> T" "set data_errors \<subseteq> T" using assms(1) by auto
  show ?thesis
    unfolding Save_def by (intro errs_intros within_values ports errs_recordActivity T assms(2); simp)
qed

lemma errs_mutate:
  assumes "set (id_errors @ data_errors) \<subseteq> T" "change_sentinels \<subseteq> S" "\<And>doc. errs S T (f doc)"
  shows "errs S T (mutate s u f)"
proof -
  have T: "set id_errors \<subseteq> T" "set data_errors \<subseteq> T" and S: "document_sentinels \<subseteq> S" "{ErrProgressNotFound, ErrUnknownOwner} \<subseteq> S"
    using assms(1,2) by auto
  show ?thesis
    unfolding mutate_def mutation_def
    by (intro errs_intros within_values within_readers within_writers ports T S assms(3); simp)
qed

lemma errs_RecordAnswer:
  assumes "set (id_errors @ data_errors) \<subseteq> T" "insert ErrInvalidAnswer change_sentinels \<subseteq> S"
  shows "errs S T (RecordAnswer s n a)"
proof -
  have T: "set id_errors \<subseteq> T" and S: "document_sentinels \<subseteq> S" "change_sentinels \<subseteq> S" "ErrInvalidAnswer \<in> S"
    using assms by auto
  show ?thesis
    unfolding RecordAnswer_def gradeAnswer_def
    by (intro errs_andThen errs_lift within_values within_inputs within_writers errs_mutate errs_recordActivity ports T S assms(1); simp)
qed

lemma errs_CompleteLesson:
  assumes "set (id_errors @ data_errors) \<subseteq> T" "insert ErrInvalidLesson change_sentinels \<subseteq> S"
  shows "errs S T (CompleteLesson s n l)"
proof -
  have T: "set id_errors \<subseteq> T" and S: "document_sentinels \<subseteq> S" "change_sentinels \<subseteq> S" "ErrInvalidLesson \<in> S"
    using assms by auto
  show ?thesis
    unfolding CompleteLesson_def Let_def
    by (intro errs_andThen errs_lift within_values within_inputs within_writers errs_mutate errs_recordActivity T S assms(1); simp)
qed

lemma errs_Merge:
  assumes "set (id_errors @ patch_errors) \<subseteq> T" "{ErrEmptyPatch, ErrUnreadablePatch, ErrProtectedField} \<union> change_sentinels \<subseteq> S"
  shows "errs S T (Merge s n p)"
proof -
  have T: "set id_errors \<subseteq> T" "set patch_errors \<subseteq> T" "set (id_errors @ data_errors) \<subseteq> T"
    and S: "{ErrEmptyPatch, ErrUnreadablePatch} \<subseteq> S" "{ErrEmptyPatch, ErrProtectedField} \<subseteq> S" "change_sentinels \<subseteq> S"
    using assms by (auto simp: patch_errors_def)
  show ?thesis
    unfolding Merge_def by (intro errs_andThen errs_lift within_values within_inputs errs_mutate T S; simp)
qed

end

section \<open>The services of the program\<close>

lemma errs_select: "errs S T (select_progress u)"
  unfolding select_progress_def
  by (intro errs_statement) (simp add: errs_def translated_def auth_answers_def progress_answers_def split: option.split)

lemma errs_transaction: "errs S T body \<Longrightarrow> errs S T (transaction body)"
  unfolding errs_def transaction_def by (auto split: prod.splits result.splits) (metis fst_conv result_within_simps(3))

lemma errs_progress:
  assumes "set id_errors \<subseteq> T" "ErrProgressNotFound \<in> S"
  shows "errs S T (mysql_FindByUserID u)"
    and "ErrUnknownOwner \<in> S \<Longrightarrow> errs S T (mysql_Upsert u d)"
    and "ErrUnknownOwner \<in> S \<Longrightarrow> (\<And>d. errs S T (fn d)) \<Longrightarrow> errs S T (mysql_Mutate u fn)"
proof -
  show find: "errs S T (mysql_FindByUserID u)" for u
    unfolding mysql_FindByUserID_def by (intro errs_intros errs_select within_values assms(1); simp add: assms(2))
  have tx: "errs S T begin_tx" "errs S T commit_tx" "errs S T (upsert_progress u d)" for u d
    unfolding begin_tx_def commit_tx_def upsert_progress_def by (intro errs_statement; simp add: errs_def)+
  have written: "errs S T (onErr (write_error m) (upsert_progress u d))" if "ErrUnknownOwner \<in> S" for m u d
    by (rule errs_onErr [OF tx(3)]) (use that in \<open>simp add: write_error_def\<close>)
  show "ErrUnknownOwner \<in> S \<Longrightarrow> errs S T (mysql_Upsert u d)"
    unfolding mysql_Upsert_def by (intro errs_andThen written find)
  show "errs S T (mysql_Mutate u fn)" if "ErrUnknownOwner \<in> S" "\<And>d. errs S T (fn d)"
    unfolding mysql_Mutate_eq tx_body_def
    by (intro errs_andThen errs_wrap errs_transaction errs_handling [OF errs_select [of S T]] tx written find that)
      (auto intro: errs_lift)
qed

interpretation wired_progress_errors: progress_errors "wired_progress lib crypto c" for lib crypto c
  by unfold_locales (simp_all add: mysql_progress_repository_def errs_progress errs_clock)

lemma errs_snapshot:
  assumes "set id_errors \<subseteq> T"
  shows "errs S T (wired_snapshot lib crypto c n)"
  unfolding wired_snapshot_def
  by (rule errs_handling [OF wired_progress_errors.errs_Get [OF assms insertI1 [of _ S]]])
    (auto intro!: errs_lift dest: within_not_Is)

interpretation wired_auth_errors: auth_errors "wired_auth lib crypto c" "crypto_plain crypto" for lib crypto c
  by unfold_locales
    (auto simp: mysql_users_def mysql_verifications_def mysql_resets_def
      intro: errs_users errs_password errs_secrets errs_crypto errs_generators errs_clock errs_snapshot)

section \<open>What the handlers send\<close>

definition internal_error :: public_error where
  "internal_error = (500, ''internal_error'', ''something went wrong'')"

definition shown :: "public_error set \<Rightarrow> response \<Rightarrow> bool" where
  "shown T r \<longleftrightarrow> (\<exists>(status, ec, m) \<in> T. \<exists>fs. (fs = [] \<or> ec = ''validation_failed'') \<and>
     r = json_response status (enc_ErrorBody \<lparr>Error = ec, EMessage = m, Fields = fs\<rparr>))"

lemma shown_app:
  "(HTTPStatus_of_Kind k, ec, m) \<in> T \<Longrightarrow> fs = [] \<or> ec = ''validation_failed'' \<Longrightarrow> shown T (fail_response (AppError k ec m fs ca))"
  by (auto simp: shown_def fail_response_def)

lemma within_shown:
  assumes "within S T e" "internal_error \<in> T"
  shows "shown T (fail_response e)"
proof (cases "errors_As is_AppError e")
  case None
  have "errors_As is_FiberError e = None"
    using assms(1) unfolding errors_As_def find_None_iff within_def by (metis may_hold.simps(3) is_FiberError.elims(2))
  from Fail_opaque [OF None this] assms(2) show ?thesis
    by (force simp: shown_def fail_response_def internal_error_def)
next
  case (Some x)
  then obtain k ec m fs ca where x: "x = AppError k ec m fs ca" by (metis errors_As_Some is_AppErrorE)
  have "x \<in> set (error_chain e)" using Some by (auto simp: errors_As_def find_Some_iff)
  with assms(1) have "may_hold S T x" by (simp add: within_def)
  moreover have "fail_response e = fail_response x"
    using Some by (simp add: fail_response_def Fail_def toAppError_def x)
  ultimately show ?thesis using shown_app [of k ec m T fs ca] by (simp add: x)
qed

text \<open>A translated sentinel shows as its answer.\<close>

definition answers_in :: "(sentinel \<times> public_error) list \<Rightarrow> sentinel list \<Rightarrow> public_error list" where
  "answers_in table ss = map snd (filter (\<lambda>x. fst x \<in> set ss) table)"

lemma within_If: "(b \<Longrightarrow> within S T x) \<Longrightarrow> (\<not> b \<Longrightarrow> within S T y) \<Longrightarrow> within S T (if b then x else y)"
  by simp

lemma within_answer:
  assumes "within (set ss) T e" "set (answers_in table ss) \<subseteq> T" "fst ` set table \<subseteq> translated"
    and "errors_Is e s" "(s, HTTPStatus_of_Kind k, ec, m) \<in> set table"
  shows "within (set ss) T (WithCause (newError k ec m) e)"
proof -
  have "s \<in> set ss" by (rule within_Is [OF assms(1,4)]) (use assms(3,5) in force)
  then have "(HTTPStatus_of_Kind k, ec, m) \<in> T" using assms(2,5) by (force simp: answers_in_def)
  with assms(1) show ?thesis by (simp add: newError_def)
qed

lemmas client_error_defs = Conflict_def Unauthorized_def NotFound_def Validation_def Forbidden_def TooManyRequests_def

lemma auth_translates:
  assumes "within (set ss) T e" "set (answers_in auth_answers ss) \<subseteq> T"
  shows "within (set ss) T (auth_toHTTPError e)"
proof -
  note a = within_answer [OF assms, unfolded translated_def, OF Un_upper1]
  show ?thesis
    unfolding auth_toHTTPError_def client_error_defs
    by (intro within_If assms(1); (rule a, assumption, simp add: auth_answers_def))
qed

lemma progress_translates:
  assumes "within (set ss) T e" "set (answers_in progress_answers ss) \<subseteq> T"
  shows "within (set ss) T (progress_toHTTPError e)"
proof -
  note a = within_answer [OF assms, unfolded translated_def, OF Un_upper2]
  show ?thesis
    unfolding progress_toHTTPError_def client_error_defs
    by (intro within_If assms(1); (rule a, assumption, simp add: progress_answers_def))
qed

text \<open>Every outcome of a handler is rendered, panics and errors too.\<close>

definition replies :: "int set \<Rightarrow> public_error set \<Rightarrow> ('w, response) proc \<Rightarrow> bool" where
  "replies N T m \<longleftrightarrow> (\<forall>w. Status (render_outcome (fst (m w))) \<in> N \<or> shown T (render_outcome (fst (m w))))"

lemma opaque_shown: "internal_error \<in> T \<Longrightarrow> shown T (fail_response (LibError m))"
  by (rule within_shown [where S = "{}"]) simp_all

lemma replies_fail: "shown T (fail_response e) \<Longrightarrow> replies N T (ret (fail_response e))"
  by (simp add: replies_def)

lemma replies_failing:
  assumes "\<And>w e w1. m w = (Err e, w1) \<Longrightarrow> shown T (fail_response (f e))" "\<And>x. replies N T (k x)" "internal_error \<in> T"
  shows "replies N T (or_fail f m k)"
  unfolding replies_def
proof
  fix w
  obtain r w1 where m: "m w = (r, w1)" by fastforce
  then show "Status (render_outcome (fst (or_fail f m k w))) \<in> N \<or> shown T (render_outcome (fst (or_fail f m k w)))"
    using assms(1,2) opaque_shown [OF assms(3)]
    by (cases r) (simp_all add: or_fail_def handling_def replies_def ErrorHandler_def)
qed

lemma replies_or_fail:
  assumes "errs S T' m" "\<And>e. within S T' e \<Longrightarrow> shown T (fail_response (f e))" "\<And>x. replies N T (k x)" "internal_error \<in> T"
  shows "replies N T (or_fail f m k)"
  by (rule replies_failing) (use assms errsD [OF assms(1)] in blast)+

lemma replies_sent:
  assumes "internal_error \<in> T"
  shows "replies {200} T (lift (OK j))" "replies {201} T (lift (Created j))" "replies {204} T (lift NoContent)"
    "replies {200} T (ret (send_document p))"
  using opaque_shown [OF assms]
  by (auto simp: replies_def OK_def Created_def NoContent_def send_JSON_def json_response_def send_document_def ErrorHandler_def
      split: option.split)

lemma replies_session:
  assumes "\<And>j. replies N T (lift (send j) :: (world, response) proc)"
  shows "replies N T (send_session send sess)"
  using assms unfolding send_session_def
  by (auto simp: replies_def andThen_def read_clock_def)

section \<open>What every endpoint can answer with\<close>

definition throttle_errors :: "public_error list" where
  "throttle_errors = [(429, ''too_many_requests'', ''too many attempts, please wait a moment and try again'')]"

definition body_errors :: "public_error list" where
  "body_errors = [(400, ''invalid_body'', ''the request body is not valid JSON''), (400, ''validation_failed'', ''the request payload is invalid'')]"

definition token_errors :: "public_error list" where
  "token_errors =
     [(401, ''missing_token'', ''an access token is required''),
      (401, ''invalid_token'', ''the Authorization header must use the Bearer scheme''), (401, ''invalid_token'', ''the access token is empty''),
      (401, ''invalid_token'', ''the access token is not valid''), (401, ''token_expired'', ''the access token has expired'')]"

text \<open>The status of a success, and the failures. Ids and addresses that do not parse are among them for
  stored rows too, and an account that is gone for a token that outlived it.\<close>

fun success_status :: "endpoint \<Rightarrow> int" where
  "success_status EP_Register = 201"
| "success_status EP_Logout = 204"
| "success_status EP_ResendVerification = 204"
| "success_status EP_ForgotPassword = 204"
| "success_status EP_ResetPassword = 204"
| "success_status e = 200"

definition progress_sentinels :: "sentinel list" where
  "progress_sentinels = [ErrProgressNotFound, ErrUnknownOwner]"

definition change_errors :: "sentinel list" where
  "change_errors = [ErrProgressNotFound, ErrUnknownOwner, ErrUnreadableDocument, ErrUnsupportedSchema]"

fun handler_errors :: "endpoint \<Rightarrow> public_error list" where
  "handler_errors EP_Register = body_errors @ account_errors @ password_errors @ answers_in auth_answers [ErrUserNotFound, ErrEmailAlreadyExists]"
| "handler_errors EP_Login =
     body_errors @ account_errors @ answers_in auth_answers [ErrUserNotFound, ErrInvalidCredentials, ErrEmailNotVerified]"
| "handler_errors EP_Logout = []"
| "handler_errors EP_VerifyEmail = body_errors @ account_errors @
     answers_in auth_answers [ErrUserNotFound, ErrInvalidVerificationCode, ErrEmailAlreadyVerified]"
| "handler_errors EP_ResendVerification = body_errors @ account_errors"
| "handler_errors EP_ForgotPassword = body_errors @ account_errors"
| "handler_errors EP_ResetPassword =
     body_errors @ id_errors @ password_errors @ answers_in auth_answers [ErrUserNotFound, ErrInvalidResetToken]"
| "handler_errors EP_Me = account_errors @ answers_in auth_answers [ErrUserNotFound]"
| "handler_errors EP_SaveProfile = body_errors @ account_errors @ profile_errors @ answers_in auth_answers [ErrUserNotFound]"
| "handler_errors EP_GetProgress = id_errors @ answers_in progress_answers [ErrProgressNotFound]"
| "handler_errors EP_SaveProgress = id_errors @ data_errors @ answers_in progress_answers progress_sentinels"
| "handler_errors EP_MergeProgress = id_errors @ patch_errors @
     answers_in progress_answers ([ErrEmptyPatch, ErrUnreadablePatch, ErrProtectedField] @ change_errors)"
| "handler_errors EP_Answer = body_errors @ id_errors @ data_errors @ answers_in progress_answers (ErrInvalidAnswer # change_errors)"
| "handler_errors EP_CompleteLesson = body_errors @ id_errors @ data_errors @ answers_in progress_answers (ErrInvalidLesson # change_errors)"

definition guard_errors :: "guard list \<Rightarrow> public_error list" where
  "guard_errors gs = concat (map (\<lambda>g. case g of Authenticated \<Rightarrow> token_errors | Throttled b \<Rightarrow> throttle_errors) gs)"

fun documented_errors :: "endpoint option \<Rightarrow> public_error list" where
  "documented_errors None = [(404, ''route_not_found'', ''the requested endpoint does not exist'')]"
| "documented_errors (Some e) = internal_error # guard_errors (guards_of e) @ handler_errors e"

fun successes :: "endpoint option \<Rightarrow> int set" where
  "successes None = {}"
| "successes (Some e) = {success_status e}"

lemma replies_parsed:
  assumes "set body_errors \<subseteq> T" "internal_error \<in> T" "\<And>req. replies N T (k req)"
  shows "replies N T (parsed lib dec rules c k)"
proof -
  have b: "errs {} T (lift (ParseBody lib dec c))"
    using assms(1) by (intro errs_lift) (simp add: ParseBody_def apperror_eq body_errors_def split: option.split)
  have v: "errs {} T (lift (validator_Struct lib fds))" for fds
    using assms(1) by (intro errs_lift) (simp add: validator_Struct_def apperror_eq body_errors_def split: list.split)
  have i: "within {} T e \<Longrightarrow> shown T (fail_response (id e))" for e
    using within_shown assms(2) by simp
  show ?thesis
    unfolding parsed_def by (rule replies_or_fail [OF b i], assumption, rule replies_or_fail [OF v i]) (rule assms | assumption)+
qed

lemma replies_user:
  assumes "set token_errors \<subseteq> T" "internal_error \<in> T" "\<And>u. replies N T (k u)"
  shows "replies N T (or_fail id (lift (ctx_UserID c)) k)"
proof (rule replies_or_fail [of "{}" T])
  show "errs {} T (lift (ctx_UserID c))"
    using assms(1) by (intro errs_lift) (simp add: ctx_UserID_def client_error_defs newError_def token_errors_def split: option.split)
qed (use within_shown assms in auto)

lemma replies_auth:
  assumes "errs (set ss) T m" "set (answers_in auth_answers ss) \<subseteq> T" "internal_error \<in> T" "\<And>x. replies N T (k x)"
  shows "replies N T (or_fail auth_toHTTPError m k)"
  by (rule replies_or_fail [OF assms(1) within_shown [OF auth_translates [OF _ assms(2)] assms(3)] assms(4,3)])

lemma replies_progress:
  assumes "errs (set ss) T m" "set (answers_in progress_answers ss) \<subseteq> T" "internal_error \<in> T" "\<And>x. replies N T (k x)"
  shows "replies N T (or_fail progress_toHTTPError m k)"
  by (rule replies_or_fail [OF assms(1) within_shown [OF progress_translates [OF _ assms(2)] assms(3)] assms(4,3)])

lemma replies_handler:
  assumes "crypto_plain (api_crypto a)" "internal_error \<in> T" "set (handler_errors e) \<subseteq> T" "Authenticated \<in> set (guards_of e) \<Longrightarrow> set token_errors \<subseteq> T"
  shows "replies {success_status e} T (handler_of a e c)"
proof -
  note A = wired_auth_errors.errs_Register [OF _ _ assms(1)] wired_auth_errors.errs_Login [OF _ _ assms(1)]
      wired_auth_errors.errs_VerifyEmail [OF _ _ assms(1)] wired_auth_errors.errs_ResendVerification wired_auth_errors.errs_ForgotPassword
      wired_auth_errors.errs_ResetPassword [OF _ _ assms(1)] wired_auth_errors.errs_Me wired_auth_errors.errs_SaveProfile
    and P = wired_progress_errors.errs_Get wired_progress_errors.errs_Save wired_progress_errors.errs_Merge
      wired_progress_errors.errs_RecordAnswer wired_progress_errors.errs_CompleteLesson
    and R = replies_parsed replies_user replies_session replies_sent [OF assms(2)] assms(2)
    and D = services_def fst_conv snd_conv handler_of.simps success_status.simps
  show ?thesis
  proof (cases e)
    case EP_Register
    show ?thesis using assms(3) unfolding EP_Register D handle_Register_def handler_errors.simps
      by (intro R replies_auth [where ss = "[ErrUserNotFound, ErrEmailAlreadyExists]"] A; simp)
  next
    case EP_Login
    show ?thesis using assms(3) unfolding EP_Login D handle_Login_def handler_errors.simps
      by (intro R replies_auth [where ss = "[ErrUserNotFound, ErrInvalidCredentials, ErrEmailNotVerified]"] A; simp)
  next
    case EP_Logout
    show ?thesis unfolding EP_Logout D handle_Logout_def by (intro R)
  next
    case EP_VerifyEmail
    show ?thesis using assms(3) unfolding EP_VerifyEmail D handle_VerifyEmail_def handler_errors.simps
      by (intro R replies_auth [where ss = "[ErrUserNotFound, ErrInvalidVerificationCode, ErrEmailAlreadyVerified]"] A; simp)
  next
    case EP_ResendVerification
    show ?thesis using assms(3) unfolding EP_ResendVerification D handle_ResendVerification_def handler_errors.simps
      by (intro R replies_auth [where ss = "[]"] A; simp add: answers_in_def)
  next
    case EP_ForgotPassword
    show ?thesis using assms(3) unfolding EP_ForgotPassword D handle_ForgotPassword_def handler_errors.simps
      by (intro R replies_auth [where ss = "[]"] A; simp add: answers_in_def)
  next
    case EP_ResetPassword
    show ?thesis using assms(3) unfolding EP_ResetPassword D handle_ResetPassword_def handler_errors.simps
      by (intro R replies_auth [where ss = "[ErrUserNotFound, ErrInvalidResetToken]"] A; simp)
  next
    case EP_Me
    have g: "set token_errors \<subseteq> T" using assms(4) by (simp add: EP_Me guards_of_def)
    show ?thesis using assms(3) unfolding EP_Me D handle_Me_def handler_errors.simps
      by (intro R g replies_auth [where ss = "[ErrUserNotFound]"] A; simp)
  next
    case EP_SaveProfile
    have g: "set token_errors \<subseteq> T" using assms(4) by (simp add: EP_SaveProfile guards_of_def)
    show ?thesis using assms(3) unfolding EP_SaveProfile D handle_SaveProfile_def handler_errors.simps
      by (intro R g replies_auth [where ss = "[ErrUserNotFound]"] A errs_lift within_values; simp)
  next
    case EP_GetProgress
    have g: "set token_errors \<subseteq> T" using assms(4) by (simp add: EP_GetProgress guards_of_def)
    show ?thesis using assms(3) unfolding EP_GetProgress D handle_Get_def handler_errors.simps
      by (intro R g replies_progress [where ss = "[ErrProgressNotFound]"] P; simp)
  next
    case EP_SaveProgress
    have g: "set token_errors \<subseteq> T" using assms(4) by (simp add: EP_SaveProgress guards_of_def)
    show ?thesis using assms(3) unfolding EP_SaveProgress D handle_Save_def handler_errors.simps
      by (intro R g replies_progress [where ss = progress_sentinels] P; simp add: progress_sentinels_def)
  next
    case EP_MergeProgress
    have g: "set token_errors \<subseteq> T" using assms(4) by (simp add: EP_MergeProgress guards_of_def)
    show ?thesis using assms(3) unfolding EP_MergeProgress D handle_Merge_def handler_errors.simps
      by (intro R g replies_progress [where ss = "[ErrEmptyPatch, ErrUnreadablePatch, ErrProtectedField] @ change_errors"] P;
          simp add: change_errors_def)
  next
    case EP_Answer
    have g: "set token_errors \<subseteq> T" using assms(4) by (simp add: EP_Answer guards_of_def)
    show ?thesis using assms(3) unfolding EP_Answer D handle_Answer_def handler_errors.simps parsed_def [symmetric]
      by (intro R g replies_progress [where ss = "ErrInvalidAnswer # change_errors"] P; simp add: change_errors_def)
  next
    case EP_CompleteLesson
    have g: "set token_errors \<subseteq> T" using assms(4) by (simp add: EP_CompleteLesson guards_of_def)
    show ?thesis using assms(3) unfolding EP_CompleteLesson D handle_CompleteLesson_def handler_errors.simps parsed_def [symmetric]
      by (intro R g replies_progress [where ss = "ErrInvalidLesson # change_errors"] P; simp add: change_errors_def)
  qed
qed

lemma replies_guarded:
  assumes "set (guard_errors gs) \<subseteq> T" "\<And>c. replies N T (h c)" "internal_error \<in> T"
  shows "replies N T (guarded a allowed gs h c)"
  using assms(1)
proof (induction gs arbitrary: c)
  case (Cons g gs)
  then have ih: "replies N T (guarded a allowed gs h c)" for c by (simp add: guard_errors_def)
  show ?case
  proof (cases g)
    case Authenticated
    then have T: "set token_errors \<subseteq> T" using Cons.prems by (simp add: guard_errors_def)
    then have shows_token: "shown T (fail_response (token_error e))"
        "shown T (fail_response (Unauthorized ''missing_token'' ''an access token is required''))"
        "shown T (fail_response (Unauthorized ''invalid_token'' ''the Authorization header must use the Bearer scheme''))"
        "shown T (fail_response (Unauthorized ''invalid_token'' ''the access token is empty''))" for e
      by (auto simp: token_error_def client_error_defs newError_def token_errors_def intro!: shown_app)
    then show ?thesis unfolding Authenticated guarded.simps JWTAuth_def Let_def
      by (auto intro!: replies_fail replies_failing ih assms(3))
  next
    case (Throttled b)
    then have "shown T (fail_response (TooManyRequests ''too_many_requests'' ''too many attempts, please wait a moment and try again''))"
      using Cons.prems by (auto simp: guard_errors_def throttle_errors_def client_error_defs newError_def intro!: shown_app)
    with Throttled ih show ?thesis by (simp add: RateLimit_def replies_fail)
  qed
qed (simp add: assms(2))

text \<open>A request, whatever the guards and the handler do with it.\<close>

lemma served:
  assumes "crypto_plain (api_crypto a)"
  shows "Status (fst (serve a allowed e c w)) \<in> successes e \<or> shown (set (documented_errors e)) (fst (serve a allowed e c w))"
proof (cases e)
  case None
  then show ?thesis
    by (simp add: serve_def ErrorHandler_def shown_def fail_response_def Fail_def toAppError_def NotFound_def newError_def)
next
  case (Some ep)
  let ?T = "set (documented_errors (Some ep))"
  have "set token_errors \<subseteq> ?T" if "Authenticated \<in> set (guards_of ep)"
    using that by (force simp: guard_errors_def)
  then have "replies {success_status ep} ?T (handler_of a ep c)" for c
    by (intro replies_handler assms) auto
  then have "replies {success_status ep} ?T (guarded a allowed (guards_of ep) (handler_of a ep) c)" for c
    by (intro replies_guarded) auto
  from this [unfolded replies_def, rule_format, of "c\<lparr>Local_UserID := None\<rparr>" w] show ?thesis
    by (simp add: Some serve_def case_prod_beta)
qed

lemma documented_500: "(500, x) \<in> set (documented_errors e) \<Longrightarrow> (500, x) = internal_error"
proof (cases e)
  case (Some ep)
  show "(500, x) \<in> set (documented_errors e) \<Longrightarrow> (500, x) = internal_error"
    unfolding Some
    by (cases ep) (auto simp: guards_of_def guard_errors_def error_lists account_errors_def patch_errors_def token_errors_def
        throttle_errors_def body_errors_def answers_in_def auth_answers_def progress_answers_def progress_sentinels_def change_errors_def)
qed simp

lemma only_internal:
  assumes "Status r \<in> successes e \<or> shown (set (documented_errors e)) r" "Status r = 500"
  shows "shown {internal_error} r"
proof -
  have "Status r \<notin> successes e" using assms(2) by (cases e; cases "the e") auto
  with assms obtain st ec m fs where t: "(st, ec, m) \<in> set (documented_errors e)" "fs = [] \<or> ec = ''validation_failed''"
      "r = json_response st (enc_ErrorBody \<lparr>Error = ec, EMessage = m, Fields = fs\<rparr>)"
    unfolding shown_def by auto
  then have "st = 500" using assms(2) by (simp add: json_response_def)
  with t documented_500 [of "(ec, m)" e] show ?thesis by (auto simp: shown_def internal_error_def)
qed

text \<open>The error of a stored row that does not parse holds the application error of the value object, so a
  client sees a defect of the database as a fault of its own request.\<close>

lemma unreadable_row_is_shown:
  assumes "0 < u_id r" "ToLower (mail_lib.truncate lib) (TrimSpace (u_email r)) = []"
  shows "\<exists>e. user_of_row lib r = Err e \<and> fail_response (auth_toHTTPError e) =
    json_response 400 (enc_ErrorBody \<lparr>Error = ''invalid_email'', EMessage = ''email is required'', Fields = []\<rparr>)"
  using assms
  by (simp add: user_of_row_def NewID_def NewEmail_def apperror_eq auth_toHTTPError_def fail_response_def Fail_def toAppError_def)

section \<open>Every answer\<close>


text \<open>At the sample site: a \<open>PUT /progress\<close> with an empty body.\<close>

lemma sample_plain: "crypto_plain sample_crypto"
  by (simp add: crypto_plain_def sample_crypto_def)

lemma empty_put:
  "\<exists>w1. serve sample_api (\<lambda>_. True) (Some EP_SaveProgress) (sample_ctx []) sample_site =
    (json_response 400 (enc_ErrorBody \<lparr>Error = ''invalid_progress_data'', EMessage = ''data is required'', Fields = []\<rparr>), w1)"
  by (simp add: serve_def guards_of_def sample_api_def sample_ctx_local sample_guard [OF quiet_site] services_def handle_Save_def
      ctx_UserID_def)
    (simp add: sample_ctx_def documentFromBody_def Save_def NewID_def validateData_def apperror_eq or_fail_def handling_def
      progress_toHTTPError_def fail_response_def Fail_def)


end
