(* ===== verification/Spec2Isabelle.thy ===== *)
theory Spec2Isabelle
  imports ConcurrentAnswers Races Paging AccessLog RequestScope ErrorContract
begin

text \<open>
  A verification development for \<^verbatim>\<open>japo-backend\<close>, the HTTP API of a kana learning application: accounts
  with an activity streak, email verification and password resets, and one JSON progress document
  per account, on Fiber and MariaDB.

  \<^bold>\<open>The program.\<close> A request passes the global middleware and the guards of its route (token, rate
  limit), is decoded and validated by a handler, and runs one use case of the authentication or of
  the progress service. The services know their environment through ports (repositories, hasher,
  tokens, mailer, clock, random generator) and each other through two of them: saving progress
  records activity on the account, and \<open>GET /me\<close> embeds the progress document. \<^verbatim>\<open>cmd/api/main.go\<close>
  reads the configuration, connects, migrates, wires all of it and serves until it is told to stop.

  \<^bold>\<open>State and effects.\<close> Everything the services read or write is the record \<open>world\<close>: the four tables of
  \<^verbatim>\<open>migrations/*.sql\<close>, the clock, the entropy, the mail that left, and how the next driver and network
  calls end. A function that may fail gives a \<open>result\<close> (\<open>Ok\<close>, \<open>Err\<close> with the tree of wrapped Go errors,
  or \<open>Panic\<close>); a step with effects is a \<open>proc\<close> from a world to a result and a world. A transaction
  puts the tables back unless its commit succeeds. Go's \<open>int\<close> is \<^typ>\<open>int\<close> with the wrap-around \<open>int64\<close>
  written at each operation; a string is its bytes; a Go map is a sorted association list, with nil
  maps kept apart (\<open>gmap\<close>).

  \<^bold>\<open>The theories.\<close> In the order of their imports, with the sources they model:

  \<^item> \<open>Prelude\<close> (64 bit integers, sorted association lists, theorem collections), \<open>GoErrors\<close> (errors,
    results, steps; \<open>keeps I m\<close>: the step \<open>m\<close> keeps \<open>I\<close>), \<open>GoText\<close> (UTF-8, \<open>strings\<close>, \<open>strconv\<close>), \<open>GoTime\<close>
    (calendar, RFC 3339), \<open>Json\<close>, \<open>JsonRoundtrip\<close>, \<open>JsonText\<close>, \<open>JsonCodec\<close> (\<^verbatim>\<open>encoding/json\<close>: scanner,
    compact output, string literals, typed values): the language and its standard library.
  \<^item> \<open>AppErrors\<close>, \<open>Http\<close>, \<open>Paging\<close>: \<^verbatim>\<open>internal/shared/apperror\<close>, \<^verbatim>\<open>internal/shared/httpx\<close>;
    \<open>ValueObjects\<close>: \<^verbatim>\<open>internal/shared/valueobject\<close>, \<^verbatim>\<open>internal/shared/pagination\<close>;
    \<open>Validator\<close>: \<^verbatim>\<open>internal/shared/validatorx\<close>.
  \<^item> \<open>World\<close>: the tables, statements with faults, the clock.
  \<^item> \<open>AuthDomain\<close>, \<open>AuthRepository\<close>, \<open>AuthService\<close>, \<open>AuthHandler\<close>: \<^verbatim>\<open>internal/modules/auth\<close>, one
    definition per function of \<^verbatim>\<open>domain.go\<close>, \<^verbatim>\<open>profile.go\<close>, the two repositories, \<^verbatim>\<open>service.go\<close>,
    \<^verbatim>\<open>verification.go\<close>, \<^verbatim>\<open>password_reset.go\<close>, \<^verbatim>\<open>dto.go\<close>, \<^verbatim>\<open>handler.go\<close>.
  \<^item> \<open>Mastery\<close>, \<open>Document\<close>, \<open>ProgressRepository\<close>, \<open>ProgressService\<close>, \<open>ProgressHandler\<close>:
    \<^verbatim>\<open>internal/modules/progress\<close>, likewise.
  \<^item> \<open>PlatformAuth\<close>, \<open>Mail\<close>, \<open>Config\<close>, \<open>Middleware\<close>: \<^verbatim>\<open>internal/platform/auth\<close>, \<^verbatim>\<open>mail\<close>, \<^verbatim>\<open>config\<close>,
    \<^verbatim>\<open>middleware\<close> (with \<open>AccessLog\<close> and \<open>RequestScope\<close>); \<open>Boot\<close>: \<^verbatim>\<open>database\<close>, \<^verbatim>\<open>server\<close>, \<^verbatim>\<open>logger\<close>, \<^verbatim>\<open>cmd/migrate\<close> and the start of the API.
  \<^item> \<open>Composition\<close>: the wiring and the adapters of \<^verbatim>\<open>cmd/api\<close>; \<open>Api\<close>: the routes with their guards and
    \<open>serve\<close>, one request from the outside.

  \<^bold>\<open>Interfaces.\<close> \<open>AuthContract\<close> states what the authentication use cases need of their stores
  (\<open>user_store\<close>, \<open>verification_store\<close>, \<open>reset_store\<close>, on an abstract \<open>auth_state\<close>), \<open>AuthUseCases\<close> proves the
  use cases from the contracts (\<open>auth_ports\<close>), and \<open>AuthStores\<close> and \<open>Composition\<close> interpret them on the
  MariaDB repositories and the wired service. \<open>ProgressRepository\<close> and \<open>ProgressService\<close> do the same for
  progress documents (\<open>progress_repository\<close>, \<open>progress_service\<close>, on the map from users to their stored
  bytes). \<open>Frames\<close> and the frames of \<open>Composition\<close> and \<open>Api\<close> lift what every statement keeps to what
  every request keeps; \<open>System\<close> interprets them with the invariants below.

  \<^bold>\<open>What is shown.\<close>

  \<^item> Over any run of the server with any faults (\<open>reachable\<close>): the tables stay consistent
    (\<open>Integrity\<close>), accounts persist, stored documents are valid JSON within the size limit, only a
    reset changes a password, the two modules do not touch each other's data, only the owner changes
    a document. \<open>AccountMachine\<close> and \<open>AccountRuns\<close> show that accounts, codes and links follow an abstract
    machine with guarded steps, and bound the guesses of a code.
  \<^item> Of single requests: what a success of register, login, verification, reset, answer and PUT needs
    and leaves behind; that they succeed where they should while the driver answers (\<open>Liveness\<close>); what
    the two silent endpoints do not reveal (\<open>Promises\<close>); that every response is a success of its
    endpoint or one of the failures in the table of that endpoint, status, code and message, and that a
    500 says nothing (\<open>ErrorContract\<close>, from a contract of what the errors of every port may hold);
    that the only panic is the one of \<open>Panics\<close>.
  \<^item> Of the parts: round trips of JSON, times, documents, tokens, reset secrets and their links; the
    mastery thresholds; the streak against a reference on the set of days (\<open>ActivityRules\<close>); kana
    recognition against the two blocks of Unicode; no header injection through mail; bounds of
    pagination and codes; termination of the connection loop and the order of the start and the stop
    (\<open>BootOrder\<close>); what the access log writes, a recovered panic included (\<open>AccessLog\<close>).
  \<^item> Of a document over its life: after any answers, with anything in between that leaves the document
    alone, its scores, levels and attempts are the grading rules applied to the whole history
    (\<open>AnswerHistory\<close>).
  \<^item> Of requests at the same time. \<open>Interleaving\<close> lets steps of other requests fall between any two
    statements of a request: the services are polymorphic in the state of their ports, so the very
    definitions of the use cases run on disturbed ports, and with no foreign step these are the ports of
    the program (\<open>shared_users_alone\<close>, \<open>shared_repository_alone\<close>). \<open>Concurrency\<close>: a request takes only
    statement steps, whatever the others do, so the tables stay consistent and accounts persist.
    \<open>ConcurrentAnswers\<close>: every foreign step comes with a log of the answers it records in the world it
    happens in (those worlds are noted), and the history after an answer that is reported as stored is
    the one before it, then those logs in their order, with the answer in one place among them. \<open>Races\<close>: what is not safe, two interleaved
    resets with one link that both succeed, and guesses of a code beyond the limit when they are checked
    before any of them is counted.

  \<open>Samples\<close> and \<open>SampleAnswers\<close> evaluate concrete requests, on third parties given by functions that
  do as documented, for the witnesses.

  \<^bold>\<open>Bounds and fuel.\<close> The JSON scanner runs on fuel \<open>2 * length s\<close>, enough for every input
  (\<open>parse_fuel_enough\<close>), and refuses a nesting beyond 10000 as Go does. All other loops are structural
  or have a measure; the connection loop counts the configured attempts down. A body, a statement or
  a document has no length bound other than the ones the code checks.

  \<^bold>\<open>Parameters.\<close> bcrypt, JWT signatures, SHA-256, the address grammar, Unicode case and letter tables,
  the time zone database and the engine of the validator are fields of \<open>crypto_lib\<close>, \<open>auth_lib\<close> and
  \<open>validator_lib\<close>; what a property needs of them is a hypothesis of it. The collation of the address
  column is a key function on strings.

  \<^bold>\<open>Not modelled.\<close> Route matching, the window of the rate limiter and the matching of CORS origins are Fiber's:
  \<open>serve\<close> takes the matched route and the limiter's decision. The MariaDB driver and goose are the
  environment: a statement fails before it has any effect or does what its SQL says, and the SQL of the
  migrations appears as the constraints of the tables. The properties of
  \<open>reachable\<close> runs serve requests one after the other; for interleaved requests there are the theories
  named above, in which a transaction, holding the lock of its row, is one step, and of the rest the
  manifest's findings say where they would differ. The SMTP
  server's side and TLS, the text of log records and of error strings, and the test container of
  \<^verbatim>\<open>internal/testsupport\<close> are left out.
\<close>

section \<open>The server over time\<close>

text \<open>C1: Whatever requests the server goes through, in any order and with any driver fault, the tables
  stay consistent: no two accounts share an id or an address (up to the collation), an account has at
  most one code, one link and one document, no two links share a token hash, and each of them
  belongs to an account that exists.\<close>

theorem tables_stay_consistent:
  assumes "reachable a w0 w" "tables_ok (collation_key w0) (db w0)"
  shows "tables_ok (collation_key w0) (db w)"
proof -
  have "db_ok (collation_key w0) w"
  proof (rule reachable_keeps [OF assms(1) db_only_ok])
    show "db_ok (collation_key w0) v \<Longrightarrow> db_ok (collation_key w0) (snd (serve a allowed e c v))" for allowed e c v
      by (rule consistency.requests.serve_keeps) simp_all
  qed (simp add: db_ok_def assms(2))
  then show ?thesis by (simp add: db_ok_def)
qed

theorem tables_stay_consistent_witness:
  "tables_ok (\<lambda>s. s) (db (snd (serve sample_api (\<lambda>_. True) (Some EP_Register) (sample_ctx []) empty_site)))"
  using tables_stay_consistent [OF reachable_request [of sample_api empty_site "\<lambda>_. True" "Some EP_Register" "sample_ctx []"]]
    sample_tables(2) sample_keys(2) by simp

text \<open>C19: An account is never lost: through any run of the server it keeps its id and its address, and
  an address that was confirmed stays confirmed.\<close>

theorem accounts_persist:
  assumes "reachable a w0 w" "r \<in> set (users (db w0))"
  shows "\<exists>r' \<in> set (users (db w)). same_account r r'"
proof -
  have "kept_users same_account (users (db w0)) w"
  proof (rule reachable_keeps [OF assms(1) depends_on_db_only [OF depends_kept]])
    show "kept_users same_account (users (db w0)) v \<Longrightarrow>
        kept_users same_account (users (db w0)) (snd (serve a allowed e c v))" for allowed e c v
      by (rule accounts.requests.serve_keeps) simp_all
  qed (auto simp: kept_users_def same_account_def)
  then show ?thesis using assms(2) by (simp add: kept_users_def)
qed

theorem accounts_persist_witness:
  "\<exists>r' \<in> set (users (db (snd (serve sample_api (\<lambda>_. True) (Some EP_Login) (sample_ctx []) sample_site)))).
     same_account sample_user r'"
  by (rule accounts_persist [OF reachable_request]) (simp add: sample_site_sel)

text \<open>C21: Only \<open>POST /auth/reset-password\<close> ever changes a password: through any other request every
  account keeps its password hash, besides its id and address.\<close>

theorem only_a_reset_changes_passwords:
  assumes "e \<noteq> Some EP_ResetPassword" "r \<in> set (users (db w))"
  shows "\<exists>r' \<in> set (users (db (snd (serve a allowed e c w)))). same_login r r'"
proof -
  have "kept_users same_login (users (db w)) (snd (serve a allowed e c w))"
    by (rule logins.most_requests.serve_keeps) (use assms(1) in \<open>auto simp: kept_users_def same_login_def same_account_def\<close>)
  then show ?thesis using assms(2) by (simp add: kept_users_def)
qed

theorem only_a_reset_changes_passwords_witness:
  "\<exists>r' \<in> set (users (db (snd (serve sample_api (\<lambda>_. True) (Some EP_Login) (sample_ctx []) sample_site)))).
     same_login sample_user r'"
  by (rule only_a_reset_changes_passwords) (simp_all add: sample_site_sel)

text \<open>C4: A progress document is changed by its owner only: a request after which the stored document of
  an account differs is one of the guarded ones, and the bearer token of its \<open>Authorization\<close> header
  verifies at that time and names that account.\<close>

theorem only_the_owner_changes_a_document:
  assumes "serve a allowed e c w = (resp, w1)" "stored_progress w1 j \<noteq> stored_progress w j"
  shows "\<exists>x claims. e = Some x \<and> Authenticated \<in> set (guards_of x) \<and> starts_with ''Bearer '' (Authorization c) \<and>
    jwt_VerifyAt (api_crypto a) (wired_tokens (api_config a)) (now w) (TrimSpace (drop 7 (Authorization c))) = Ok claims \<and>
    Claims_UserID claims = j"
proof -
  have prefix: "bearerPrefix = ''Bearer ''" "length bearerPrefix = 7" by (simp_all add: bearerPrefix_def)
  obtain x claims where "e = Some x" "Authenticated \<in> set (guards_of x)" "starts_with bearerPrefix (Authorization c)"
      "jwt_VerifyAt (api_crypto a) (wired_tokens (api_config a)) (now w) (TrimSpace (drop (length bearerPrefix) (Authorization c))) = Ok claims"
      "Claims_UserID claims = j"
    using assms by (rule only_the_owner)
  then show ?thesis unfolding prefix(2) unfolding prefix(1) by blast
qed

theorem only_the_owner_changes_a_document_witness:
  "\<exists>claims. jwt_VerifyAt sample_crypto (wired_tokens sample_config) (of_seconds 1700000000)
       (TrimSpace (drop 7 (Authorization (sample_ctx ''{}'')))) = Ok claims \<and> Claims_UserID claims = 1"
proof -
  obtain resp us where r: "serve sample_api (\<lambda>_. True) (Some EP_SaveProgress) (sample_ctx ''{}'') sample_site =
      (resp, (with_document ''{}'' sample_site)\<lparr>db := (db (with_document ''{}'' sample_site))\<lparr>users := us\<rparr>\<rparr>)"
    using sample_put by blast
  have "stored_progress ((with_document ''{}'' sample_site)\<lparr>db := (db (with_document ''{}'' sample_site))\<lparr>users := us\<rparr>\<rparr>) 1 \<noteq>
      stored_progress sample_site 1"
    by (simp add: stored_progress_def progress_of_def row_with_def with_document_def site_free)
  from only_the_owner_changes_a_document [OF r this] show ?thesis
    by (simp add: sample_api_def sample_site_sel)
qed

text \<open>C20: Every progress document in the store, at any time, is a JSON text of at most 262144 bytes that
  the service checked, if that holds at the start.\<close>

theorem stored_documents_are_json:
  assumes "reachable a w0 w" "\<And>u d. stored_progress w0 u = Some d \<Longrightarrow> d \<noteq> [] \<and> length d \<le> MaxDataSize \<and> json_Valid d"
    and "stored_progress w u = Some d"
  shows "d \<noteq> [] \<and> length d \<le> MaxDataSize \<and> json_Valid d"
proof -
  have "documents_checked w"
  proof (rule reachable_keeps [OF assms(1)])
    show "db_only documents_checked" by (auto simp: db_only_def documents_checked_def stored_progress_def)
    show "documents_checked v \<Longrightarrow> documents_checked (snd (serve a allowed e c v))" for allowed e c v
      by (rule checked.serve_keeps) simp_all
    show "documents_checked w0" using assms(2) by (simp add: documents_checked_def)
  qed
  then show ?thesis using assms(3) by (simp add: documents_checked_def)
qed

theorem stored_documents_are_json_witness: "json_Valid ''{}''"
proof -
  obtain resp us where r: "serve sample_api (\<lambda>_. True) (Some EP_SaveProgress) (sample_ctx ''{}'') sample_site =
      (resp, (with_document ''{}'' sample_site)\<lparr>db := (db (with_document ''{}'' sample_site))\<lparr>users := us\<rparr>\<rparr>)"
    using sample_put by blast
  have r2: "reachable sample_api sample_site ((with_document ''{}'' sample_site)\<lparr>db := (db (with_document ''{}'' sample_site))\<lparr>users := us\<rparr>\<rparr>)"
    using reachable_request [of sample_api sample_site "\<lambda>_. True" "Some EP_SaveProgress" "sample_ctx ''{}''"] unfolding r by simp
  have none: "stored_progress sample_site u = None" for u
    by (simp add: stored_progress_def progress_of_def row_with_def site_free)
  have stored: "stored_progress ((with_document ''{}'' sample_site)\<lparr>db := (db (with_document ''{}'' sample_site))\<lparr>users := us\<rparr>\<rparr>) 1 = Some ''{}''"
    by (simp add: stored_progress_def progress_of_def row_with_def with_document_def)
  show ?thesis using stored_documents_are_json [OF r2 _ stored] none by simp
qed

text \<open>C24: Authentication and progress do not write each other's data: a request to the progress routes
  leaves who owns which address, every password hash, every confirmation, every code and every reset
  link as it was, and any other request leaves every progress document as it was.\<close>

theorem modules_are_isolated:
  "if e \<in> Some ` {EP_GetProgress, EP_SaveProgress, EP_MergeProgress, EP_Answer, EP_CompleteLesson}
   then auth_state_of (snd (serve a allowed e c w)) = auth_state_of w
   else stored_progress (snd (serve a allowed e c w)) = stored_progress w"
proof (cases "e \<in> Some ` grading_endpoints")
  case True
  have "credentials (collation_key w) (auth_state_of w) (snd (serve a allowed e c w))"
    by (rule grading.serve_keeps) (use True in \<open>auto simp: credentials_def\<close>)
  with True show ?thesis by (simp add: credentials_def grading_endpoints_def)
next
  case False
  have "stored_progress (snd (serve a allowed e c w)) = stored_progress w"
    by (rule identity.serve_keeps) (use False in auto)
  with False show ?thesis by (simp add: grading_endpoints_def)
qed

text \<open>C8: A login that succeeds over HTTP had the password of the account that owns the address: the
  address of the payload belongs to an account, bcrypt accepts the password of the payload for the
  hash of that account, and when the gate is on its address is confirmed.\<close>

theorem login_needs_the_password:
  assumes "serve a allowed (Some EP_Login) c w = (resp, w1)" "Status resp < 300" "tables_ok (collation_key w) (db w)"
  shows "\<exists>creds e i h v. BodyParser (api_validator a) dec_Credentials c = Some creds \<and>
    NewEmail (mail_lib.truncate (api_auth a)) (C_Email creds) = Ok e \<and>
    owner (auth_state_of w) e = Some i \<and> account (auth_state_of w) i = Some (h, v) \<and>
    hasher_Compare (api_crypto a) h (Password creds) = Ok () \<and>
    (auth_RequireVerifiedEmail (cfg_Auth (api_config a)) \<longrightarrow> v)"
proof -
  let ?s = "wired_auth (api_auth a) (api_crypto a) (api_config a)"
  have "handle_Login (api_validator a) ?s (c\<lparr>Local_UserID := None\<rparr>) w = (Ok resp, w1)"
    using serve_public_success [OF assms(1,2)] by (simp add: guards_of_def services_def)
  then obtain creds sess w2 where c: "BodyParser (api_validator a) dec_Credentials c = Some creds" "Login ?s creds w = (Ok sess, w2)"
    using handle_Login_success assms(2) by fastforce
  have "db_invar w" using assms(3) by (simp add: db_invar_def)
  from wired_auth.Login_Ok [OF c(2) this] c(1) show ?thesis
    by (auto simp: email_of_def wired_policy_def withDefaults_def)
qed

theorem login_needs_the_password_witness:
  "\<exists>i h v. owner (auth_state_of sample_site) ''a@b.c'' = Some i \<and> account (auth_state_of sample_site) i = Some (h, v) \<and>
     hasher_Compare sample_crypto h ''secret12'' = Ok ()"
proof -
  obtain resp w1 where "serve sample_api (\<lambda>_. True) (Some EP_Login) (sample_ctx []) sample_site = (resp, w1)" "Status resp < 300"
    using sample_login_served by force
  from login_needs_the_password [OF this] sample_tables(1) sample_keys(1) show ?thesis
    by (auto simp: sample_api_def sample_payloads sample_email)
qed

text \<open>C10: A registration that succeeds over HTTP creates exactly one account: a new id for an address
  nobody had, with a bcrypt hash of the given password, not confirmed, and nothing else about any
  account changes; the password has 8 to 72 bytes.\<close>

theorem register_creates_one_account:
  assumes "serve a allowed (Some EP_Register) c w = (resp, w1)" "Status resp < 300" "tables_ok (collation_key w) (db w)"
  shows "\<exists>creds e i h v. BodyParser (api_validator a) dec_Credentials c = Some creds \<and>
    NewEmail (mail_lib.truncate (api_auth a)) (C_Email creds) = Ok e \<and>
    8 \<le> length (Password creds) \<and> length (Password creds) \<le> 72 \<and>
    fst (hasher_Hash (api_crypto a) (NewPasswordHasher (auth_BcryptCost (cfg_Auth (api_config a)))) (Password creds) v) = Ok h \<and>
    owner (auth_state_of w) e = None \<and> owner (auth_state_of w1) e = Some i \<and>
    account (auth_state_of w) i = None \<and> account (auth_state_of w1) = (account (auth_state_of w))(i \<mapsto> (h, False))"
proof -
  let ?s = "wired_auth (api_auth a) (api_crypto a) (api_config a)"
  have "handle_Register (api_validator a) ?s (c\<lparr>Local_UserID := None\<rparr>) w = (Ok resp, w1)"
    using serve_public_success [OF assms(1,2)] by (simp add: guards_of_def services_def)
  then obtain creds sess w2 where c: "BodyParser (api_validator a) dec_Credentials c = Some creds" "Register ?s creds w = (Ok sess, w2)"
      "send_session Created sess w2 = (Ok resp, w1)"
    using handle_Register_success assms(2) by fastforce
  have "auth_state_of w1 = auth_state_of w2" using send_session_state [OF c(3)] by (intro auth_state_cong) auto
  moreover have "db_invar w" using assms(3) by (simp add: db_invar_def)
  ultimately show ?thesis using wired_auth.Register_Ok [OF c(2) _ wired_db_invar] c(1)
    by (fastforce simp: email_of_def)
qed

theorem register_creates_one_account_witness:
  "\<exists>i h w1. owner (auth_state_of empty_site) ''a@b.c'' = None \<and> owner (auth_state_of w1) ''a@b.c'' = Some i \<and>
     account (auth_state_of w1) = (account (auth_state_of empty_site))(i \<mapsto> (h, False))"
proof -
  obtain resp w1 where "serve sample_api (\<lambda>_. True) (Some EP_Register) (sample_ctx []) empty_site = (resp, w1)" "Status resp < 300"
    using sample_register_served by force
  from register_creates_one_account [OF this] sample_tables(2) sample_keys(2) show ?thesis
    by (auto simp: sample_api_def sample_payloads sample_email)
qed

text \<open>C11: An address is confirmed only with its live code: on success the account was not confirmed, the
  hash of the code of the payload is the stored one, which was neither used nor expired nor guessed
  too often; afterwards the account is confirmed and the code is used, and nothing else changed.\<close>

theorem verification_needs_the_live_code:
  assumes "serve a allowed (Some EP_VerifyEmail) c w = (resp, w1)" "Status resp < 300" "tables_ok (collation_key w) (db w)"
  shows "\<exists>req e i h v t. BodyParser (api_validator a) dec_VerifyEmailRequest c = Some req \<and>
    NewEmail (mail_lib.truncate (api_auth a)) (rq_Email req) = Ok e \<and> owner (auth_state_of w) e = Some i \<and>
    account (auth_state_of w) i = Some (h, False) \<and> code (auth_state_of w) i = Some v \<and>
    CodeHash v = sha256_hex (api_auth a) (rq_Code req) \<and> V_ConsumedAt v = None \<and> Nanos t < Nanos (V_ExpiresAt v) \<and>
    Attempts v < MaxVerificationAttempts (withDefaults (wired_policy (api_config a))) \<and>
    auth_state_of w1 = on_account i (\<lambda>(h, v). (h, True)) (on_code i (used_code t) (auth_state_of w))"
proof -
  let ?s = "wired_auth (api_auth a) (api_crypto a) (api_config a)"
  have "handle_VerifyEmail (api_validator a) ?s (c\<lparr>Local_UserID := None\<rparr>) w = (Ok resp, w1)"
    using serve_public_success [OF assms(1,2)] by (simp add: guards_of_def services_def)
  then obtain req sess w2 where c: "BodyParser (api_validator a) dec_VerifyEmailRequest c = Some req"
      "VerifyEmail ?s (rq_Email req) (rq_Code req) w = (Ok sess, w2)" "send_session OK sess w2 = (Ok resp, w1)"
    using handle_VerifyEmail_success assms(2) by fastforce
  have "auth_state_of w1 = auth_state_of w2" using send_session_state [OF c(3)] by (intro auth_state_cong) auto
  moreover have "db_invar w" using assms(3) by (simp add: db_invar_def)
  ultimately show ?thesis using wired_auth.VerifyEmail_Ok [OF c(2)] c(1)
    by (fastforce simp: email_of_def hashSecret_def Verification_Usable_def)
qed

theorem verification_needs_the_live_code_witness:
  "\<exists>i h v. owner (auth_state_of coded_site) ''a@b.c'' = Some i \<and> account (auth_state_of coded_site) i = Some (h, False) \<and>
     code (auth_state_of coded_site) i = Some v \<and> CodeHash v = ''#123456''"
proof -
  obtain resp w1 where "serve sample_api (\<lambda>_. True) (Some EP_VerifyEmail) (sample_ctx []) coded_site = (resp, w1)" "Status resp < 300"
    using sample_verify_served by force
  from verification_needs_the_live_code [OF this] sample_tables(3) sample_keys(3) show ?thesis
    by (auto simp: sample_api_def sample_payloads sample_email) (auto simp: sample_lib_def)
qed

text \<open>C14: A password is reset only with a live link: the payload's token hashes to a link that is not
  used and, at the time of the request, not expired, the account of the link gets a bcrypt hash of the new password, no other
  password changes, and afterwards no link of that account is live.\<close>

theorem reset_needs_a_live_link:
  assumes "serve a allowed (Some EP_ResetPassword) c w = (resp, w1)" "Status resp < 300"
  shows "\<exists>req v h b w2. BodyParser (api_validator a) dec_ResetPasswordRequest c = Some req \<and>
    reset (auth_state_of w) (sha256_hex (api_auth a) (rq_Token req)) = Some v \<and> R_ConsumedAt v = None \<and>
    Nanos (now w) < Nanos (R_ExpiresAt v) \<and>
    fst (hasher_Hash (api_crypto a) (NewPasswordHasher (auth_BcryptCost (cfg_Auth (api_config a)))) (rq_Password req) w2) = Ok h \<and>
    account (auth_state_of w1) = (account (auth_state_of w))(R_UserID v \<mapsto> (h, b)) \<and>
    (\<forall>k x. reset (auth_state_of w1) k = Some x \<longrightarrow> R_UserID x = R_UserID v \<longrightarrow> R_ConsumedAt x \<noteq> None)"
proof -
  let ?s = "wired_auth (api_auth a) (api_crypto a) (api_config a)"
  have "handle_ResetPassword (api_validator a) ?s (c\<lparr>Local_UserID := None\<rparr>) w = (Ok resp, w1)"
    using serve_public_success [OF assms(1,2)] by (simp add: guards_of_def services_def)
  then obtain req where c: "BodyParser (api_validator a) dec_ResetPasswordRequest c = Some req"
      "ResetPassword ?s (rq_Token req) (rq_Password req) w = (Ok (), w1)"
    using handle_ResetPassword_success assms(2) by fastforce
  obtain v t h w2 b where r: "reset (auth_state_of w) (sha256_hex (api_auth a) (rq_Token req)) = Some v" "Reset_Usable v t"
      "fst (Hash ?s (rq_Password req) w2) = Ok h" "account (auth_state_of w1) = (account (auth_state_of w))(R_UserID v \<mapsto> (h, b))"
      "reset (auth_state_of w1) = (\<lambda>k. map_option (used_reset (R_UserID v) t) (reset (auth_state_of w) k))"
    using wired_auth.ResetPassword_Ok [OF c(2)] unfolding hashSecret_def wired_auth_sel by blast
  have "R_ConsumedAt x \<noteq> None" if x: "reset (auth_state_of w1) k = Some x" "R_UserID x = R_UserID v" for k x
  proof -
    obtain y where y: "x = used_reset (R_UserID v) t y" using x(1) unfolding r(5) by auto
    then have "R_UserID y = R_UserID v" using x(2) by (simp add: used_reset_def split: if_splits)
    with y show ?thesis by (cases "R_ConsumedAt y") (simp_all add: used_reset_def)
  qed
  moreover have "Reset_Usable v (UTC (now w))" using reset_is_live_now [OF c(2)] r(1) by simp
  ultimately show ?thesis using c(1) r(1,3,4)
    by (intro exI [of _ req] exI [of _ v] exI [of _ h] exI [of _ b] exI [of _ w2]) (simp add: Reset_Usable_def UTC_def)
qed

theorem reset_needs_a_live_link_witness:
  "\<exists>v. reset (auth_state_of linked_site) ''#link'' = Some v \<and> R_ConsumedAt v = None \<and>
     Nanos (now linked_site) < Nanos (R_ExpiresAt v)"
proof -
  obtain resp w1 where "serve sample_api (\<lambda>_. True) (Some EP_ResetPassword) (sample_ctx []) linked_site = (resp, w1)" "Status resp < 300"
    using sample_reset_served by force
  from reset_needs_a_live_link [OF this] show ?thesis
    by (auto simp: sample_api_def sample_payloads) (auto simp: sample_lib_def)
qed

text \<open>C18: A reset link works once: after a reset that succeeded, the same token is refused in every world
  where its link is as that reset left it.\<close>

theorem a_link_works_once:
  assumes "ResetPassword (wired_auth lib crypto cfg) token p w = (Ok (), w1)"
    and "reset (auth_state_of w2) (sha256_hex lib token) = reset (auth_state_of w1) (sha256_hex lib token)"
  shows "\<not> is_Ok (fst (ResetPassword (wired_auth lib crypto cfg) token q w2))"
  by (rule wired_auth.ResetPassword_single_use [OF assms(1)]) (simp add: hashSecret_def assms(2))

theorem a_link_works_once_witness:
  "\<exists>w1. ResetPassword sample_auth ''link'' ''secret12'' linked_site = (Ok (), w1) \<and>
     \<not> is_Ok (fst (ResetPassword sample_auth ''link'' ''secret12'' w1))"
  using sample_reset a_link_works_once [OF _ refl] by blast

text \<open>C22: The guarded routes let nobody in without a token that verifies: the answer is 401 and the
  database is as it was.\<close>

theorem no_token_no_entry:
  assumes "Authenticated \<in> set (guards_of x)"
    and "\<And>t. \<exists>err. jwt_VerifyAt (api_crypto a) (wired_tokens (api_config a)) t (TrimSpace (drop 7 (Authorization c))) = Err err"
  shows "Status (fst (serve a allowed (Some x) c w)) = 401 \<and> db (snd (serve a allowed (Some x) c w)) = db w"
proof -
  let ?raw = "TrimSpace (drop 7 (Authorization c))" and ?v = "jwt_Verify (api_crypto a) (wired_tokens (api_config a))"
  have g: "guards_of x = [Authenticated]" using assms(1) by (cases x) (auto simp: guards_of_def)
  obtain err where "jwt_VerifyAt (api_crypto a) (wired_tokens (api_config a)) (now w) ?raw = Err err" using assms(2) by blast
  then have v: "?v ?raw w = (Err err, snd (read_clock w))"
    by (simp add: jwt_Verify_def andThen_def read_clock_def split: list.split)
  have un: "Status (fail_response (Unauthorized k m)) = 401" for k m by (simp add: Unauthorized_def newError_def)
  have "Status (fail_response (token_error err)) = 401" by (simp add: token_error_def Unauthorized_def newError_def)
  moreover have "or_fail token_error (?v ?raw) k w = (Ok (fail_response (token_error err)), snd (read_clock w))" for k
    using v by (simp add: or_fail_def handling_def)
  moreover have "length bearerPrefix = 7" by (simp add: bearerPrefix_def)
  ultimately show ?thesis using un
    by (simp add: serve_def g JWTAuth_def Let_def)
qed

theorem no_token_no_entry_witness:
  "Status (fst (serve sample_api (\<lambda>_. True) (Some EP_Me) ((sample_ctx [])\<lparr>Authorization := ''Bearer junk''\<rparr>) sample_site)) = 401"
proof -
  have "TrimSpace ''junk'' = ''junk''" by (simp add: TrimSpace_graphic graphic_def)
  then have "\<exists>err. jwt_VerifyAt (api_crypto sample_api) (wired_tokens (api_config sample_api)) t
      (TrimSpace (drop 7 (Authorization ((sample_ctx [])\<lparr>Authorization := ''Bearer junk''\<rparr>)))) = Err err" for t
    by (simp add: sample_api_def jwt_VerifyAt_def sample_crypto_def)
  from no_token_no_entry [OF _ this] show ?thesis by (simp add: guards_of_def)
qed

text \<open>C16: What is put is what is got: after a \<open>PUT /progress\<close> that succeeded, a \<open>GET /progress\<close> of the same
  user that succeeds while the stored documents are the same sends back exactly the bytes of the \<open>PUT\<close>.\<close>

theorem put_then_get:
  assumes "handle_Save (wired_progress lib crypto cfg) c w = (Ok resp, w1)" "Status resp < 300"
    and "handle_Get (wired_progress lib crypto cfg) c2 w2 = (Ok resp2, w3)" "Status resp2 < 300"
    and "Local_UserID c2 = Local_UserID c" "stored_progress w2 = stored_progress w1"
  shows "Payload resp = RawBody (Body c) \<and> Payload resp2 = RawBody (Body c)"
proof -
  obtain u p where s: "Local_UserID c = Some u" "Save (wired_progress lib crypto cfg) u (Body c) w = (Ok p, w1)"
      "Payload resp = RawBody (Data p)"
    using handle_Save_success [OF assms(1,2)] by blast
  obtain u2 p2 where g: "Local_UserID c2 = Some u2" "Get (wired_progress lib crypto cfg) u2 w2 = (Ok p2, w3)"
      "Payload resp2 = RawBody (Data p2)"
    using handle_Get_success [OF assms(3,4)] by blast
  have "stored_progress w1 u = Some (Body c)" "Data p = Body c" using wired_progress.Save_effect [OF s(2)] by simp_all
  moreover have "stored_progress w2 u2 = Some (Data p2)" using wired_progress.Get_effect [OF g(2)] by simp
  ultimately show ?thesis using s g assms(5,6) by simp
qed

theorem put_then_get_witness:
  "\<exists>resp w1 resp2 w2. handle_Save sample_progress ((sample_ctx ''{}'')\<lparr>Local_UserID := Some 1\<rparr>) sample_site = (Ok resp, w1) \<and>
     handle_Get sample_progress ((sample_ctx [])\<lparr>Local_UserID := Some 1\<rparr>) w1 = (Ok resp2, w2) \<and> Payload resp2 = RawBody ''{}''"
proof -
  let ?c = "(sample_ctx ''{}'')\<lparr>Local_UserID := Some 1\<rparr>" and ?c2 = "(sample_ctx [])\<lparr>Local_UserID := Some 1\<rparr>"
  obtain p us where s: "Save sample_progress 1 ''{}'' sample_site =
      (Ok p, (with_document ''{}'' sample_site)\<lparr>db := (db (with_document ''{}'' sample_site))\<lparr>users := us\<rparr>\<rparr>)"
    using sample_save [OF quiet_site site_free empty_object] by blast
  define w1 where "w1 = (with_document ''{}'' sample_site)\<lparr>db := (db (with_document ''{}'' sample_site))\<lparr>users := us\<rparr>\<rparr>"
  have save: "handle_Save sample_progress ?c sample_site = (Ok (send_document p), w1)"
    using s by (simp add: handle_Save_def documentFromBody_def ctx_UserID_def sample_ctx_def or_fail_def handling_def w1_def)
  have "\<exists>p2. mysql_FindByUserID 1 w1 = (Ok p2, w1)"
    by (simp add: mysql_FindByUserID_def select_progress_def statement_def w1_def with_document_def sample_site_sel
        progress_of_def row_with_def andThen_def onErr_def NewID_def)
  then obtain p2 where get: "handle_Get sample_progress ?c2 w1 = (Ok (send_document p2), w1)"
    by (auto simp: handle_Get_def ctx_UserID_def Get_def mysql_progress_repository_def NewID_def sample_ctx_def or_fail_def handling_def onErr_def)
  have "Status (send_document q) < 300" for q by (simp add: send_document_def)
  from put_then_get [OF save this get this] save get show ?thesis by (auto simp: sample_ctx_def)
qed

text \<open>C5: An answer that is recorded is graded and stored: the new document has the scores of its kana
  graded from the ones it had, the mastery level of those scores, the attempt as the newest of at
  most 200, schema version 2, the lessons as they were and every member of the client up to JSON
  escapes; and no other account's document changes.\<close>

theorem answer_is_graded_and_stored:
  assumes "RecordAnswer (wired_progress lib crypto cfg) u ans w = (Ok p, w1)" "valid_utf8 (Chosen ans)"
  shows "\<exists>doc new t. parseDocument (current_of (stored_progress w u)) = Ok doc \<and> parseDocument (Data p) = Ok new \<and>
    answer_recorded ans t doc new \<and> stored_progress w1 = (stored_progress w)(u \<mapsto> Data p)"
  by (rule wired_progress.RecordAnswer_Ok [OF assms])

theorem answer_is_graded_and_stored_witness:
  "\<exists>p w1 new t. RecordAnswer sample_progress 1 sample_answer sample_site = (Ok p, w1) \<and>
     parseDocument (Data p) = Ok new \<and> answer_recorded sample_answer t [] new"
proof -
  obtain p w1 where r: "RecordAnswer sample_progress 1 sample_answer sample_site = (Ok p, w1)"
    using sample_record [OF quiet_site site_free] by blast
  have c: "current_of (stored_progress sample_site 1) = []" "parseDocument [] = Ok []"
    by (simp_all add: stored_progress_def progress_of_def row_with_def site_free current_of_def parseDocument_def)
  have "valid_utf8 (Chosen sample_answer)" by code_simp
  from answer_is_graded_and_stored [OF r this] r show ?thesis unfolding c by blast
qed

text \<open>C15: No request panics, given third parties that return their failures as errors, but one: an
  answer of a user whose stored document can be read and has null for one of the two maps the answer
  is graded in. Nothing else in the request or the database makes a handler unwind.\<close>

theorem only_null_members_panic:
  assumes "crypto_returns (api_crypto a)"
    and "guarded a allowed (guards_of e) (handler_of a e) c w = (Panic m, w1)"
  shows "e = EP_Answer \<and> (\<exists>token claims doc. jwt_VerifyAt (api_crypto a) (wired_tokens (api_config a)) (now w) token = Ok claims \<and>
    parseDocument (current_of (stored_progress w (Claims_UserID claims))) = Ok doc \<and>
    (skills doc = Ok NilMap \<or> mastery doc = Ok NilMap))"
  using guarded_panic [OF assms] unfolding null_members_def by blast

theorem only_null_members_panic_witness:
  "\<exists>i doc. parseDocument (current_of (stored_progress (with_document null_document sample_site) i)) = Ok doc \<and>
     (skills doc = Ok NilMap \<or> mastery doc = Ok NilMap)"
proof -
  have lib: "crypto_returns (api_crypto answer_api)"
    by (auto simp: answer_api_def sample_api_def crypto_returns_def sample_crypto_def)
  obtain m w1 where "guarded answer_api (\<lambda>_. True) (guards_of EP_Answer) (handler_of answer_api EP_Answer) (sample_ctx [])
      (with_document null_document sample_site) = (Panic m, w1)"
    using sample_answer_panics by blast
  from only_null_members_panic [OF lib this] show ?thesis by blast
qed

end
